(* ===== verification/Prelude.thy ===== *)
theory Prelude
  imports Main "HOL-Library.Word"
begin

text \<open>
  Shared vocabulary of the development: the widths of the Go integers the servers use,
  Go's \<open>time.Time\<close> and \<open>time.Duration\<close> as far as the code reads them, Go's truncated
  remainder, and the string operations of the standard library that the source calls
  (\<open>%d\<close> of \<open>fmt\<close>, \<open>hex.EncodeToString\<close>, \<open>strings.Split\<close>), each with the facts the
  components need.
\<close>

named_theorems frame_simps \<open>what an operation leaves unchanged\<close>
named_theorems route_simps \<open>evaluation of message ids and routes\<close>

subsection \<open>Integers\<close>

text \<open>
  A Go \<open>int64\<close> (session ids, player ids), \<open>int32\<close> (message ids on the wire),
  \<open>uint64\<close> (counters) and \<open>uint32\<close> is a word of its width; \<open>sint\<close> reads a signed one.
  A Go \<open>int\<close> that only ever holds a converted \<open>int32\<close> or a small count is an \<open>int\<close>.
  Payloads and strings are sequences of bytes.
\<close>

type_synonym int64 = "64 word"
type_synonym int32 = "32 word"
type_synonym uint64 = "64 word"
type_synonym uint32 = "32 word"
type_synonym byte = "8 word"
type_synonym bytes = "byte list"

text \<open>Go's \<open>%\<close> truncates towards zero: the remainder has the sign of the dividend.\<close>

definition go_rem :: "int \<Rightarrow> int \<Rightarrow> int" where
  "go_rem a b = sgn a * (\<bar>a\<bar> mod \<bar>b\<bar>)"

lemma go_rem_nonneg [simp]: "0 \<le> a \<Longrightarrow> 0 < b \<Longrightarrow> go_rem a b = a mod b"
  by (cases "a = 0") (auto simp: go_rem_def)

lemma abs_go_rem: "0 < b \<Longrightarrow> \<bar>go_rem a b\<bar> = \<bar>a\<bar> mod b"
  by (auto simp: go_rem_def abs_mult sgn_if)

lemma abs_go_rem_less: "0 < b \<Longrightarrow> \<bar>go_rem a b\<bar> < b"
  by (simp add: abs_go_rem)

subsection \<open>Time\<close>

text \<open>
  An instant is its number of nanoseconds since the Unix epoch, and the zero
  \<open>time.Time\<close> (year 1) is \<open>None\<close> where a field may hold it. \<open>Sub\<close> saturates at the range
  of \<open>time.Duration\<close>, a signed 64-bit count of nanoseconds; against the zero time it
  always saturates.
\<close>

type_synonym time = int
type_synonym duration = int

definition maxDuration :: duration where
  "maxDuration = 2 ^ 63 - 1"

definition minDuration :: duration where
  "minDuration = - (2 ^ 63)"

definition second :: duration where
  "second = 1000000000"

definition time_sub :: "time \<Rightarrow> time \<Rightarrow> duration" where
  "time_sub a b = max minDuration (min maxDuration (a - b))"

fun time_sub_zero :: "time \<Rightarrow> time option \<Rightarrow> duration" where
  "time_sub_zero a None = maxDuration"
| "time_sub_zero a (Some b) = time_sub a b"

lemma time_sub_self [simp]: "time_sub t t = 0"
  by (simp add: time_sub_def maxDuration_def minDuration_def)

lemma time_sub_mono: "a \<le> a' \<Longrightarrow> time_sub a b \<le> time_sub a' b"
  by (auto simp: time_sub_def maxDuration_def minDuration_def)

lemma time_sub_gt_iff:
  "0 \<le> d \<Longrightarrow> d < maxDuration \<Longrightarrow> time_sub a b > d \<longleftrightarrow> a - b > d"
  by (auto simp: time_sub_def maxDuration_def minDuration_def)

lemma time_sub_le_iff:
  "0 \<le> d \<Longrightarrow> d < maxDuration \<Longrightarrow> time_sub a b \<le> d \<longleftrightarrow> a - b \<le> d"
  by (auto simp: time_sub_def maxDuration_def minDuration_def)

subsection \<open>Lists\<close>

lemma upt_Suc_shift: "[0 ..< Suc n] = 0 # map Suc [0 ..< n]"
  by (simp add: upt_conv_Cons map_Suc_upt del: upt_Suc)

end
