(* ===== verification/GoStrings.thy ===== *)
theory GoStrings
  imports Prelude
begin

text \<open>
  The standard library's string operations the source relies on: \<open>fmt.Sprintf\<close> with
  \<open>%d\<close>, \<open>hex.EncodeToString\<close> and \<open>strings.Split\<close> with a one-character separator. A Go
  string is a sequence of bytes, which is what HOL's \<open>string\<close> is.
\<close>

subsection \<open>Decimal printing\<close>

definition dec_digit :: "nat \<Rightarrow> char" where
  "dec_digit d = char_of (48 + d)"

fun dec_nat :: "nat \<Rightarrow> string" where
  "dec_nat n = (if n < 10 then [dec_digit n] else dec_nat (n div 10) @ [dec_digit (n mod 10)])"

declare dec_nat.simps [simp del]

definition dec_int :: "int \<Rightarrow> string" where
  "dec_int i = (if i < 0 then CHR ''-'' # dec_nat (nat (- i)) else dec_nat (nat i))"

fun undec_nat :: "string \<Rightarrow> nat" where
  "undec_nat s = fold (\<lambda>c n. 10 * n + (of_char c - 48)) s 0"

lemma of_char_dec_digit: "d < 10 \<Longrightarrow> (of_char (dec_digit d) :: nat) = 48 + d"
  by (simp add: dec_digit_def)

lemma undec_dec_nat: "undec_nat (dec_nat n) = n"
proof (induction n rule: dec_nat.induct)
  case (1 n)
  show ?case
  proof (cases "n < 10")
    case True
    then show ?thesis by (subst dec_nat.simps) (simp add: of_char_dec_digit)
  next
    case False
    with 1 have "undec_nat (dec_nat (n div 10)) = n div 10" by simp
    with False show ?thesis by (subst dec_nat.simps) (simp add: of_char_dec_digit)
  qed
qed

lemma dec_nat_inj: "dec_nat m = dec_nat n \<Longrightarrow> m = n"
  by (metis undec_dec_nat)

lemma dec_nat_digits: "c \<in> set (dec_nat n) \<Longrightarrow> 48 \<le> (of_char c :: nat) \<and> (of_char c :: nat) < 58"
proof (induction n rule: dec_nat.induct)
  case (1 n)
  show ?case
  proof (cases "n < 10")
    case True
    with 1 show ?thesis by (subst (asm) dec_nat.simps) (simp add: of_char_dec_digit)
  next
    case False
    have "c \<in> set (dec_nat (n div 10)) \<or> c = dec_digit (n mod 10)"
      using "1.prems" False by (subst (asm) dec_nat.simps) auto
    then show ?thesis using "1.IH" False by (auto simp: of_char_dec_digit)
  qed
qed

lemma dec_nat_no_minus: "CHR ''-'' \<notin> set (dec_nat n)"
  by (auto dest: dec_nat_digits)

lemma dec_nat_nonempty: "dec_nat n \<noteq> []"
  by (subst dec_nat.simps) simp

lemma dec_int_inj: "dec_int i = dec_int j \<Longrightarrow> i = j"
proof -
  have no: "dec_nat m \<noteq> CHR ''-'' # xs" for m xs
    using dec_nat_no_minus [of m] by auto
  assume "dec_int i = dec_int j"
  then show "i = j"
    by (auto simp: dec_int_def no no [symmetric] split: if_splits dest: dec_nat_inj)
qed

lemma dec_int_no_colon: "CHR '':'' \<notin> set (dec_int i)"
  by (auto simp: dec_int_def dest: dec_nat_digits)

lemma dec_int_no_dot: "CHR ''.'' \<notin> set (dec_int i)"
  by (auto simp: dec_int_def dest: dec_nat_digits)

subsection \<open>Hexadecimal encoding of bytes\<close>

definition hex_digit :: "nat \<Rightarrow> char" where
  "hex_digit d = (if d < 10 then char_of (48 + d) else char_of (87 + d))"

definition hex_byte :: "byte \<Rightarrow> string" where
  "hex_byte b = [hex_digit (unat b div 16), hex_digit (unat b mod 16)]"

definition hex_encode :: "bytes \<Rightarrow> string" where
  "hex_encode bs = concat (map hex_byte bs)"

lemma length_hex_encode: "length (hex_encode bs) = 2 * length bs"
  by (induction bs) (auto simp: hex_encode_def hex_byte_def)

lemma of_char_hex_digit:
  "d < 16 \<Longrightarrow> (of_char (hex_digit d) :: nat) = (if d < 10 then 48 + d else 87 + d)"
  by (simp add: hex_digit_def)

lemma hex_digit_inj: "d < 16 \<Longrightarrow> e < 16 \<Longrightarrow> hex_digit d = hex_digit e \<Longrightarrow> d = e"
proof -
  assume d: "d < 16" and e: "e < 16" and eq: "hex_digit d = hex_digit e"
  from eq have "(of_char (hex_digit d) :: nat) = of_char (hex_digit e)" by simp
  with d e show "d = e"
    unfolding of_char_hex_digit [OF d] of_char_hex_digit [OF e] by (simp split: if_splits)
qed

lemma unat_byte_bound: "unat (b :: byte) < 256"
proof -
  have "unat b < 2 ^ LENGTH(8)" by (rule unsigned_less)
  then show ?thesis by simp
qed

lemma unat_byte_nibbles: "unat (b :: byte) div 16 < 16" "unat (b :: byte) mod 16 < 16"
  using unat_byte_bound [of b] by auto

lemma hex_byte_inj: "hex_byte a = hex_byte b \<Longrightarrow> a = b"
proof -
  assume "hex_byte a = hex_byte b"
  then have "unat a div 16 = unat b div 16" "unat a mod 16 = unat b mod 16"
    by (auto simp: hex_byte_def dest!: hex_digit_inj [OF unat_byte_nibbles(1) unat_byte_nibbles(1)]
        hex_digit_inj [OF unat_byte_nibbles(2) unat_byte_nibbles(2)])
  then have "unat a = unat b" by (metis div_mult_mod_eq)
  then show "a = b" by (rule unsigned_word_eqI)
qed

lemma hex_encode_inj: "hex_encode as = hex_encode bs \<Longrightarrow> as = bs"
proof (induction as arbitrary: bs)
  case Nil
  then show ?case by (cases bs) (auto simp: hex_encode_def hex_byte_def)
next
  case (Cons a as)
  then obtain b bs' where bs: "bs = b # bs'"
    by (cases bs) (auto simp: hex_encode_def hex_byte_def)
  with Cons.prems have "hex_byte a @ hex_encode as = hex_byte b @ hex_encode bs'"
    by (simp add: hex_encode_def)
  then have "hex_byte a = hex_byte b" and "hex_encode as = hex_encode bs'"
    by (auto simp: hex_byte_def)
  with bs show ?case by (auto dest: hex_byte_inj Cons.IH)
qed

lemma hex_digit_not_dot: "d < 16 \<Longrightarrow> hex_digit d \<noteq> CHR ''.''"
  using of_char_hex_digit [of d] by (auto split: if_splits)

lemma hex_byte_no_dot: "CHR ''.'' \<notin> set (hex_byte b)"
  using hex_digit_not_dot [OF unat_byte_nibbles(1)] hex_digit_not_dot [OF unat_byte_nibbles(2)]
  by (auto simp: hex_byte_def dest: sym)

lemma hex_encode_no_dot: "CHR ''.'' \<notin> set (hex_encode bs)"
  by (simp add: hex_encode_def hex_byte_no_dot)

subsection \<open>Splitting at a separator\<close>

text \<open>\<open>strings.Split(s, sep)\<close> for a one-character \<open>sep\<close>: never empty, \<open>[s]\<close> without a hit.\<close>

fun split_on :: "char \<Rightarrow> string \<Rightarrow> string list" where
  "split_on c [] = [[]]"
| "split_on c (x # xs) =
     (if x = c then [] # split_on c xs
      else (case split_on c xs of [] \<Rightarrow> [[x]] | p # ps \<Rightarrow> (x # p) # ps))"

lemma split_on_nonempty: "split_on c s \<noteq> []"
  by (induction s) (auto split: list.splits)

lemma split_on_no_sep: "c \<notin> set s \<Longrightarrow> split_on c s = [s]"
  by (induction s) auto

lemma split_on_append_sep: "c \<notin> set a \<Longrightarrow> split_on c (a @ c # b) = a # split_on c b"
  by (induction a) auto

text \<open>Joining the parts with the separator gives the string back, and no part contains it.\<close>

fun join_with :: "char \<Rightarrow> string list \<Rightarrow> string" where
  "join_with c [] = []"
| "join_with c [p] = p"
| "join_with c (p # ps) = p @ c # join_with c ps"

lemma join_split: "join_with c (split_on c s) = s"
proof (induction s)
  case (Cons x xs)
  obtain p ps where ps: "split_on c xs = p # ps"
    using split_on_nonempty [of c xs] by (cases "split_on c xs") auto
  with Cons show ?case by (cases ps) auto
qed simp

lemma split_parts_no_sep: "p \<in> set (split_on c s) \<Longrightarrow> c \<notin> set p"
proof (induction s arbitrary: p)
  case (Cons x xs)
  obtain q qs where qs: "split_on c xs = q # qs"
    using split_on_nonempty [of c xs] by (cases "split_on c xs") auto
  with Cons show ?case by (auto split: if_splits)
qed simp

lemma split_on_two:
  "split_on c s = [a, b] \<Longrightarrow> s = a @ c # b \<and> c \<notin> set a \<and> c \<notin> set b"
  using join_split [of c s] split_parts_no_sep [of _ c s] by auto

end
