(* ===== verification/Protocol.thy ===== *)
theory Protocol
  imports GoStrings
begin

text \<open>
  The wire vocabulary: message ids (\<open>protocol/msgid.go\<close>), error codes and error values
  (\<open>protocol/errors.go\<close> and the error variables of the packages), the envelope and the
  protobuf messages (\<open>protocol/proto/*.proto\<close>). The protobuf library and the Go code the
  build generates from the \<open>.proto\<close> files are not part of the repository: the codec is a
  parameter, a record \<open>pb\<close> of marshalling and unmarshalling functions.
\<close>

subsection \<open>Message ids\<close>

definition MsgGateBegin :: int where [route_simps]: "MsgGateBegin = 0"
definition MsgResumeReq :: int where [route_simps]: "MsgResumeReq = 1"
definition MsgResumeRsp :: int where [route_simps]: "MsgResumeRsp = 2"
definition MsgSessionInit :: int where [route_simps]: "MsgSessionInit = 3"
definition MsgHeartbeatReq :: int where [route_simps]: "MsgHeartbeatReq = 10"
definition MsgHeartbeatRsp :: int where [route_simps]: "MsgHeartbeatRsp = 11"
definition MsgErrorRsp :: int where [route_simps]: "MsgErrorRsp = 21"
definition MsgServicePing :: int where [route_simps]: "MsgServicePing = 31"
definition MsgServicePong :: int where [route_simps]: "MsgServicePong = 32"
definition MsgGamePing :: int where [route_simps]: "MsgGamePing = 33"
definition MsgGamePong :: int where [route_simps]: "MsgGamePong = 34"
definition MsgGateEnd :: int where [route_simps]: "MsgGateEnd = 1000"

definition MsgLoginBegin :: int where [route_simps]: "MsgLoginBegin = 1000"
definition MsgLoginReq :: int where [route_simps]: "MsgLoginReq = 1001"
definition MsgLoginRsp :: int where [route_simps]: "MsgLoginRsp = 1002"
definition MsgLoginEnd :: int where [route_simps]: "MsgLoginEnd = 2000"

definition MsgChatBegin :: int where [route_simps]: "MsgChatBegin = 2000"
definition MsgChatSendReq :: int where [route_simps]: "MsgChatSendReq = 2001"
definition MsgChatSendRsp :: int where [route_simps]: "MsgChatSendRsp = 2002"
definition MsgChatEnd :: int where [route_simps]: "MsgChatEnd = 3000"

definition MsgGameBegin :: int where [route_simps]: "MsgGameBegin = 3000"
definition MsgPlayerEnterGameReq :: int where [route_simps]: "MsgPlayerEnterGameReq = 3001"
definition MsgPlayerEnterGameRsp :: int where [route_simps]: "MsgPlayerEnterGameRsp = 3002"
definition MsgLoadPlayerDataReq :: int where [route_simps]: "MsgLoadPlayerDataReq = 3003"
definition MsgLoadPlayerDataRsp :: int where [route_simps]: "MsgLoadPlayerDataRsp = 3004"
definition MsgPlayerResumeReq :: int where [route_simps]: "MsgPlayerResumeReq = 3005"
definition MsgPlayerOfflineNotify :: int where [route_simps]: "MsgPlayerOfflineNotify = 3006"
definition MsgGameEnd :: int where [route_simps]: "MsgGameEnd = 4000"

subsection \<open>Errors\<close>

text \<open>
  The numeric codes a client sees (\<open>protocol.ErrorCode\<close>), and the error values the
  functions return. A Go result of type \<open>error\<close> is a \<open>go_error option\<close>, \<open>None\<close> being
  \<open>nil\<close>; \<open>LibError\<close> carries the text of an error made by a library or by \<open>fmt.Errorf\<close>.
\<close>

datatype ErrorCode =
    OK | ErrUnknown | ErrInvalidParam | ErrUnauthorized | ErrInvalidToken
  | ErrSessionExpired | ErrUnknownPlatform | ErrLoginFailed | ErrPlayerNotReady

fun code_of :: "ErrorCode \<Rightarrow> int32" where
  "code_of OK = 0"
| "code_of ErrUnknown = 1000"
| "code_of ErrInvalidParam = 1001"
| "code_of ErrUnauthorized = 1002"
| "code_of ErrInvalidToken = 1003"
| "code_of ErrSessionExpired = 1004"
| "code_of ErrUnknownPlatform = 10005"
| "code_of ErrLoginFailed = 1100"
| "code_of ErrPlayerNotReady = 2000"

datatype go_error =
    InternalErrInvalidSession | InternalErrInvalidToken | InternalErrConnClosed
  | InternalErrRemoteNotReady | InternalErrNoGateConnection | InternalErrUnknownPlatForm
  | ErrNoGateConnection | InternalErrGameRouterNotReady | InternalErrGameRouterBusy
  | InternalErrRemoteBusy
  | ErrSessionNotFound | ErrConnBusy
  | ErrPlayerClosed | ErrPlayerBusy | ErrUnknownMessage | ErrPlayerDestroyed
  | ErrPlayerReplyTimeout
  | LibError string

fun error_text :: "go_error \<Rightarrow> string" where
  "error_text InternalErrInvalidSession = ''invalid session''"
| "error_text InternalErrInvalidToken = ''invalid token''"
| "error_text InternalErrConnClosed = ''connection closed''"
| "error_text InternalErrRemoteNotReady = ''remote not ready''"
| "error_text InternalErrNoGateConnection = ''no gate connection''"
| "error_text InternalErrUnknownPlatForm = ''unknown platform''"
| "error_text ErrNoGateConnection = ''gate connection not ready''"
| "error_text InternalErrGameRouterNotReady = ''game router not ready''"
| "error_text InternalErrGameRouterBusy = ''game router busy''"
| "error_text InternalErrRemoteBusy = ''game remote busy''"
| "error_text ErrSessionNotFound = ''session not found''"
| "error_text ErrConnBusy = ''connection send buffer full''"
| "error_text ErrPlayerClosed = ''player closed''"
| "error_text ErrPlayerBusy = ''player inbox busy''"
| "error_text ErrUnknownMessage = ''unknown player message''"
| "error_text ErrPlayerDestroyed = ''player destroyed''"
| "error_text ErrPlayerReplyTimeout = ''player reply timeout''"
| "error_text (LibError s) = s"

definition PlatformTest :: int32 where "PlatformTest = 0"
definition PlatformAndroid :: int32 where "PlatformAndroid = 1"
definition PlatformIOS :: int32 where "PlatformIOS = 2"
definition PlatformPC :: int32 where "PlatformPC = 3"

text \<open>No two internal errors print the same text, so a logged reason names its error.\<close>

lemma error_text_inj:
  "error_text e = error_text e' \<Longrightarrow> (\<forall>s. e \<noteq> LibError s) \<Longrightarrow> (\<forall>s. e' \<noteq> LibError s) \<Longrightarrow> e = e'"
  by (cases e; cases e') auto

subsection \<open>Messages\<close>

record Envelope =
  eMsgId :: int32
  eSessionId :: int64
  ePlayerId :: int64
  ePayload :: bytes

text \<open>\<open>int(env.MsgId)\<close> and \<open>int32(msgID)\<close>.\<close>

abbreviation msg_id :: "Envelope \<Rightarrow> int" where
  "msg_id env \<equiv> sint (eMsgId env)"

abbreviation to_int32 :: "int \<Rightarrow> int32" where
  "to_int32 i \<equiv> word_of_int i"

record SessionInit =
  siSessionId :: int64
  siToken :: string

record ResumeReq =
  rqSessionId :: int64
  rqToken :: string

record ResumeRsp =
  rsOk :: bool
  rsReason :: string

record LoginReq =
  lqToken :: string
  lqPlatform :: int32
  lqAccountId :: string

record LoginRsp =
  lrPlayerId :: int64

record ErrorRsp =
  erCode :: int32
  erMessage :: string

record PlayerData =
  pdRoleId :: int64
  pdNickname :: string
  pdLevel :: int32
  pdExp :: int64
  pdGold :: int64
  pdStamina :: int64

text \<open>
  The codec. \<open>proto.Marshal\<close> may fail (for instance on invalid UTF-8), which is \<open>None\<close>;
  where the source discards that error (\<open>data, _ :=\<close>) the payload is \<open>nil\<close>, the empty
  byte string.
\<close>

record pb =
  marshalEnvelope :: "Envelope \<Rightarrow> bytes option"
  unmarshalEnvelope :: "bytes \<Rightarrow> Envelope option"
  jsonMarshalEnvelope :: "Envelope \<Rightarrow> bytes option"
  jsonUnmarshalEnvelope :: "bytes \<Rightarrow> Envelope option"
  marshalSessionInit :: "SessionInit \<Rightarrow> bytes option"
  unmarshalResumeReq :: "bytes \<Rightarrow> ResumeReq option"
  marshalResumeRsp :: "ResumeRsp \<Rightarrow> bytes option"
  unmarshalLoginReq :: "bytes \<Rightarrow> LoginReq option"
  marshalLoginRsp :: "LoginRsp \<Rightarrow> bytes option"
  unmarshalLoginRsp :: "bytes \<Rightarrow> LoginRsp option"
  marshalErrorRsp :: "ErrorRsp \<Rightarrow> bytes option"
  marshalPlayerInitRsp :: "PlayerData \<Rightarrow> bytes option"
  marshalLoadPlayerDataRsp :: "PlayerData \<Rightarrow> bytes option"

definition or_nil :: "bytes option \<Rightarrow> bytes" where
  "or_nil r = (case r of None \<Rightarrow> [] | Some bs \<Rightarrow> bs)"

lemma or_nil_simps [simp]: "or_nil None = []" "or_nil (Some bs) = bs"
  by (simp_all add: or_nil_def)

end
