(* ===== verification/Registry.thy ===== *)
theory Registry
  imports Protocol
begin

text \<open>
  The shared message-id to handler registry (\<open>internal/handler/registry.go\<close>), used by the
  gate for its control messages and by the service for its modules, and the contract its
  users rely on: an id is registered at most once, the first registration wins, and a
  lookup returns exactly what was registered.
\<close>

record 'h registry =
  handlers :: "int \<rightharpoonup> 'h"

definition NewRegistry :: "'h registry" where
  "NewRegistry = \<lparr>handlers = Map.empty\<rparr>"

definition reg_dup_error :: "int \<Rightarrow> go_error" where
  "reg_dup_error msgID = LibError (''msgID '' @ dec_int msgID @ '' already registered'')"

definition Register :: "int \<Rightarrow> 'h \<Rightarrow> 'h registry \<Rightarrow> 'h registry \<times> go_error option" where
  "Register msgID h r =
     (case handlers r msgID of
        Some _ \<Rightarrow> (r, Some (reg_dup_error msgID))
      | None \<Rightarrow> (r\<lparr>handlers := (handlers r)(msgID \<mapsto> h)\<rparr>, None))"

definition RegGet :: "int \<Rightarrow> 'h registry \<Rightarrow> 'h option" where
  "RegGet msgID r = handlers r msgID"

locale handler_table =
  fixes reg :: "int \<Rightarrow> 'h \<Rightarrow> 't \<Rightarrow> 't \<times> go_error option"
    and get :: "int \<Rightarrow> 't \<Rightarrow> 'h option"
    and empty :: 't
  assumes get_empty: "get k empty = None"
    and reg_new: "get k t = None \<Longrightarrow> snd (reg k h t) = None"
    and get_reg_same: "get k t = None \<Longrightarrow> get k (fst (reg k h t)) = Some h"
    and get_reg_other: "j \<noteq> k \<Longrightarrow> get j (fst (reg k h t)) = get j t"
    and reg_dup: "get k t = Some h' \<Longrightarrow> fst (reg k h t) = t \<and> snd (reg k h t) \<noteq> None"
begin

text \<open>Registering a list stops at the first error, as the callers' \<open>return err\<close> does.\<close>

fun reg_all :: "(int \<times> 'h) list \<Rightarrow> 't \<Rightarrow> 't \<times> go_error option" where
  "reg_all [] t = (t, None)"
| "reg_all ((k, h) # khs) t =
     (case reg k h t of (t', Some e) \<Rightarrow> (t', Some e) | (t', None) \<Rightarrow> reg_all khs t')"

lemma get_reg_all_other: "k \<notin> fst ` set khs \<Longrightarrow> get k (fst (reg_all khs t)) = get k t"
proof (induction khs t rule: reg_all.induct)
  case (2 k' h khs t)
  obtain t' e where t': "reg k' h t = (t', e)" by (cases "reg k' h t")
  with 2 show ?case using get_reg_other [of k k' h t] by (cases e) auto
qed simp

lemma reg_keeps: "get k t = Some h' \<Longrightarrow> get k (fst (reg j h t)) = Some h'"
  by (cases "j = k") (auto simp: reg_dup get_reg_other)

lemma reg_all_keeps: "get k t = Some h' \<Longrightarrow> get k (fst (reg_all khs t)) = Some h'"
proof (induction khs t rule: reg_all.induct)
  case (2 k' h khs t)
  obtain t' e where t': "reg k' h t = (t', e)" by (cases "reg k' h t")
  with 2 show ?case using reg_keeps [of k t h' k' h] by (cases e) auto
qed simp

lemma reg_all_ok:
  "distinct (map fst khs) \<Longrightarrow> (\<forall>k \<in> fst ` set khs. get k t = None) \<Longrightarrow>
     snd (reg_all khs t) = None \<and> (\<forall>(k, h) \<in> set khs. get k (fst (reg_all khs t)) = Some h)"
proof (induction khs t rule: reg_all.induct)
  case (2 k h khs t)
  obtain t' e where t': "reg k h t = (t', e)" by (cases "reg k h t")
  have e: "e = None" using reg_new [of k t h] 2(3) t' by auto
  have same: "get k t' = Some h" using get_reg_same [of k t h] 2(3) t' by auto
  have "\<forall>j \<in> fst ` set khs. get j t' = None"
    using get_reg_other [of _ k h t] 2(2,3) t' by force
  with 2(1) [OF t' [symmetric] e] 2(2)
  have "snd (reg_all khs t') = None \<and> (\<forall>(j, i) \<in> set khs. get j (fst (reg_all khs t')) = Some i)"
    by auto
  with t' e reg_all_keeps [OF same, of khs] show ?case by auto
qed simp

text \<open>A duplicate id anywhere in the list makes the whole registration fail.\<close>

lemma reg_all_dup: "k \<in> fst ` set khs \<Longrightarrow> get k t \<noteq> None \<Longrightarrow> snd (reg_all khs t) \<noteq> None"
proof (induction khs t rule: reg_all.induct)
  case (2 k' h khs t)
  obtain t' e where t': "reg k' h t = (t', e)" by (cases "reg k' h t")
  show ?case
  proof (cases "k = k'")
    case True
    with 2(3) reg_dup [of k' t _ h] t' show ?thesis by auto
  next
    case False
    with 2(2) have "k \<in> fst ` set khs" by auto
    moreover have "get k t' \<noteq> None" using get_reg_other [OF False, of h t] 2(3) t' by auto
    ultimately show ?thesis using 2(1) [OF t' [symmetric]] t' by (cases e) auto
  qed
qed simp

end

interpretation hreg: handler_table Register RegGet NewRegistry
  by unfold_locales (auto simp: Register_def RegGet_def NewRegistry_def split: option.splits)

end
