(* ===== verification/Chan.thy ===== *)
theory Chan
  imports Prelude
begin

text \<open>
  Go's buffered channels as the code uses them: a sender that does not wait
  (\<open>select\<close> with a \<open>default\<close>), and a receiver that takes the oldest element. The locale
  states what the users of a channel rely on, and proves once that a channel neither
  loses, duplicates nor reorders what it accepted.
\<close>

record 'a chan =
  ch_cap :: nat
  ch_buf :: "'a list"

definition make_chan :: "nat \<Rightarrow> 'a chan" where
  "make_chan n = \<lparr>ch_cap = n, ch_buf = []\<rparr>"

definition try_send :: "'a \<Rightarrow> 'a chan \<Rightarrow> 'a chan option" where
  "try_send x ch =
     (if length (ch_buf ch) < ch_cap ch then Some (ch\<lparr>ch_buf := ch_buf ch @ [x]\<rparr>) else None)"

definition try_recv :: "'a chan \<Rightarrow> ('a \<times> 'a chan) option" where
  "try_recv ch = (case ch_buf ch of [] \<Rightarrow> None | x # xs \<Rightarrow> Some (x, ch\<lparr>ch_buf := xs\<rparr>))"

datatype 'a chan_op = OpSend 'a | OpRecv

locale bounded_fifo =
  fixes send :: "'a \<Rightarrow> 'q \<Rightarrow> 'q option"
    and recv :: "'q \<Rightarrow> ('a \<times> 'q) option"
    and items :: "'q \<Rightarrow> 'a list"
    and cap :: "'q \<Rightarrow> nat"
  assumes send_room: "length (items q) < cap q \<Longrightarrow>
      \<exists>q'. send x q = Some q' \<and> items q' = items q @ [x] \<and> cap q' = cap q"
    and send_full: "cap q \<le> length (items q) \<Longrightarrow> send x q = None"
    and recv_some: "items q = y # ys \<Longrightarrow>
      \<exists>q'. recv q = Some (y, q') \<and> items q' = ys \<and> cap q' = cap q"
    and recv_none: "items q = [] \<Longrightarrow> recv q = None"
begin

lemma send_SomeD: "send x q = Some q' \<Longrightarrow>
    items q' = items q @ [x] \<and> cap q' = cap q \<and> length (items q) < cap q"
  using send_room [of q x] send_full [of q x] by (cases "length (items q) < cap q") auto

lemma recv_SomeD: "recv q = Some (x, q') \<Longrightarrow> items q = x # items q' \<and> cap q' = cap q"
  using recv_some [of q] recv_none [of q] by (cases "items q") auto

lemma send_None_iff: "send x q = None \<longleftrightarrow> cap q \<le> length (items q)"
  using send_room [of q x] send_full [of q x] by (cases "length (items q) < cap q") auto

text \<open>A run of operations: what was accepted, what was received, and the queue left.\<close>

fun run :: "'a chan_op list \<Rightarrow> 'q \<Rightarrow> 'a list \<times> 'a list \<times> 'q" where
  "run [] q = ([], [], q)"
| "run (OpSend x # ops) q =
     (case send x q of
        None \<Rightarrow> run ops q
      | Some q' \<Rightarrow> (let (acc, out, r) = run ops q' in (x # acc, out, r)))"
| "run (OpRecv # ops) q =
     (case recv q of
        None \<Rightarrow> run ops q
      | Some (x, q') \<Rightarrow> (let (acc, out, r) = run ops q' in (acc, x # out, r)))"

theorem run_fifo_bounded:
  "run ops q = (acc, out, q') \<Longrightarrow>
     items q @ acc = out @ items q' \<and> cap q' = cap q \<and>
     (length (items q) \<le> cap q \<longrightarrow> length (items q') \<le> cap q')"
proof (induction ops q arbitrary: acc out rule: run.induct)
  case (2 x ops q)
  show ?case
  proof (cases "send x q")
    case None
    with 2 show ?thesis by auto
  next
    case (Some q1)
    obtain acc1 out1 r where r: "run ops q1 = (acc1, out1, r)" by (cases "run ops q1") auto
    with "2.prems" Some have *: "q' = r" "acc = x # acc1" "out = out1" by simp_all
    with "2.IH"(2) [OF Some, of acc1 out1] r have
      "items q1 @ acc1 = out1 @ items r \<and> cap r = cap q1 \<and>
       (length (items q1) \<le> cap q1 \<longrightarrow> length (items r) \<le> cap r)" by auto
    with send_SomeD [OF Some] * show ?thesis by (metis Suc_leI append.assoc append_Cons
      append_Nil length_append_singleton)
  qed
next
  case (3 ops q)
  show ?case
  proof (cases "recv q")
    case None
    with 3 show ?thesis by auto
  next
    case (Some xq)
    then obtain x q1 where xq: "recv q = Some (x, q1)" by (cases xq) auto
    obtain acc1 out1 r where r: "run ops q1 = (acc1, out1, r)" by (cases "run ops q1") auto
    with "3.prems" xq have *: "q' = r" "acc = acc1" "out = x # out1" by simp_all
    with "3.IH"(2) [OF xq refl, of acc1 out1] r have
      "items q1 @ acc1 = out1 @ items r \<and> cap r = cap q1 \<and>
       (length (items q1) \<le> cap q1 \<longrightarrow> length (items r) \<le> cap r)" by auto
    with recv_SomeD [OF xq] * show ?thesis by auto
  qed
qed simp

end

interpretation ch: bounded_fifo try_send try_recv ch_buf ch_cap
  by unfold_locales (auto simp: try_send_def try_recv_def)

lemma ch_buf_make_chan [simp]: "ch_buf (make_chan n) = []" "ch_cap (make_chan n) = n"
  by (simp_all add: make_chan_def)

end
