(* ===== verification/Link.thy ===== *)
theory Link
  imports Chan Protocol
begin

text \<open>
  What the gate's \<open>remoteClient\<close> and the service's \<open>GameRouter\<close> promise about \<open>Send\<close>: an
  accepted envelope is appended behind everything still queued, a refused one leaves no
  trace in the queue, and the writer goroutine may meanwhile have taken envelopes from the
  front only. From that contract the order of delivery follows once, for both.
\<close>

locale ordered_link =
  fixes transmit :: "'env \<Rightarrow> 'l \<Rightarrow> 'l \<times> go_error option"
    and pending :: "'l \<Rightarrow> 'env list"
  assumes transmit_ok: "transmit e l = (l', None) \<Longrightarrow> \<exists>k. pending l' = drop k (pending l) @ [e]"
    and transmit_err: "transmit e l = (l', Some x) \<Longrightarrow> \<exists>k. pending l' = drop k (pending l)"
begin

fun transmit_all :: "'env list \<Rightarrow> 'l \<Rightarrow> 'env list \<times> 'l" where
  "transmit_all [] l = ([], l)"
| "transmit_all (e # es) l =
     (case transmit e l of
        (l', None) \<Rightarrow> (let (acc, r) = transmit_all es l' in (e # acc, r))
      | (l', Some _) \<Rightarrow> transmit_all es l')"

lemma drop_drop_append: "\<exists>k'. drop j (drop k xs @ ys) = drop k' (xs @ ys)"
proof (cases "k \<le> length xs")
  case True
  then have "drop k xs @ ys = drop k (xs @ ys)" by simp
  then show ?thesis by (metis drop_drop)
next
  case False
  then have "drop k xs @ ys = drop (length xs) (xs @ ys)" by simp
  then show ?thesis by (metis drop_drop)
qed

text \<open>
  The accepted envelopes leave in the order they were handed in: the queue is always a
  suffix of what was there followed by what was accepted.
\<close>

theorem transmit_all_ordered:
  "transmit_all es l = (acc, l') \<Longrightarrow> \<exists>k. pending l' = drop k (pending l @ acc)"
proof (induction es arbitrary: l acc l')
  case Nil
  then show ?case by (auto intro: exI [of _ 0])
next
  case (Cons e es)
  obtain l1 x where t: "transmit e l = (l1, x)" by (cases "transmit e l")
  show ?case
  proof (cases x)
    case None
    obtain acc1 r where a: "transmit_all es l1 = (acc1, r)" by (cases "transmit_all es l1")
    with Cons.prems t None have acc: "acc = e # acc1" "l' = r" by auto
    obtain j where j: "pending r = drop j (pending l1 @ acc1)" using Cons.IH [OF a] by blast
    obtain k where "pending l1 = drop k (pending l) @ [e]"
      using transmit_ok t None by blast
    then have "pending l1 @ acc1 = drop k (pending l) @ acc" using acc by simp
    with j acc show ?thesis using drop_drop_append by metis
  next
    case (Some y)
    with Cons.prems t have "transmit_all es l1 = (acc, l')" by simp
    then obtain j where j: "pending l' = drop j (pending l1 @ acc)" using Cons.IH by blast
    obtain k where "pending l1 = drop k (pending l)" using transmit_err t Some by blast
    with j show ?thesis using drop_drop_append by metis
  qed
qed

theorem transmit_all_subseq: "transmit_all es l = (acc, l') \<Longrightarrow> set acc \<subseteq> set es"
proof (induction es arbitrary: l acc l')
  case (Cons e es)
  then show ?case by (fastforce split: prod.splits option.splits)
qed simp

end

end
