(* ===== verification/Remote.thy ===== *)
theory Remote
  imports Link
begin

text \<open>
  The gate's connection pool to the service (\<open>internal/gate/remote.go\<close>). A
  \<open>remoteClient\<close> owns a bounded send queue, a writer goroutine that takes envelopes from it,
  a goroutine that dials and reads with a growing backoff, and a keep-alive ticker. Each
  goroutine is modelled by its steps; \<open>Send\<close> retries a bounded number of times, and while
  it sleeps the writer may take envelopes out (how many, at each sleep, is the argument
  \<open>drain\<close>).
\<close>

record remoteClient =
  rc_name :: string
  rc_addr :: string
  rc_conn :: "nat option"
  rc_sendCh :: "Envelope chan"
  rc_sendRetryMax :: int
  rc_sendRetryBackoff :: duration
  rc_busyCount :: uint64
  rc_dropCount :: uint64
  rc_lastConnectedAt :: "time option"
  rc_backoff :: duration

record remoteClientPool =
  clients :: "remoteClient list"

definition newRemoteClient :: "string \<Rightarrow> string \<Rightarrow> int \<Rightarrow> duration \<Rightarrow> remoteClient" where
  "newRemoteClient name addr retryMax retryBackoff =
     \<lparr>rc_name = name, rc_addr = addr, rc_conn = None, rc_sendCh = make_chan 8192,
      rc_sendRetryMax = retryMax, rc_sendRetryBackoff = retryBackoff,
      rc_busyCount = 0, rc_dropCount = 0, rc_lastConnectedAt = None, rc_backoff = second\<rparr>"

definition newRemoteClientPool ::
    "string \<Rightarrow> string \<Rightarrow> int \<Rightarrow> int \<Rightarrow> duration \<Rightarrow> remoteClientPool" where
  "newRemoteClientPool name addr poolSize retryMax retryBackoff =
     (let n = (if poolSize < 1 then 1 else poolSize)
      in \<lparr>clients = replicate (nat n) (newRemoteClient name addr retryMax retryBackoff)\<rparr>)"

subsection \<open>The writer goroutine\<close>

text \<open>
  One iteration of \<open>writeLoop\<close>: the oldest envelope goes to the socket, or is dropped and
  counted while the remote is disconnected. A failed write is only logged.
\<close>

datatype write_outcome = Idle | Dropped Envelope | Written Envelope

definition rc_writeStep :: "remoteClient \<Rightarrow> remoteClient \<times> write_outcome" where
  "rc_writeStep c =
     (case try_recv (rc_sendCh c) of
        None \<Rightarrow> (c, Idle)
      | Some (env, q) \<Rightarrow>
          (let c = c\<lparr>rc_sendCh := q\<rparr>
           in (case rc_conn c of
                 None \<Rightarrow> (c\<lparr>rc_dropCount := rc_dropCount c + 1\<rparr>, Dropped env)
               | Some _ \<Rightarrow> (c, Written env))))"

fun rc_writeSteps :: "nat \<Rightarrow> remoteClient \<Rightarrow> remoteClient" where
  "rc_writeSteps 0 c = c"
| "rc_writeSteps (Suc n) c = rc_writeSteps n (fst (rc_writeStep c))"

lemma rc_writeStep_frame [simp, frame_simps]:
  "rc_sendRetryMax (fst (rc_writeStep c)) = rc_sendRetryMax c"
  "rc_conn (fst (rc_writeStep c)) = rc_conn c"
  "rc_busyCount (fst (rc_writeStep c)) = rc_busyCount c"
  "ch_cap (rc_sendCh (fst (rc_writeStep c))) = ch_cap (rc_sendCh c)"
  "ch_buf (rc_sendCh (fst (rc_writeStep c))) = drop 1 (ch_buf (rc_sendCh c))"
  by (auto simp: rc_writeStep_def try_recv_def Let_def split: option.splits list.splits)

lemma rc_writeSteps_frame [simp, frame_simps]:
  "rc_sendRetryMax (rc_writeSteps n c) = rc_sendRetryMax c"
  "rc_conn (rc_writeSteps n c) = rc_conn c"
  "rc_busyCount (rc_writeSteps n c) = rc_busyCount c"
  "ch_cap (rc_sendCh (rc_writeSteps n c)) = ch_cap (rc_sendCh c)"
  "ch_buf (rc_sendCh (rc_writeSteps n c)) = drop n (ch_buf (rc_sendCh c))"
  by (induction n arbitrary: c) simp_all

subsection \<open>Send\<close>

function rc_sendLoop ::
    "(int \<Rightarrow> nat) \<Rightarrow> int \<Rightarrow> Envelope \<Rightarrow> remoteClient \<Rightarrow> remoteClient \<times> go_error option" where
  "rc_sendLoop drain attempt env c =
     (if attempt \<le> rc_sendRetryMax c then
        (case try_send env (rc_sendCh c) of
           Some q \<Rightarrow> (c\<lparr>rc_sendCh := q\<rparr>, None)
         | None \<Rightarrow>
             (if attempt = rc_sendRetryMax c then
                (c\<lparr>rc_busyCount := rc_busyCount c + 1\<rparr>, Some InternalErrRemoteBusy)
              else rc_sendLoop drain (attempt + 1) env (rc_writeSteps (drain attempt) c)))
      else (c, Some InternalErrRemoteBusy))"
  by pat_completeness auto
termination
  by (relation "measure (\<lambda>(drain, attempt, env, c). nat (rc_sendRetryMax c + 1 - attempt))") auto

declare rc_sendLoop.simps [simp del]

definition rc_Send ::
    "(int \<Rightarrow> nat) \<Rightarrow> Envelope \<Rightarrow> remoteClient \<Rightarrow> remoteClient \<times> go_error option" where
  "rc_Send drain env c = rc_sendLoop drain 0 env c"

subsection \<open>Dialling, reading and keep-alive\<close>

text \<open>
  \<open>connectLoop\<close> as a machine: while disconnected it dials, and a failed dial sleeps for the
  current backoff and doubles it while it is below five seconds; a successful dial resets
  it; a read error drops the connection. \<open>dial_step\<close> also returns how long it slept.
\<close>

datatype dial_event = DialFailed | DialOk nat time | ReadError

fun dial_step :: "dial_event \<Rightarrow> remoteClient \<Rightarrow> remoteClient \<times> duration" where
  "dial_step DialFailed c =
     (if rc_conn c = None then
        (c\<lparr>rc_backoff := (if rc_backoff c < 5 * second then rc_backoff c * 2 else rc_backoff c)\<rparr>,
         rc_backoff c)
      else (c, 0))"
| "dial_step (DialOk k t) c =
     (if rc_conn c = None then
        (c\<lparr>rc_conn := Some k, rc_lastConnectedAt := Some t, rc_backoff := second\<rparr>, 0)
      else (c, 0))"
| "dial_step ReadError c = (c\<lparr>rc_conn := None\<rparr>, 0)"

definition rc_heartbeat :: "remoteClient \<Rightarrow> write_outcome" where
  "rc_heartbeat c =
     (case rc_conn c of
        None \<Rightarrow> Idle
      | Some _ \<Rightarrow> Written \<lparr>eMsgId = to_int32 MsgServicePing, eSessionId = 0, ePlayerId = 0,
                          ePayload = []\<rparr>)"

subsection \<open>The pool\<close>

definition pool_index :: "nat \<Rightarrow> int64 \<Rightarrow> nat" where
  "pool_index n sessionID =
     (let index = go_rem (sint sessionID) (int n)
      in nat (if index < 0 then - index else index))"

definition pool_Send ::
    "(int \<Rightarrow> nat) \<Rightarrow> int64 \<Rightarrow> Envelope \<Rightarrow> remoteClientPool
       \<Rightarrow> remoteClientPool \<times> go_error option" where
  "pool_Send drain sessionID env p =
     (if length (clients p) = 0 then (p, Some InternalErrRemoteBusy)
      else (let i = pool_index (length (clients p)) sessionID;
                (c, err) = rc_Send drain env (clients p ! i)
            in (p\<lparr>clients := (clients p)[i := c]\<rparr>, err)))"

subsection \<open>What Send does to the queue\<close>

lemma rc_sendLoop_ok:
  "rc_sendLoop drain a env c = (c', None) \<Longrightarrow>
     (\<exists>k. ch_buf (rc_sendCh c') = drop k (ch_buf (rc_sendCh c)) @ [env]) \<and>
     ch_cap (rc_sendCh c') = ch_cap (rc_sendCh c) \<and> rc_busyCount c' = rc_busyCount c"
proof (induction drain a env c rule: rc_sendLoop.induct)
  case (1 drain a env c)
  show ?case
  proof (cases "try_send env (rc_sendCh c)")
    case None
    with "1.prems" have more: "a \<le> rc_sendRetryMax c" "a \<noteq> rc_sendRetryMax c"
      and rec: "rc_sendLoop drain (a + 1) env (rc_writeSteps (drain a) c) = (c', None)"
      by (auto simp: rc_sendLoop.simps [of drain a env c] split: if_splits)
    from "1.IH" [OF more(1) None more(2) rec] show ?thesis
      by (auto simp: drop_drop intro: exI)
  next
    case (Some q)
    with "1.prems" have "c' = c\<lparr>rc_sendCh := q\<rparr>"
      by (auto simp: rc_sendLoop.simps [of drain a env c] split: if_splits)
    with ch.send_SomeD [OF Some] show ?thesis by (auto intro: exI [of _ 0])
  qed
qed

lemma rc_sendLoop_err:
  "rc_sendLoop drain a env c = (c', Some x) \<Longrightarrow>
     x = InternalErrRemoteBusy \<and>
     (\<exists>k. ch_buf (rc_sendCh c') = drop k (ch_buf (rc_sendCh c))) \<and>
     ch_cap (rc_sendCh c') = ch_cap (rc_sendCh c)"
proof (induction drain a env c rule: rc_sendLoop.induct)
  case (1 drain a env c)
  show ?case
  proof (cases "a < rc_sendRetryMax c \<and> try_send env (rc_sendCh c) = None")
    case True
    with "1.prems" have rec:
      "rc_sendLoop drain (a + 1) env (rc_writeSteps (drain a) c) = (c', Some x)"
      by (auto simp: rc_sendLoop.simps [of drain a env c])
    from True "1.IH" [OF _ _ _ rec] show ?thesis
      by (auto simp: drop_drop intro: exI)
  next
    case False
    with "1.prems" show ?thesis
      by (auto simp: rc_sendLoop.simps [of drain a env c] intro: exI [of _ 0]
          split: if_splits option.splits)
  qed
qed

interpretation rcl: ordered_link "rc_Send drain" "\<lambda>c. ch_buf (rc_sendCh c)" for drain
  by unfold_locales (auto simp: rc_Send_def dest: rc_sendLoop_ok rc_sendLoop_err)

text \<open>Room in the queue: the first attempt succeeds.\<close>

lemma rc_Send_room:
  "length (ch_buf (rc_sendCh c)) < ch_cap (rc_sendCh c) \<Longrightarrow> 0 \<le> rc_sendRetryMax c \<Longrightarrow>
     rc_Send drain env c =
       (c\<lparr>rc_sendCh := (rc_sendCh c)\<lparr>ch_buf := ch_buf (rc_sendCh c) @ [env]\<rparr>\<rparr>, None)"
  by (simp add: rc_Send_def rc_sendLoop.simps [of drain 0 env c] try_send_def)

lemma rc_writeSteps_zero: "rc_writeSteps 0 c = c"
  by simp

text \<open>A full queue nobody drains: after the last attempt the send is refused and counted.\<close>

lemma rc_sendLoop_stuck:
  "ch_cap (rc_sendCh c) \<le> length (ch_buf (rc_sendCh c)) \<Longrightarrow> a \<le> rc_sendRetryMax c \<Longrightarrow>
     rc_sendLoop (\<lambda>_. 0) a env c =
       (c\<lparr>rc_busyCount := rc_busyCount c + 1\<rparr>, Some InternalErrRemoteBusy)"
proof (induction "\<lambda>_::int. 0::nat" a env c rule: rc_sendLoop.induct)
  case (1 a env c)
  then have none: "try_send env (rc_sendCh c) = None" by (simp add: try_send_def)
  show ?case
  proof (cases "a = rc_sendRetryMax c")
    case True
    with none show ?thesis by (subst rc_sendLoop.simps) simp
  next
    case False
    with 1(1) [OF _ none False] 1(2,3) none show ?thesis
      by (simp add: rc_sendLoop.simps [of _ a env c])
  qed
qed

subsection \<open>The pool keeps the order of every session\<close>

lemma pool_index_less: "0 < n \<Longrightarrow> pool_index n sid < n"
  using abs_go_rem_less [of "int n" "sint sid"] by (auto simp: pool_index_def Let_def)

lemma pool_index_eq: "0 < n \<Longrightarrow> int (pool_index n sid) = \<bar>sint sid\<bar> mod int n"
  using abs_go_rem [of "int n" "sint sid"] by (auto simp: pool_index_def Let_def)

fun pool_SendAll ::
    "(int \<Rightarrow> nat) \<Rightarrow> (int64 \<times> Envelope) list \<Rightarrow> remoteClientPool
       \<Rightarrow> (int64 \<times> Envelope) list \<times> remoteClientPool" where
  "pool_SendAll drain [] p = ([], p)"
| "pool_SendAll drain ((sid, env) # es) p =
     (case pool_Send drain sid env p of
        (p', None) \<Rightarrow> (let (acc, r) = pool_SendAll drain es p' in ((sid, env) # acc, r))
      | (p', Some _) \<Rightarrow> pool_SendAll drain es p')"

definition pool_queue :: "remoteClientPool \<Rightarrow> nat \<Rightarrow> Envelope list" where
  "pool_queue p i = ch_buf (rc_sendCh (clients p ! i))"

definition for_client :: "nat \<Rightarrow> nat \<Rightarrow> (int64 \<times> Envelope) list \<Rightarrow> Envelope list" where
  "for_client n i es = map snd (filter (\<lambda>(sid, _). pool_index n sid = i) es)"

lemma for_client_simps [simp]:
  "for_client n i [] = []"
  "for_client n i ((sid, env) # es) =
     (if pool_index n sid = i then env # for_client n i es else for_client n i es)"
  by (simp_all add: for_client_def)

lemma pool_Send_eq:
  assumes "clients p \<noteq> []" and "i = pool_index (length (clients p)) sid"
  shows "pool_Send drain sid env p =
    (p\<lparr>clients := (clients p)[i := fst (rc_Send drain env (clients p ! i))]\<rparr>,
     snd (rc_Send drain env (clients p ! i)))"
  using assms by (simp add: pool_Send_def Let_def split_def)

lemma length_pool_Send: "length (clients (fst (pool_Send drain sid env p))) = length (clients p)"
  by (cases "clients p = []") (simp_all add: pool_Send_eq, simp add: pool_Send_def)

lemma pool_Send_at:
  assumes "pool_Send drain sid env p = (p', x)" and "i < length (clients p)"
  shows "if pool_index (length (clients p)) sid = i
         then rc_Send drain env (clients p ! i) = (clients p' ! i, x)
         else clients p' ! i = clients p ! i"
proof -
  have ne: "clients p \<noteq> []" using assms(2) by auto
  from assms(1) show ?thesis
    unfolding pool_Send_eq [OF ne refl] using assms(2) by (auto simp: prod_eq_iff)
qed

lemma pool_SendAll_at:
  "pool_SendAll drain es p = (acc, p') \<Longrightarrow> n = length (clients p) \<Longrightarrow> i < n \<Longrightarrow>
     rcl.transmit_all drain (for_client n i es) (clients p ! i) =
       (for_client n i acc, clients p' ! i) \<and> length (clients p') = n"
proof (induction drain es p arbitrary: acc rule: pool_SendAll.induct)
  case (2 drain sid env es p)
  obtain p1 x where s: "pool_Send drain sid env p = (p1, x)" by (cases "pool_Send drain sid env p")
  have len: "length (clients p1) = n" using length_pool_Send [of drain sid env p] s 2(4) by simp
  have at: "if pool_index n sid = i
         then rc_Send drain env (clients p ! i) = (clients p1 ! i, x)
         else clients p1 ! i = clients p ! i"
    using pool_Send_at [OF s] 2(4,5) by simp
  show ?case
  proof (cases x)
    case None
    obtain acc1 r where a: "pool_SendAll drain es p1 = (acc1, r)"
      by (cases "pool_SendAll drain es p1")
    with 2(3) s None have "acc = (sid, env) # acc1" "p' = r" by auto
    with 2(1) [OF s [symmetric] None, of acc1] a len 2(5) at None show ?thesis by auto
  next
    case (Some y)
    with 2(3) s have "pool_SendAll drain es p1 = (acc, p')" by simp
    with 2(2) [OF s [symmetric] Some, of acc] len 2(5) at Some show ?thesis by auto
  qed
qed simp

subsection \<open>Backoff\<close>

fun dial_run :: "dial_event list \<Rightarrow> remoteClient \<Rightarrow> remoteClient" where
  "dial_run [] c = c"
| "dial_run (e # es) c = dial_run es (fst (dial_step e c))"

definition backoff_ok :: "remoteClient \<Rightarrow> bool" where
  "backoff_ok c \<longleftrightarrow> rc_backoff c \<in> {second, 2 * second, 4 * second, 8 * second}"

lemma dial_step_backoff_ok: "backoff_ok c \<Longrightarrow> backoff_ok (fst (dial_step e c))"
  by (cases "(e, c)" rule: dial_step.cases) (auto simp: backoff_ok_def second_def)

lemma dial_run_backoff_ok: "backoff_ok c \<Longrightarrow> backoff_ok (dial_run es c)"
  by (induction es arbitrary: c) (auto simp: dial_step_backoff_ok)

end
