(* ===== verification/Transport.thy ===== *)
theory Transport
  imports Protocol
begin

unbundle bit_operations_syntax

text \<open>
  The transport layer (\<open>internal/transport\<close>): envelopes on a byte stream, each behind a
  four-byte big-endian length, and envelopes as WebSocket messages. The network is the
  byte stream still to be read with the error that ends it, and the list of outcomes the
  coming writes will have.
\<close>

record ConnOptions =
  ReadTimeout :: duration
  WriteTimeout :: duration
  KeepAlive :: duration

subsection \<open>Big-endian 32-bit integers\<close>

definition put_uint32 :: "uint32 \<Rightarrow> bytes" where
  "put_uint32 v = [ucast (drop_bit 24 v), ucast (drop_bit 16 v), ucast (drop_bit 8 v), ucast v]"

fun get_uint32 :: "bytes \<Rightarrow> uint32" where
  "get_uint32 [a, b, c, d] =
     ucast d OR push_bit 8 (ucast c) OR push_bit 16 (ucast b) OR push_bit 24 (ucast a)"
| "get_uint32 _ = 0"

lemma get_put_uint32 [simp]: "get_uint32 (put_uint32 v) = v"
proof (rule bit_word_eqI)
  fix n assume "n < LENGTH(32)"
  then have "n < 32" by simp
  then consider "n < 8" | "8 \<le> n \<and> n < 16" | "16 \<le> n \<and> n < 24" | "24 \<le> n \<and> n < 32"
    by linarith
  then show "bit (get_uint32 (put_uint32 v)) n \<longleftrightarrow> bit v n"
    by cases (auto simp: put_uint32_def bit_simps)
qed

lemma length_put_uint32 [simp]: "length (put_uint32 v) = 4"
  by (simp add: put_uint32_def)

subsection \<open>Reading and writing byte streams\<close>

text \<open>
  \<open>io.ReadFull\<close>: all the bytes asked for, or the error. The stream ends with \<open>st_end\<close>; when
  that is \<open>io.EOF\<close> and a part was already read, the error is \<open>io.ErrUnexpectedEOF\<close>.
\<close>

definition EOF :: go_error where
  "EOF = LibError ''EOF''"

definition UnexpectedEOF :: go_error where
  "UnexpectedEOF = LibError ''unexpected EOF''"

record instream =
  st_bytes :: bytes
  st_end :: go_error

definition ReadFull :: "nat \<Rightarrow> instream \<Rightarrow> (go_error + bytes) \<times> instream" where
  "ReadFull n s =
     (if n \<le> length (st_bytes s) then
        (Inr (take n (st_bytes s)), s\<lparr>st_bytes := drop n (st_bytes s)\<rparr>)
      else
        (Inl (if st_end s = EOF \<and> st_bytes s \<noteq> [] then UnexpectedEOF else st_end s),
         s\<lparr>st_bytes := []\<rparr>))"

text \<open>
  A writer: what has gone out, and for each coming \<open>Write\<close> either success or the number of
  bytes it still writes before it fails. An exhausted script means success.
\<close>

record outstream =
  ws_out :: bytes
  ws_script :: "(nat \<times> go_error) option list"

definition stream_Write :: "bytes \<Rightarrow> outstream \<Rightarrow> outstream \<times> go_error option" where
  "stream_Write bs w =
     (case ws_script w of
        Some (n, e) # rest \<Rightarrow> (w\<lparr>ws_out := ws_out w @ take n bs, ws_script := rest\<rparr>, Some e)
      | None # rest \<Rightarrow> (w\<lparr>ws_out := ws_out w @ bs, ws_script := rest\<rparr>, None)
      | [] \<Rightarrow> (w\<lparr>ws_out := ws_out w @ bs\<rparr>, None))"

subsection \<open>Framing\<close>

definition defaultMaxEnvelopeSize :: uint32 where
  "defaultMaxEnvelopeSize = 4 * 1024 * 1024"

text \<open>The package variable \<open>maxEnvelopeSize\<close> is the first argument of the readers.\<close>

definition SetMaxEnvelopeSize :: "uint32 \<Rightarrow> uint32" where
  "SetMaxEnvelopeSize sz = (if sz = 0 then defaultMaxEnvelopeSize else sz)"

definition too_large :: "uint32 \<Rightarrow> uint32 \<Rightarrow> go_error" where
  "too_large sz maxSize = LibError (''envelope too large: '' @ dec_int (uint sz) @ '' > '' @
     dec_int (uint maxSize))"

definition proto_error :: go_error where
  "proto_error = LibError ''proto''"

definition readEnvelope ::
    "pb \<Rightarrow> uint32 \<Rightarrow> instream \<Rightarrow> (go_error + Envelope) \<times> instream" where
  "readEnvelope pb maxSize reader =
     (case ReadFull 4 reader of
        (Inl e, reader) \<Rightarrow> (Inl e, reader)
      | (Inr sizeBuf, reader) \<Rightarrow>
          (let sz = get_uint32 sizeBuf
           in if maxSize > 0 \<and> sz > maxSize then (Inl (too_large sz maxSize), reader)
              else (case ReadFull (unat sz) reader of
                      (Inl e, reader) \<Rightarrow> (Inl e, reader)
                    | (Inr data, reader) \<Rightarrow>
                        (case unmarshalEnvelope pb data of
                           None \<Rightarrow> (Inl proto_error, reader)
                         | Some env \<Rightarrow> (Inr env, reader)))))"

definition writeEnvelope ::
    "pb \<Rightarrow> Envelope \<Rightarrow> outstream \<Rightarrow> outstream \<times> go_error option" where
  "writeEnvelope pb env w =
     (case marshalEnvelope pb env of
        None \<Rightarrow> (w, Some proto_error)
      | Some data \<Rightarrow>
          (case stream_Write (put_uint32 (word_of_nat (length data))) w of
             (w, Some e) \<Rightarrow> (w, Some e)
           | (w, None) \<Rightarrow> stream_Write data w))"

text \<open>A frame is read back whole, and the rest of the stream is left for the next read.\<close>

definition frame :: "bytes \<Rightarrow> bytes" where
  "frame data = put_uint32 (word_of_nat (length data)) @ data"

lemma readEnvelope_frame:
  assumes "length data < 2 ^ 32" and "maxSize = 0 \<or> length data \<le> unat maxSize"
  shows "readEnvelope pb maxSize \<lparr>st_bytes = frame data @ rest, st_end = e\<rparr> =
     (case unmarshalEnvelope pb data of None \<Rightarrow> Inl proto_error | Some env \<Rightarrow> Inr env,
      \<lparr>st_bytes = rest, st_end = e\<rparr>)"
proof -
  let ?n = "word_of_nat (length data) :: uint32"
  have n: "unat ?n = length data"
    using assms(1) by (simp add: unat_of_nat take_bit_nat_eq_self)
  have ok: "\<not> (maxSize > 0 \<and> ?n > maxSize)"
    using assms(2) n by (auto simp: word_less_nat_alt word_le_nat_alt)
  have r4: "ReadFull 4 \<lparr>st_bytes = frame data @ rest, st_end = e\<rparr> =
      (Inr (put_uint32 ?n), \<lparr>st_bytes = data @ rest, st_end = e\<rparr>)"
    by (simp add: ReadFull_def frame_def)
  have rn: "ReadFull (length data) \<lparr>st_bytes = data @ rest, st_end = e\<rparr> =
      (Inr data, \<lparr>st_bytes = rest, st_end = e\<rparr>)"
    by (simp add: ReadFull_def)
  show ?thesis
    using ok by (auto simp: readEnvelope_def r4 rn n Let_def split: option.splits)
qed

lemma readEnvelope_too_large:
  assumes "length data < 2 ^ 32" and "0 < maxSize" and "unat maxSize < length data"
  shows "readEnvelope pb maxSize \<lparr>st_bytes = frame data @ rest, st_end = e\<rparr> =
     (Inl (too_large (word_of_nat (length data)) maxSize), \<lparr>st_bytes = data @ rest, st_end = e\<rparr>)"
proof -
  let ?n = "word_of_nat (length data) :: uint32"
  have n: "unat ?n = length data"
    using assms(1) by (simp add: unat_of_nat take_bit_nat_eq_self)
  have r4: "ReadFull 4 \<lparr>st_bytes = frame data @ rest, st_end = e\<rparr> =
      (Inr (put_uint32 ?n), \<lparr>st_bytes = data @ rest, st_end = e\<rparr>)"
    by (simp add: ReadFull_def frame_def)
  show ?thesis
    using assms(2,3) n by (simp add: readEnvelope_def r4 Let_def word_less_nat_alt)
qed

lemma writeEnvelope_frame:
  assumes "marshalEnvelope pb env = Some data" and "ws_script w = []"
  shows "writeEnvelope pb env w = (w\<lparr>ws_out := ws_out w @ frame data\<rparr>, None)"
  using assms by (simp add: writeEnvelope_def stream_Write_def frame_def)

end
