(* ===== verification/Session.thy ===== *)
theory Session
  imports Registry Remote Transport Sha256
begin

text \<open>
  The gate's data (\<open>gate.go\<close>, \<open>session.go\<close>, \<open>conn.go\<close>) and its session index
  (\<open>session_manager.go\<close>). Sessions and connections are shared mutable objects behind
  pointers: the gate holds two stores, from addresses to objects, and every other
  component refers to an object by its address. An address is never reused and the
  language guarantees it is valid, so the stores are total.
\<close>

type_synonym sref = nat
type_synonym cref = nat

datatype ConnType = ConnTCP | ConnWS

datatype SessionState =
  SessionInit | SessionOnline | SessionAuthing | SessionAuthenticated | SessionOffline | SessionClosed

record conn =
  c_connType :: ConnType
  c_sessionID :: int64
  c_traceID :: string
  c_sendCh :: "Envelope chan"
  c_closed :: bool
  c_writing :: bool
  c_id :: int64
  c_connectedAt :: time
  c_busyCount :: uint32
  c_lastSeen :: int

record session =
  s_ID :: int64
  s_PlayerID :: int64
  s_Token :: string
  s_State :: SessionState
  s_Conn :: "cref option"
  s_LastSeen :: time
  s_AuthStart :: "time option"
  s_LoginWindowStart :: "time option"
  s_LoginAttempts :: int
  s_UnknownMsgCount :: int

record SessionManager =
  bySession :: "int64 \<rightharpoonup> sref"
  byPlayer :: "int64 \<rightharpoonup> sref"

text \<open>The handlers the gate registers for its own control messages.\<close>

datatype GateHandler = OnResumeHandler | OnHeartbeatHandler

record gate =
  g_sess :: "sref \<Rightarrow> session"
  g_sessNext :: nat
  g_conns :: "cref \<Rightarrow> conn"
  g_connNext :: nat
  sessions :: SessionManager
  servicePool :: "remoteClientPool option"
  connOptions :: ConnOptions
  heartbeatInterval :: duration
  heartbeatTimeout :: duration
  gcInterval :: duration
  nextID :: int64
  loginTimeout :: duration
  loginRateLimitCount :: int
  loginRateLimitWindow :: duration
  unknownMsgKickCount :: int
  gateName :: string
  nextTrace :: uint64
  gateHandlers :: "GateHandler registry"
  heartbeatTimeoutCount :: uint64
  loginTimeoutCount :: uint64
  loginRateLimitCounted :: uint64
  unknownMsgCount :: uint64
  connBusyCount :: uint64

text \<open>
  What a handler reads from outside while it runs: the clock, how many envelopes the writer
  of a full service queue takes out during each retry sleep, the outcome of
  \<open>rand.Read\<close> for a token nonce (\<open>None\<close> when it fails), and the protobuf codec.
\<close>

record genv =
  now :: time
  drain :: "int \<Rightarrow> nat"
  nonce :: "bytes option"
  codec :: pb

subsection \<open>Writing through a pointer\<close>

definition upd_sess :: "sref \<Rightarrow> (session \<Rightarrow> session) \<Rightarrow> gate \<Rightarrow> gate" where
  "upd_sess r f g = g\<lparr>g_sess := (g_sess g)(r := f (g_sess g r))\<rparr>"

definition upd_conn :: "cref \<Rightarrow> (conn \<Rightarrow> conn) \<Rightarrow> gate \<Rightarrow> gate" where
  "upd_conn c f g = g\<lparr>g_conns := (g_conns g)(c := f (g_conns g c))\<rparr>"

subsection \<open>The session manager\<close>

text \<open>Its operations work on the index and on the store of sessions it points into.\<close>

type_synonym sstore = "sref \<Rightarrow> session"

definition NewSessionManager :: SessionManager where
  "NewSessionManager = \<lparr>bySession = Map.empty, byPlayer = Map.empty\<rparr>"

definition sm_Add :: "sstore \<Rightarrow> sref \<Rightarrow> SessionManager \<Rightarrow> SessionManager" where
  "sm_Add h r sm = sm\<lparr>bySession := (bySession sm)(s_ID (h r) \<mapsto> r)\<rparr>"

definition sm_Get :: "int64 \<Rightarrow> SessionManager \<Rightarrow> sref option" where
  "sm_Get sessionID sm = bySession sm sessionID"

definition sm_Remove :: "sstore \<Rightarrow> int64 \<Rightarrow> SessionManager \<Rightarrow> SessionManager" where
  "sm_Remove h sessionID sm =
     (case bySession sm sessionID of
        None \<Rightarrow> sm
      | Some s \<Rightarrow>
          (let p = s_PlayerID (h s);
               sm = (if p \<noteq> 0 \<and> byPlayer sm p = Some s
                     then sm\<lparr>byPlayer := (byPlayer sm)(p := None)\<rparr> else sm)
           in sm\<lparr>bySession := (bySession sm)(sessionID := None)\<rparr>))"

text \<open>
  Go visits a map in an order it does not define: \<open>snapshot\<close> and \<open>GC\<close> take that order as
  an enumeration of the keys. Keys of the enumeration that the map does not hold are skipped.
\<close>

definition sm_snapshot :: "int64 list \<Rightarrow> SessionManager \<Rightarrow> sref list" where
  "sm_snapshot ord sm = List.map_filter (bySession sm) ord"

definition enumerates :: "int64 list \<Rightarrow> SessionManager \<Rightarrow> bool" where
  "enumerates ord sm \<longleftrightarrow> distinct ord \<and> set ord = dom (bySession sm)"

definition gc_expired :: "time \<Rightarrow> duration \<Rightarrow> session \<Rightarrow> bool" where
  "gc_expired t timeout s \<longleftrightarrow> s_State s = SessionOffline \<and> time_sub t (s_LastSeen s) > timeout"

definition sm_GC_one ::
    "time \<Rightarrow> duration \<Rightarrow> int64 \<Rightarrow> sstore \<times> SessionManager \<times> sref list
       \<Rightarrow> sstore \<times> SessionManager \<times> sref list" where
  "sm_GC_one t timeout sid = (\<lambda>(h, sm, removed).
     (case bySession sm sid of
        None \<Rightarrow> (h, sm, removed)
      | Some s \<Rightarrow>
          (if gc_expired t timeout (h s) then
             (let h = h(s := (h s)\<lparr>s_State := SessionClosed\<rparr>);
                  sm = (if s_PlayerID (h s) \<noteq> 0
                        then sm\<lparr>byPlayer := (byPlayer sm)(s_PlayerID (h s) := None)\<rparr> else sm)
              in (h, sm\<lparr>bySession := (bySession sm)(sid := None)\<rparr>, removed @ [s]))
           else (h, sm, removed))))"

definition sm_GC ::
    "time \<Rightarrow> duration \<Rightarrow> int64 list \<Rightarrow> sstore \<Rightarrow> SessionManager
       \<Rightarrow> sstore \<times> SessionManager \<times> sref list" where
  "sm_GC t timeout ord h sm = fold (sm_GC_one t timeout) ord (h, sm, [])"

definition sm_BindPlayer ::
    "sref \<Rightarrow> int64 \<Rightarrow> sstore \<Rightarrow> SessionManager \<Rightarrow> sref option \<times> sstore \<times> SessionManager" where
  "sm_BindPlayer s playerID h sm =
     (let old = byPlayer sm playerID
      in (old, h(s := (h s)\<lparr>s_PlayerID := playerID\<rparr>),
          sm\<lparr>byPlayer := (byPlayer sm)(playerID \<mapsto> s)\<rparr>))"

subsection \<open>The index is consistent\<close>

text \<open>Every indexed session is filed under its own id.\<close>

definition index_ok :: "sstore \<Rightarrow> SessionManager \<Rightarrow> bool" where
  "index_ok h sm \<longleftrightarrow> (\<forall>sid r. bySession sm sid = Some r \<longrightarrow> s_ID (h r) = sid)"

lemma index_okD: "index_ok h sm \<Longrightarrow> bySession sm sid = Some r \<Longrightarrow> s_ID (h r) = sid"
  by (auto simp: index_ok_def)

lemma index_ok_inj:
  "index_ok h sm \<Longrightarrow> bySession sm a = Some r \<Longrightarrow> bySession sm b = Some r \<Longrightarrow> a = b"
  by (auto simp: index_ok_def)

lemma index_ok_Add: "index_ok h sm \<Longrightarrow> index_ok h (sm_Add h r sm)"
  by (auto simp: index_ok_def sm_Add_def)

lemma index_ok_Remove: "index_ok h sm \<Longrightarrow> index_ok h (sm_Remove h sid sm)"
  by (auto simp: index_ok_def sm_Remove_def Let_def split: option.splits if_splits)

lemma sm_Get_Add: "sm_Get sid (sm_Add h r sm) = (if sid = s_ID (h r) then Some r else sm_Get sid sm)"
  by (simp add: sm_Get_def sm_Add_def)

lemma sm_Get_Remove: "sm_Get sid (sm_Remove h sid' sm) = (if sid = sid' then None else sm_Get sid sm)"
  by (auto simp: sm_Get_def sm_Remove_def Let_def split: option.splits)

subsection \<open>Garbage collection does not depend on the order of the map\<close>

definition gc_dead :: "time \<Rightarrow> duration \<Rightarrow> int64 set \<Rightarrow> sstore \<Rightarrow> SessionManager \<Rightarrow> sref set" where
  "gc_dead t timeout ids h sm =
     {r. \<exists>sid \<in> ids. bySession sm sid = Some r \<and> gc_expired t timeout (h r)}"

definition gc_store :: "sref set \<Rightarrow> sstore \<Rightarrow> sstore" where
  "gc_store D h = (\<lambda>r. if r \<in> D then (h r)\<lparr>s_State := SessionClosed\<rparr> else h r)"

definition gc_index :: "sref set \<Rightarrow> sstore \<Rightarrow> SessionManager \<Rightarrow> SessionManager" where
  "gc_index D h sm =
     sm\<lparr>bySession := (\<lambda>sid. case bySession sm sid of
                               Some r \<Rightarrow> (if r \<in> D then None else Some r) | None \<Rightarrow> None),
        byPlayer := (\<lambda>p. if p \<noteq> 0 \<and> (\<exists>r \<in> D. s_PlayerID (h r) = p) then None else byPlayer sm p)\<rparr>"

lemma gc_store_frame [simp]: "s_PlayerID (gc_store D h r) = s_PlayerID (h r)"
  by (simp add: gc_store_def)

lemma sm_GC_one_step:
  fixes t timeout
  assumes ok: "index_ok h sm" and sid: "sid \<notin> ids"
  defines "D \<equiv> gc_dead t timeout ids h sm" and "D' \<equiv> gc_dead t timeout (insert sid ids) h sm"
  shows "\<exists>rs'. sm_GC_one t timeout sid (gc_store D h, gc_index D h sm, rs) =
      (gc_store D' h, gc_index D' h sm, rs @ rs') \<and> distinct rs' \<and> set rs' = D' - D"
proof (cases "bySession sm sid")
  case None
  then have "D' = D" by (auto simp: D_def D'_def gc_dead_def)
  with None show ?thesis by (auto simp: sm_GC_one_def gc_index_def)
next
  case (Some r)
  have r: "r \<notin> D" using ok sid Some by (auto simp: D_def gc_dead_def dest: index_ok_inj)
  show ?thesis
  proof (cases "gc_expired t timeout (h r)")
    case False
    with Some have "D' = D" by (auto simp: D_def D'_def gc_dead_def)
    with r Some False show ?thesis by (auto simp: sm_GC_one_def gc_index_def gc_store_def)
  next
    case True
    with Some have D': "D' = insert r D" by (auto simp: D_def D'_def gc_dead_def)
    have inj: "bySession sm a = Some r \<Longrightarrow> a = sid" for a using index_ok_inj [OF ok _ Some] .
    have h': "(gc_store D h)(r := (gc_store D h r)\<lparr>s_State := SessionClosed\<rparr>) = gc_store D' h"
      using r by (auto simp: gc_store_def D')
    let ?i = "gc_index D h sm" and ?p = "s_PlayerID (h r)"
    have bs: "(bySession ?i)(sid := None) = bySession (gc_index D' h sm)"
    proof
      fix a
      show "((bySession ?i)(sid := None)) a = bySession (gc_index D' h sm) a"
        using Some inj [of a] by (cases "bySession sm a") (auto simp: gc_index_def D')
    qed
    have bp: "(if ?p \<noteq> 0 then (byPlayer ?i)(?p := None) else byPlayer ?i) =
        byPlayer (gc_index D' h sm)"
      by (rule ext) (simp add: gc_index_def D')
    have at: "bySession ?i sid = Some r" "gc_store D h r = h r"
      using Some r by (simp_all add: gc_index_def gc_store_def)
    have "sm_GC_one t timeout sid (gc_store D h, ?i, rs) =
        (gc_store D' h, (if ?p \<noteq> 0 then ?i\<lparr>byPlayer := (byPlayer ?i)(?p := None)\<rparr> else ?i)
           \<lparr>bySession := (bySession ?i)(sid := None)\<rparr>, rs @ [r])"
      using at True h' by (simp add: sm_GC_one_def Let_def)
    also have "(if ?p \<noteq> 0 then ?i\<lparr>byPlayer := (byPlayer ?i)(?p := None)\<rparr> else ?i)
           \<lparr>bySession := (bySession ?i)(sid := None)\<rparr> = gc_index D' h sm"
      by (rule SessionManager.equality) (use bs bp in \<open>auto split: if_splits simp: gc_index_def\<close>)
    finally show ?thesis using r by (intro exI [of _ "[r]"]) (auto simp: D')
  qed
qed

lemma sm_GC_fold:
  assumes ok: "index_ok h sm"
  shows "distinct ord \<Longrightarrow> set ord \<inter> ids = {} \<Longrightarrow> 
     \<exists>rs'. fold (sm_GC_one t timeout) ord
        (gc_store (gc_dead t timeout ids h sm) h, gc_index (gc_dead t timeout ids h sm) h sm, rs) =
      (gc_store (gc_dead t timeout (ids \<union> set ord) h sm) h,
       gc_index (gc_dead t timeout (ids \<union> set ord) h sm) h sm, rs @ rs') \<and>
      distinct rs' \<and> set rs' = gc_dead t timeout (ids \<union> set ord) h sm - gc_dead t timeout ids h sm"
proof (induction ord arbitrary: ids rs)
  case Nil
  then show ?case by simp
next
  case (Cons sid ord)
  then have "sid \<notin> ids" by auto
  from sm_GC_one_step [OF ok this, of t timeout rs] obtain rs1 where
    one: "sm_GC_one t timeout sid (gc_store (gc_dead t timeout ids h sm) h,
          gc_index (gc_dead t timeout ids h sm) h sm, rs) =
      (gc_store (gc_dead t timeout (insert sid ids) h sm) h,
       gc_index (gc_dead t timeout (insert sid ids) h sm) h sm, rs @ rs1)"
    and rs1: "distinct rs1"
      "set rs1 = gc_dead t timeout (insert sid ids) h sm - gc_dead t timeout ids h sm"
    by blast
  from Cons.IH [of "insert sid ids" "rs @ rs1"] Cons.prems obtain rs2 where
    two: "fold (sm_GC_one t timeout) ord
        (gc_store (gc_dead t timeout (insert sid ids) h sm) h,
         gc_index (gc_dead t timeout (insert sid ids) h sm) h sm, rs @ rs1) =
      (gc_store (gc_dead t timeout (insert sid ids \<union> set ord) h sm) h,
       gc_index (gc_dead t timeout (insert sid ids \<union> set ord) h sm) h sm, (rs @ rs1) @ rs2)"
    and rs2: "distinct rs2" "set rs2 = gc_dead t timeout (insert sid ids \<union> set ord) h sm -
       gc_dead t timeout (insert sid ids) h sm"
    by auto
  have "gc_dead t timeout ids h sm \<subseteq> gc_dead t timeout (insert sid ids) h sm"
    "gc_dead t timeout (insert sid ids) h sm \<subseteq> gc_dead t timeout (insert sid ids \<union> set ord) h sm"
    by (auto simp: gc_dead_def)
  with one two rs1 rs2 show ?case
    by (intro exI [of _ "rs1 @ rs2"]) (auto simp: Un_insert_left)
qed

lemma gc_dead_empty: "gc_dead t timeout {} h sm = {}"
  by (simp add: gc_dead_def)

lemma gc_store_empty [simp]: "gc_store {} h = h"
  by (simp add: gc_store_def)

lemma gc_index_empty [simp]: "gc_index {} h sm = sm"
  by (simp add: gc_index_def option.case_eq_if fun_eq_iff)

text \<open>
  The collector in closed form: exactly the sessions that are offline for longer than the
  timeout are closed and unfiled, with the player entry of each, whatever the order.
\<close>

lemma sm_GC_closed_form:
  fixes t timeout
  assumes ok: "index_ok h sm" and ord: "enumerates ord sm"
  defines "D \<equiv> {r. \<exists>sid. bySession sm sid = Some r \<and> gc_expired t timeout (h r)}"
  shows "\<exists>rs. sm_GC t timeout ord h sm = (gc_store D h, gc_index D h sm, rs) \<and>
           distinct rs \<and> set rs = D"
proof -
  have D: "gc_dead t timeout (set ord) h sm = D"
    using ord by (auto simp: gc_dead_def D_def enumerates_def)
  from sm_GC_fold [OF ok, of ord "{}" t timeout "[]"] ord show ?thesis
    by (auto simp: sm_GC_def gc_dead_empty D enumerates_def)
qed

end
