(* ===== verification/Auth.thy ===== *)
theory Auth
  imports Session
begin

text \<open>
  Resume tokens (\<open>gate/auth.go\<close>): a random nonce and an HMAC over the session id and the
  nonce, both in hexadecimal, joined by a dot. The token is also stored in the session, and
  a resume request must present exactly the stored one.
\<close>

definition secret :: string where
  "secret = ''gate-secret''"

definition token_payload :: "int64 \<Rightarrow> string \<Rightarrow> string" where
  "token_payload sessionID nonceHex = dec_int (sint sessionID) @ '':'' @ nonceHex"

definition signTokenPayload :: "int64 \<Rightarrow> string \<Rightarrow> string" where
  "signTokenPayload sessionID nonceHex =
     hex_encode (hmac_sha256 (bytes_of_string secret)
                             (bytes_of_string (token_payload sessionID nonceHex)))"

definition signResumeToken :: "bytes option \<Rightarrow> int64 \<Rightarrow> string" where
  "signResumeToken rnd sessionID =
     (case rnd of
        None \<Rightarrow> ''session:'' @ dec_int (sint sessionID)
      | Some n \<Rightarrow>
          (let nonceHex = hex_encode n;
               signature = signTokenPayload sessionID nonceHex
           in nonceHex @ ''.'' @ signature))"

definition verifyToken :: "session \<Rightarrow> string \<Rightarrow> bool" where
  "verifyToken s token =
     (case split_on (CHR ''.'') token of
        [nonceHex, signature] \<Rightarrow>
          (let expected = signTokenPayload (s_ID s) nonceHex
           in if signature \<noteq> expected then False else token = s_Token s)
      | _ \<Rightarrow> False)"

text \<open>
  The signed text names the session and the nonce without ambiguity: different sessions or
  nonces are never signed as the same payload.
\<close>

lemma token_payload_inj: "token_payload a n = token_payload b m \<longleftrightarrow> a = b \<and> n = m"
proof
  assume eq: "token_payload a n = token_payload b m"
  have nc: "CHR '':'' \<notin> set (dec_int (sint x))" for x :: int64 by (rule dec_int_no_colon)
  have "split_on (CHR '':'') (token_payload x k) = dec_int (sint x) # split_on (CHR '':'') k" for x k
    using split_on_append_sep [OF nc] by (simp add: token_payload_def)
  with eq have d: "dec_int (sint a) = dec_int (sint b)" by (metis list.inject)
  from dec_int_inj [OF this] have "a = b" by (rule signed_word_eqI)
  moreover have "n = m" using eq d by (simp add: token_payload_def)
  ultimately show "a = b \<and> n = m" ..
qed simp

lemma split_signed:
  "split_on (CHR ''.'') (hex_encode n @ CHR ''.'' # hex_encode sg) = [hex_encode n, hex_encode sg]"
  by (simp add: split_on_append_sep split_on_no_sep hex_encode_no_dot)

text \<open>A freshly signed token is accepted for its session.\<close>

lemma verifyToken_fresh:
  "s_Token s = signResumeToken (Some n) (s_ID s) \<Longrightarrow> verifyToken s (s_Token s)"
  by (simp add: verifyToken_def signResumeToken_def Let_def signTokenPayload_def split_signed)

text \<open>Only the stored token is ever accepted, and only if it carries the right signature.\<close>

lemma verifyToken_stored: "verifyToken s token \<Longrightarrow> token = s_Token s"
  by (auto simp: verifyToken_def Let_def split: list.splits if_splits)

lemma verifyToken_signed:
  "verifyToken s token \<Longrightarrow> \<exists>nh. token = nh @ ''.'' @ signTokenPayload (s_ID s) nh"
  by (auto simp: verifyToken_def Let_def split: list.splits if_splits dest: split_on_two)

text \<open>The fallback token of a failed \<open>rand.Read\<close> has no dot and is never accepted.\<close>

lemma verifyToken_fallback:
  "s_Token s = signResumeToken None (s_ID s) \<Longrightarrow> \<not> verifyToken s token"
proof
  assume t: "s_Token s = signResumeToken None (s_ID s)" and v: "verifyToken s token"
  from verifyToken_signed [OF v] have "CHR ''.'' \<in> set token" by auto
  moreover have "token = ''session:'' @ dec_int (sint (s_ID s))"
    using verifyToken_stored [OF v] t by (simp add: signResumeToken_def)
  ultimately show False using dec_int_no_dot [of "sint (s_ID s)"] by simp
qed

lemma verifyToken_congr:
  "s_ID s = s_ID s' \<Longrightarrow> s_Token s = s_Token s' \<Longrightarrow> verifyToken s tok = verifyToken s' tok"
  by (auto simp: verifyToken_def Let_def split: list.splits)

end
