(* ===== verification/GateConn.thy ===== *)
theory GateConn
  imports Auth
begin

text \<open>
  Client connections of the gate (\<open>gate/conn.go\<close>): creation, the bounded send queue and its
  writer goroutine, liveness stamps and the one-shot close. A socket write is an outcome of
  a writer step.
\<close>

definition newTraceID :: "genv \<Rightarrow> gate \<Rightarrow> string \<times> gate" where
  "newTraceID e g =
     (let sq = nextTrace g + 1
      in (gateName g @ ''-'' @ dec_int (now e div 1000000) @ ''-'' @ dec_int (uint sq),
          g\<lparr>nextTrace := sq\<rparr>))"

definition NewConnWithTransport :: "genv \<Rightarrow> gate \<Rightarrow> cref \<times> gate" where
  "NewConnWithTransport e g =
     (let (trace, g) = newTraceID e g;
          c = g_connNext g;
          k = \<lparr>c_connType = ConnTCP, c_sessionID = 0, c_traceID = trace,
               c_sendCh = make_chan (8 * 1024), c_closed = False, c_writing = True,
               c_id = 0, c_connectedAt = now e, c_busyCount = 0, c_lastSeen = now e\<rparr>
      in (c, g\<lparr>g_conns := (g_conns g)(c := k), g_connNext := Suc c\<rparr>))"

definition NewConn :: "genv \<Rightarrow> gate \<Rightarrow> cref \<times> gate" where
  "NewConn e g =
     (let (c, g) = NewConnWithTransport e g
      in (c, upd_conn c (\<lambda>k. k\<lparr>c_connType := ConnTCP\<rparr>) g))"

definition NewWSConn :: "genv \<Rightarrow> gate \<Rightarrow> cref \<times> gate" where
  "NewWSConn e g =
     (let (c, g) = NewConnWithTransport e g
      in (c, upd_conn c (\<lambda>k. k\<lparr>c_connType := ConnWS\<rparr>) g))"

definition markAlive :: "cref \<Rightarrow> time \<Rightarrow> gate \<Rightarrow> gate" where
  "markAlive c t g = upd_conn c (\<lambda>k. k\<lparr>c_lastSeen := t\<rparr>) g"

definition lastAlive :: "conn \<Rightarrow> time" where
  "lastAlive k = (let n = c_lastSeen k in if n = 0 then c_connectedAt k else n)"

text \<open>\<open>once.Do\<close>: the first close takes effect, a later one does nothing.\<close>

definition conn_Close :: "cref \<Rightarrow> gate \<Rightarrow> gate" where
  "conn_Close c g = upd_conn c (\<lambda>k. k\<lparr>c_closed := True\<rparr>) g"

definition conn_Send :: "cref \<Rightarrow> Envelope \<Rightarrow> gate \<Rightarrow> gate \<times> go_error option" where
  "conn_Send c env g =
     (case try_send env (c_sendCh (g_conns g c)) of
        Some q \<Rightarrow> (upd_conn c (\<lambda>k. k\<lparr>c_sendCh := q\<rparr>) g, None)
      | None \<Rightarrow>
          (let g = g\<lparr>connBusyCount := connBusyCount g + 1\<rparr>;
               g = upd_conn c (\<lambda>k. k\<lparr>c_busyCount := c_busyCount k + 1\<rparr>) g;
               g = (if c_busyCount (g_conns g c) \<ge> 5 then conn_Close c g else g)
           in (g, Some ErrConnBusy)))"

text \<open>
  The writer goroutine. While it runs it takes the oldest envelope and writes it; a failed
  write, or the closed signal, ends it, and it closes the connection on its way out.
\<close>

datatype conn_write = WriteOk | WriteFails | SeesClosed

definition conn_writeStep :: "conn_write \<Rightarrow> cref \<Rightarrow> gate \<Rightarrow> gate \<times> Envelope option" where
  "conn_writeStep w c g =
     (let k = g_conns g c
      in if \<not> c_writing k then (g, None)
         else case w of
           SeesClosed \<Rightarrow>
             (if c_closed k then (conn_Close c (upd_conn c (\<lambda>k. k\<lparr>c_writing := False\<rparr>) g), None)
              else (g, None))
         | _ \<Rightarrow>
             (case try_recv (c_sendCh k) of
                None \<Rightarrow> (g, None)
              | Some (env, q) \<Rightarrow>
                  (let g = upd_conn c (\<lambda>k. k\<lparr>c_sendCh := q\<rparr>) g
                   in if w = WriteOk then (g, Some env)
                      else (conn_Close c (upd_conn c (\<lambda>k. k\<lparr>c_writing := False\<rparr>) g), None))))"

subsection \<open>What the operations on connections leave alone\<close>

text \<open>
  None of them touches a session, the index, the service queues or the counters of ids; and
  none of them changes which session a connection belongs to.
\<close>

definition same_but_conns :: "gate \<Rightarrow> gate \<Rightarrow> bool" where
  "same_but_conns g g' \<longleftrightarrow>
     g_sess g' = g_sess g \<and> g_sessNext g' = g_sessNext g \<and> g_connNext g' = g_connNext g \<and>
     sessions g' = sessions g \<and> servicePool g' = servicePool g \<and> nextID g' = nextID g \<and>
     unknownMsgKickCount g' = unknownMsgKickCount g \<and> heartbeatTimeout g' = heartbeatTimeout g \<and>
     (\<forall>c. c_sessionID (g_conns g' c) = c_sessionID (g_conns g c) \<and>
          c_connType (g_conns g' c) = c_connType (g_conns g c) \<and>
          c_connectedAt (g_conns g' c) = c_connectedAt (g_conns g c) \<and>
          (c_closed (g_conns g c) \<longrightarrow> c_closed (g_conns g' c)))"

lemma same_but_conns_refl [simp]: "same_but_conns g g"
  by (simp add: same_but_conns_def)

lemma same_but_conns_trans:
  "same_but_conns g g' \<Longrightarrow> same_but_conns g' g'' \<Longrightarrow> same_but_conns g g''"
  by (auto simp: same_but_conns_def)

lemma upd_conn_frame [simp]:
  "g_sess (upd_conn c f g) = g_sess g" "g_sessNext (upd_conn c f g) = g_sessNext g"
  "g_connNext (upd_conn c f g) = g_connNext g" "sessions (upd_conn c f g) = sessions g"
  "servicePool (upd_conn c f g) = servicePool g" "nextID (upd_conn c f g) = nextID g"
  "unknownMsgKickCount (upd_conn c f g) = unknownMsgKickCount g"
  "heartbeatTimeout (upd_conn c f g) = heartbeatTimeout g"
  "connBusyCount (upd_conn c f g) = connBusyCount g"
  "gateHandlers (upd_conn c f g) = gateHandlers g"
  "loginRateLimitCount (upd_conn c f g) = loginRateLimitCount g"
  "loginRateLimitWindow (upd_conn c f g) = loginRateLimitWindow g"
  "loginTimeout (upd_conn c f g) = loginTimeout g"
  "g_conns (upd_conn c f g) = (g_conns g)(c := f (g_conns g c))"
  by (simp_all add: upd_conn_def)

lemma upd_sess_frame [simp]:
  "g_conns (upd_sess r f g) = g_conns g" "g_sessNext (upd_sess r f g) = g_sessNext g"
  "g_connNext (upd_sess r f g) = g_connNext g" "sessions (upd_sess r f g) = sessions g"
  "servicePool (upd_sess r f g) = servicePool g" "nextID (upd_sess r f g) = nextID g"
  "unknownMsgKickCount (upd_sess r f g) = unknownMsgKickCount g"
  "heartbeatTimeout (upd_sess r f g) = heartbeatTimeout g"
  "connBusyCount (upd_sess r f g) = connBusyCount g"
  "gateHandlers (upd_sess r f g) = gateHandlers g"
  "loginRateLimitCount (upd_sess r f g) = loginRateLimitCount g"
  "loginRateLimitWindow (upd_sess r f g) = loginRateLimitWindow g"
  "loginTimeout (upd_sess r f g) = loginTimeout g"
  "g_sess (upd_sess r f g) = (g_sess g)(r := f (g_sess g r))"
  by (simp_all add: upd_sess_def)

lemma conn_Close_same: "same_but_conns g (conn_Close c g)"
  by (simp add: conn_Close_def same_but_conns_def)

lemma conn_Close_closed [simp]: "c_closed (g_conns (conn_Close c g) c)"
  by (simp add: conn_Close_def)

lemma conn_Close_idem: "conn_Close c (conn_Close c g) = conn_Close c g"
  by (simp add: conn_Close_def upd_conn_def)

lemma conn_Send_same: "same_but_conns g (fst (conn_Send c env g))"
  by (auto simp: conn_Send_def Let_def same_but_conns_def conn_Close_def split: option.splits)

lemma markAlive_same: "same_but_conns g (markAlive c t g)"
  by (simp add: markAlive_def same_but_conns_def)

lemma conn_writeStep_same: "same_but_conns g (fst (conn_writeStep w c g))"
  by (auto simp: conn_writeStep_def Let_def same_but_conns_def conn_Close_def
      split: conn_write.splits option.splits)

text \<open>A queue with room takes the envelope at its end; a full one counts and reports busy.\<close>

lemma conn_Send_room:
  "length (ch_buf (c_sendCh (g_conns g c))) < ch_cap (c_sendCh (g_conns g c)) \<Longrightarrow>
     snd (conn_Send c env g) = None \<and>
     ch_buf (c_sendCh (g_conns (fst (conn_Send c env g)) c)) =
       ch_buf (c_sendCh (g_conns g c)) @ [env]"
  by (simp add: conn_Send_def try_send_def)

lemma conn_Send_full:
  "ch_cap (c_sendCh (g_conns g c)) \<le> length (ch_buf (c_sendCh (g_conns g c))) \<Longrightarrow>
     snd (conn_Send c env g) = Some ErrConnBusy \<and>
     c_sendCh (g_conns (fst (conn_Send c env g)) c) = c_sendCh (g_conns g c) \<and>
     connBusyCount (fst (conn_Send c env g)) = connBusyCount g + 1 \<and>
     c_busyCount (g_conns (fst (conn_Send c env g)) c) = c_busyCount (g_conns g c) + 1 \<and>
     c_closed (g_conns (fst (conn_Send c env g)) c) =
       (c_closed (g_conns g c) \<or> c_busyCount (g_conns g c) + 1 \<ge> 5)"
  by (simp add: conn_Send_def try_send_def Let_def conn_Close_def upd_conn_def)

end
