(* ===== verification/Router.thy ===== *)
theory Router
  imports Protocol
begin

text \<open>
  The routing decision shared by the gate and the service (\<open>internal/router\<close>): a message
  id names the subsystem that handles it by the range it lies in.
\<close>

datatype TargetType = TargetService | TargetGame | TargetDB

record RouteRule =
  Target :: TargetType
  Module :: string

definition routeTable :: "RouteRule list" where
  "routeTable =
     [\<lparr>Target = TargetService, Module = ''login''\<rparr>,
      \<lparr>Target = TargetService, Module = ''chat''\<rparr>,
      \<lparr>Target = TargetGame, Module = ''''\<rparr>]"

definition GetRoute :: "int \<Rightarrow> RouteRule option" where
  "GetRoute msgID =
     (if MsgLoginBegin \<le> msgID \<and> msgID < MsgLoginEnd then
        Some \<lparr>Target = TargetService, Module = ''login''\<rparr>
      else if MsgChatBegin \<le> msgID \<and> msgID < MsgChatEnd then
        Some \<lparr>Target = TargetService, Module = ''chat''\<rparr>
      else if MsgGameBegin \<le> msgID \<and> msgID < MsgGameEnd then
        Some \<lparr>Target = TargetGame, Module = ''''\<rparr>
      else None)"

lemma GetRoute_None_iff: "GetRoute i = None \<longleftrightarrow> i < 1000 \<or> 4000 \<le> i"
  by (auto simp: GetRoute_def route_simps)

lemma GetRoute_game_iff:
  "(\<exists>r. GetRoute i = Some r \<and> Target r = TargetGame) \<longleftrightarrow> 3000 \<le> i \<and> i < 4000"
  by (auto simp: GetRoute_def route_simps)

lemma GetRoute_not_db: "GetRoute i = Some r \<Longrightarrow> Target r \<noteq> TargetDB"
  by (auto simp: GetRoute_def split: if_splits)

lemma GetRoute_login [simp]:
  "GetRoute MsgLoginReq = Some \<lparr>Target = TargetService, Module = ''login''\<rparr>"
  by (simp add: GetRoute_def route_simps)

lemma GetRoute_offline_notify [simp]:
  "GetRoute MsgPlayerOfflineNotify = Some \<lparr>Target = TargetGame, Module = ''''\<rparr>"
  by (simp add: GetRoute_def route_simps)

lemma GetRoute_in_table: "GetRoute i = Some r \<Longrightarrow> r \<in> set routeTable"
  by (auto simp: GetRoute_def routeTable_def split: if_splits)

end
