(* ===== verification/Gate.thy ===== *)
theory Gate
  imports GateConn Router
begin

text \<open>
  The gate's operations (\<open>internal/gate\<close>): one definition per Go function, in the order a
  message meets them. Each takes the state and returns the new one; a pointer argument is
  an address. Logging is left out.
\<close>

subsection \<open>Construction and configuration\<close>

text \<open>Addresses start at one, so a store starts out with arbitrary contents everywhere.\<close>

definition blank_session :: session where
  "blank_session = \<lparr>s_ID = 0, s_PlayerID = 0, s_Token = '''', s_State = SessionInit, s_Conn = None,
     s_LastSeen = 0, s_AuthStart = None, s_LoginWindowStart = None, s_LoginAttempts = 0,
     s_UnknownMsgCount = 0\<rparr>"

definition blank_conn :: conn where
  "blank_conn = \<lparr>c_connType = ConnTCP, c_sessionID = 0, c_traceID = '''', c_sendCh = make_chan 0,
     c_closed = False, c_writing = False, c_id = 0, c_connectedAt = 0, c_busyCount = 0,
     c_lastSeen = 0\<rparr>"

text \<open>\<open>registerHandlers\<close>: the first failing registration ends it.\<close>

definition registerHandlers :: "GateHandler registry \<Rightarrow> GateHandler registry \<times> go_error option" where
  "registerHandlers hs =
     (case Register MsgResumeReq OnResumeHandler hs of
        (hs, Some err) \<Rightarrow> (hs, Some err)
      | (hs, None) \<Rightarrow> Register MsgHeartbeatReq OnHeartbeatHandler hs)"

definition NewGate :: gate where
  "NewGate =
     \<lparr>g_sess = (\<lambda>_. blank_session), g_sessNext = 0, g_conns = (\<lambda>_. blank_conn), g_connNext = 0,
      sessions = NewSessionManager, servicePool = None,
      connOptions = \<lparr>ReadTimeout = 0, WriteTimeout = 0, KeepAlive = 0\<rparr>,
      heartbeatInterval = 100 * second, heartbeatTimeout = 300 * second,
      gcInterval = 600 * second, nextID = 0, loginTimeout = 100 * second,
      loginRateLimitCount = 5, loginRateLimitWindow = 10 * second, unknownMsgKickCount = 3,
      gateName = '''', nextTrace = 0,
      gateHandlers = fst (registerHandlers NewRegistry),
      heartbeatTimeoutCount = 0, loginTimeoutCount = 0, loginRateLimitCounted = 0,
      unknownMsgCount = 0, connBusyCount = 0\<rparr>"

definition UpdateConfig ::
    "duration \<Rightarrow> duration \<Rightarrow> duration \<Rightarrow> duration \<Rightarrow> int \<Rightarrow> duration \<Rightarrow> int \<Rightarrow> ConnOptions
       \<Rightarrow> gate \<Rightarrow> gate" where
  "UpdateConfig interval timeout gc loginTO loginLimitCount loginWindow unknownMsgKick opts g =
     (let g = (if interval > 0 then g\<lparr>heartbeatInterval := interval\<rparr> else g);
          g = (if timeout > 0 then g\<lparr>heartbeatTimeout := timeout\<rparr> else g);
          g = (if gc > 0 then g\<lparr>gcInterval := gc\<rparr> else g);
          g = (if loginTO > 0 then g\<lparr>loginTimeout := loginTO\<rparr> else g);
          g = (if loginLimitCount > 0 then g\<lparr>loginRateLimitCount := loginLimitCount\<rparr> else g);
          g = (if loginWindow > 0 then g\<lparr>loginRateLimitWindow := loginWindow\<rparr> else g);
          g = (if unknownMsgKick > 0 then g\<lparr>unknownMsgKickCount := unknownMsgKick\<rparr> else g)
      in g\<lparr>connOptions := opts\<rparr>)"

definition ConnectService :: "string \<Rightarrow> int \<Rightarrow> gate \<Rightarrow> gate" where
  "ConnectService addr poolSize g =
     g\<lparr>servicePool := Some (newRemoteClientPool ''service'' addr poolSize 2 5000000)\<rparr>"

subsection \<open>Sending to the service and notifying the game\<close>

definition sendToService :: "genv \<Rightarrow> string \<Rightarrow> Envelope \<Rightarrow> gate \<Rightarrow> gate" where
  "sendToService e module env g =
     (case servicePool g of
        None \<Rightarrow> g
      | Some p \<Rightarrow>
          (let env = (case sm_Get (eSessionId env) (sessions g) of
                        None \<Rightarrow> env
                      | Some s \<Rightarrow> env\<lparr>ePlayerId := s_PlayerID (g_sess g s)\<rparr>);
               (p, _) = pool_Send (drain e) (eSessionId env) env p
           in g\<lparr>servicePool := Some p\<rparr>))"

definition sendToGame :: "genv \<Rightarrow> Envelope \<Rightarrow> gate \<Rightarrow> gate" where
  "sendToGame e env g = sendToService e '''' env g"

definition notifyPlayerResume :: "genv \<Rightarrow> sref \<Rightarrow> gate \<Rightarrow> gate" where
  "notifyPlayerResume e s g =
     (if s_PlayerID (g_sess g s) = 0 then g
      else sendToGame e \<lparr>eMsgId = to_int32 MsgPlayerResumeReq, eSessionId = s_ID (g_sess g s),
             ePlayerId = s_PlayerID (g_sess g s), ePayload = []\<rparr> g)"

definition notifyPlayerOffline :: "genv \<Rightarrow> sref \<Rightarrow> gate \<Rightarrow> gate" where
  "notifyPlayerOffline e s g =
     (if s_PlayerID (g_sess g s) = 0 then g
      else sendToGame e \<lparr>eMsgId = to_int32 MsgPlayerOfflineNotify, eSessionId = s_ID (g_sess g s),
             ePlayerId = s_PlayerID (g_sess g s), ePayload = []\<rparr> g)"

subsection \<open>Replies, kicks and going offline\<close>

definition Reply :: "int64 \<Rightarrow> int \<Rightarrow> bytes \<Rightarrow> gate \<Rightarrow> gate \<times> go_error option" where
  "Reply sessionID msgID data g =
     (case sm_Get sessionID (sessions g) of
        None \<Rightarrow> (g, Some ErrSessionNotFound)
      | Some s \<Rightarrow>
          (case s_Conn (g_sess g s) of
             None \<Rightarrow> (g, Some ErrSessionNotFound)
           | Some c \<Rightarrow>
               conn_Send c \<lparr>eMsgId = to_int32 msgID, eSessionId = sessionID,
                            ePlayerId = s_PlayerID (g_sess g s), ePayload = data\<rparr> g))"

definition Push :: "int64 \<Rightarrow> int \<Rightarrow> bytes \<Rightarrow> gate \<Rightarrow> gate \<times> go_error option" where
  "Push sessionID msgID data g = Reply sessionID msgID data g"

definition onSessionOffline :: "genv \<Rightarrow> sref \<Rightarrow> gate \<Rightarrow> gate" where
  "onSessionOffline e s g =
     (let ss = g_sess g s
      in if s_State ss = SessionClosed then g
         else if s_State ss = SessionOffline \<and> s_Conn ss = None then g
         else
           (let g = (case s_Conn ss of None \<Rightarrow> g | Some c \<Rightarrow> conn_Close c g);
                g = upd_sess s (\<lambda>x. x\<lparr>s_Conn := None, s_LastSeen := now e\<rparr>) g;
                wasOnline = (s_State ss \<noteq> SessionOffline);
                g = upd_sess s (\<lambda>x. x\<lparr>s_State := SessionOffline\<rparr>) g
            in if wasOnline then notifyPlayerOffline e s g else g))"

definition Kick :: "genv \<Rightarrow> int64 \<Rightarrow> gate \<Rightarrow> gate \<times> go_error option" where
  "Kick e sessionID g =
     (case sm_Get sessionID (sessions g) of
        None \<Rightarrow> (g, Some ErrSessionNotFound)
      | Some s \<Rightarrow>
          (if s_Conn (g_sess g s) = None then (g, Some ErrSessionNotFound)
           else (onSessionOffline e s g, None)))"

text \<open>\<open>onConnClose\<close>: the read loop of a connection has ended.\<close>

definition onConnClose :: "genv \<Rightarrow> cref \<Rightarrow> gate \<Rightarrow> gate" where
  "onConnClose e c g =
     (case sm_Get (c_sessionID (g_conns g c)) (sessions g) of
        None \<Rightarrow> g
      | Some s \<Rightarrow>
          notifyPlayerOffline e s
            (upd_sess s (\<lambda>x. x\<lparr>s_Conn := None, s_State := SessionOffline, s_LastSeen := now e\<rparr>) g))"

definition attachPlayer :: "int64 \<Rightarrow> int64 \<Rightarrow> gate \<Rightarrow> gate" where
  "attachPlayer sessionID playerID g =
     (case sm_Get sessionID (sessions g) of
        None \<Rightarrow> g
      | Some s \<Rightarrow>
          (if s_PlayerID (g_sess g s) = playerID then g
           else upd_sess s (\<lambda>x. x\<lparr>s_PlayerID := playerID\<rparr>) g))"

subsection \<open>Creating sessions\<close>

definition nextSessionID :: "gate \<Rightarrow> int64 \<times> gate" where
  "nextSessionID g = (nextID g + 1, g\<lparr>nextID := nextID g + 1\<rparr>)"

definition newSession :: "genv \<Rightarrow> gate \<Rightarrow> sref \<times> gate" where
  "newSession e g =
     (let (sid, g) = nextSessionID g;
          s = g_sessNext g;
          ss = \<lparr>s_ID = sid, s_PlayerID = 0, s_Token = signResumeToken (nonce e) sid,
                s_State = SessionInit, s_Conn = None, s_LastSeen = now e, s_AuthStart = None,
                s_LoginWindowStart = None, s_LoginAttempts = 0, s_UnknownMsgCount = 0\<rparr>
      in (s, g\<lparr>g_sess := (g_sess g)(s := ss), g_sessNext := Suc s\<rparr>))"

definition sessionInitEnvelope :: "genv \<Rightarrow> session \<Rightarrow> Envelope" where
  "sessionInitEnvelope e ss =
     \<lparr>eMsgId = to_int32 MsgSessionInit, eSessionId = s_ID ss, ePlayerId = 0,
      ePayload = or_nil (marshalSessionInit (codec e)
                          \<lparr>siSessionId = s_ID ss, siToken = s_Token ss\<rparr>)\<rparr>"

definition createSessionForConn :: "genv \<Rightarrow> cref \<Rightarrow> gate \<Rightarrow> sref \<times> gate" where
  "createSessionForConn e c g =
     (let (s, g) = newSession e g;
          g = upd_sess s (\<lambda>x. x\<lparr>s_Conn := Some c, s_State := SessionOnline, s_LastSeen := now e\<rparr>) g;
          g = upd_conn c (\<lambda>k. k\<lparr>c_sessionID := s_ID (g_sess g s)\<rparr>) g;
          g = g\<lparr>sessions := sm_Add (g_sess g) s (sessions g)\<rparr>;
          (g, _) = conn_Send c (sessionInitEnvelope e (g_sess g s)) g
      in (s, g))"

text \<open>\<open>Gate.NewSession\<close> (\<open>gate.go\<close>) has the same body and is kept for callers outside.\<close>

definition NewSession :: "genv \<Rightarrow> cref \<Rightarrow> gate \<Rightarrow> sref \<times> gate" where
  "NewSession e c g =
     (let (s, g) = newSession e g;
          g = upd_sess s (\<lambda>x. x\<lparr>s_Conn := Some c, s_State := SessionOnline, s_LastSeen := now e\<rparr>) g;
          g = upd_conn c (\<lambda>k. k\<lparr>c_sessionID := s_ID (g_sess g s)\<rparr>) g;
          g = g\<lparr>sessions := sm_Add (g_sess g) s (sessions g)\<rparr>;
          (g, _) = conn_Send c (sessionInitEnvelope e (g_sess g s)) g
      in (s, g))"

subsection \<open>Login rate limiting and duplicate logins\<close>

definition allowLogin_step :: "time \<Rightarrow> int \<Rightarrow> duration \<Rightarrow> session \<Rightarrow> bool \<times> session" where
  "allowLogin_step t limit window ss =
     (if limit \<le> 0 then (True, ss)
      else
        (let ss = (case s_LoginWindowStart ss of
                     None \<Rightarrow> ss\<lparr>s_LoginWindowStart := Some t, s_LoginAttempts := 0\<rparr>
                   | Some w \<Rightarrow>
                       (if time_sub t w > window
                        then ss\<lparr>s_LoginWindowStart := Some t, s_LoginAttempts := 0\<rparr> else ss));
             ss = ss\<lparr>s_LoginAttempts := s_LoginAttempts ss + 1\<rparr>
         in (s_LoginAttempts ss \<le> limit, ss)))"

definition allowLogin :: "genv \<Rightarrow> sref \<Rightarrow> gate \<Rightarrow> bool \<times> gate" where
  "allowLogin e s g =
     (let (ok, ss) = allowLogin_step (now e) (loginRateLimitCount g) (loginRateLimitWindow g)
                       (g_sess g s)
      in (ok, upd_sess s (\<lambda>_. ss) g))"

definition handleDuplicateLogin :: "genv \<Rightarrow> sref \<Rightarrow> cref \<Rightarrow> gate \<Rightarrow> gate" where
  "handleDuplicateLogin e s newConn g =
     (if s_Conn (g_sess g s) = Some newConn then g
      else fst (Kick e (s_ID (g_sess g s)) g))"

end
