(* ===== verification/GateHandlers.thy ===== *)
theory GateHandlers
  imports Gate
begin

text \<open>
  The gate's message handlers: resume (\<open>resume.go\<close>), heartbeat and garbage collection
  (\<open>heartbeat.go\<close>, \<open>auth_timeout.go\<close>), replies of the service (\<open>service_handler.go\<close>) and
  the entry point for client envelopes (\<open>handler.go\<close>).
\<close>

subsection \<open>Resume\<close>

definition sendResumeRsp :: "genv \<Rightarrow> cref \<Rightarrow> bool \<Rightarrow> string \<Rightarrow> gate \<Rightarrow> gate" where
  "sendResumeRsp e c ok reason g =
     fst (conn_Send c
       \<lparr>eMsgId = to_int32 MsgResumeRsp, eSessionId = c_sessionID (g_conns g c), ePlayerId = 0,
        ePayload = or_nil (marshalResumeRsp (codec e) \<lparr>rsOk = ok, rsReason = reason\<rparr>)\<rparr> g)"

definition rejectResume :: "genv \<Rightarrow> cref \<Rightarrow> string \<Rightarrow> gate \<Rightarrow> gate" where
  "rejectResume e c reason g = conn_Close c (sendResumeRsp e c False reason g)"

text \<open>Steps 2 to 6 of \<open>handleResume\<close>: replace the old connection, bind, reply, notify.\<close>

definition bindResumed :: "genv \<Rightarrow> sref \<Rightarrow> cref \<Rightarrow> gate \<Rightarrow> gate" where
  "bindResumed e s c g =
     (let g = (case s_Conn (g_sess g s) of
                 None \<Rightarrow> g
               | Some old \<Rightarrow> (if old \<noteq> c then conn_Close old g else g));
          st = (if s_PlayerID (g_sess g s) \<noteq> 0 then SessionAuthenticated else SessionOnline);
          g = upd_sess s (\<lambda>x. x\<lparr>s_Conn := Some c, s_LastSeen := now e, s_State := st\<rparr>) g;
          g = upd_conn c (\<lambda>k. k\<lparr>c_sessionID := s_ID (g_sess g s)\<rparr>) g;
          g = sendResumeRsp e c True '''' g;
          g = (if s_PlayerID (g_sess g s) \<noteq> 0 then notifyPlayerResume e s g else g)
      in g\<lparr>unknownMsgKickCount := 0\<rparr>)"

definition handleResume :: "genv \<Rightarrow> cref \<Rightarrow> Envelope \<Rightarrow> gate \<Rightarrow> gate" where
  "handleResume e c env g =
     (if c_sessionID (g_conns g c) \<noteq> 0 then conn_Close c g
      else
        (case unmarshalResumeReq (codec e) (ePayload env) of
           None \<Rightarrow> conn_Close c g
         | Some req \<Rightarrow>
             (case sm_Get (rqSessionId req) (sessions g) of
                None \<Rightarrow> rejectResume e c ''invalid session'' g
              | Some s \<Rightarrow>
                  (if \<not> verifyToken (g_sess g s) (rqToken req) then
                     rejectResume e c ''invalid session'' g
                   else if s_State (g_sess g s) = SessionAuthing then
                     rejectResume e c ''session authing'' g
                   else if s_State (g_sess g s) = SessionClosed then
                     rejectResume e c ''session closed'' g
                   else bindResumed e s c g))))"

text \<open>\<open>Gate.onResume\<close> (\<open>conn.go\<close>), an older entry point with the same token check.\<close>

definition onResume :: "genv \<Rightarrow> cref \<Rightarrow> ResumeReq \<Rightarrow> gate \<Rightarrow> gate \<times> go_error option" where
  "onResume e c req g =
     (case sm_Get (rqSessionId req) (sessions g) of
        None \<Rightarrow> (g, Some InternalErrInvalidSession)
      | Some s \<Rightarrow>
          (if \<not> verifyToken (g_sess g s) (rqToken req) then (g, Some InternalErrInvalidToken)
           else
             (let g = upd_sess s (\<lambda>x. x\<lparr>s_Conn := Some c, s_State := SessionOnline,
                                        s_LastSeen := now e\<rparr>) g;
                  g = upd_conn c (\<lambda>k. k\<lparr>c_sessionID := s_ID (g_sess g s)\<rparr>) g
              in (markAlive c (now e) g, None))))"

subsection \<open>Heartbeats, login timeout, garbage collection, statistics\<close>

definition onHeartbeat :: "genv \<Rightarrow> int64 \<Rightarrow> gate \<Rightarrow> gate" where
  "onHeartbeat e sessionID g =
     (case sm_Get sessionID (sessions g) of
        None \<Rightarrow> g
      | Some s \<Rightarrow>
          (let g = upd_sess s (\<lambda>x. x\<lparr>s_LastSeen := now e\<rparr>) g;
               g = (case s_Conn (g_sess g s) of None \<Rightarrow> g | Some c \<Rightarrow> markAlive c (now e) g)
           in fst (Reply sessionID MsgHeartbeatRsp [] g)))"

definition hb_timeout :: "duration \<Rightarrow> conn \<Rightarrow> duration" where
  "hb_timeout timeout k =
     (if c_connType k = ConnWS then timeout + timeout div 2 else timeout)"

definition checkHeartbeat_one :: "genv \<Rightarrow> sref \<Rightarrow> gate \<Rightarrow> gate" where
  "checkHeartbeat_one e s g =
     (case s_Conn (g_sess g s) of
        None \<Rightarrow> g
      | Some c \<Rightarrow>
          (if s_State (g_sess g s) \<noteq> SessionOnline then g
           else
             (let k = g_conns g c
              in if time_sub (now e) (lastAlive k) \<le> hb_timeout (heartbeatTimeout g) k then g
                 else onSessionOffline e s
                        (g\<lparr>heartbeatTimeoutCount := heartbeatTimeoutCount g + 1\<rparr>))))"

definition checkHeartbeat :: "genv \<Rightarrow> int64 list \<Rightarrow> gate \<Rightarrow> gate" where
  "checkHeartbeat e ord g =
     (if heartbeatTimeout g \<le> 0 then g
      else fold (checkHeartbeat_one e) (sm_snapshot ord (sessions g)) g)"

definition checkAuthing_one :: "genv \<Rightarrow> sref \<Rightarrow> gate \<Rightarrow> gate" where
  "checkAuthing_one e s g =
     (if s_State (g_sess g s) \<noteq> SessionAuthing then g
      else if time_sub_zero (now e) (s_AuthStart (g_sess g s)) > loginTimeout g
      then onSessionOffline e s (g\<lparr>loginTimeoutCount := loginTimeoutCount g + 1\<rparr>)
      else g)"

definition checkAuthingTimeout :: "genv \<Rightarrow> int64 list \<Rightarrow> gate \<Rightarrow> gate" where
  "checkAuthingTimeout e ord g = fold (checkAuthing_one e) (sm_snapshot ord (sessions g)) g"

definition gcSessions :: "genv \<Rightarrow> int64 list \<Rightarrow> gate \<Rightarrow> gate" where
  "gcSessions e ord g =
     (let (h, sm, _) = sm_GC (now e) (heartbeatTimeout g) ord (g_sess g) (sessions g)
      in g\<lparr>g_sess := h, sessions := sm\<rparr>)"

text \<open>One tick of \<open>gcLoop\<close>; the two visits of the map may have different orders.\<close>

definition gcTick :: "genv \<Rightarrow> int64 list \<Rightarrow> int64 list \<Rightarrow> gate \<Rightarrow> gate" where
  "gcTick e ord1 ord2 g = gcSessions e ord2 (checkAuthingTimeout e ord1 g)"

text \<open>A ticker loop of the gate runs only when its interval is positive.\<close>

definition heartbeatLoop :: "genv \<Rightarrow> int64 list \<Rightarrow> gate \<Rightarrow> gate" where
  "heartbeatLoop e ord g = (if heartbeatInterval g \<le> 0 then g else checkHeartbeat e ord g)"

definition gcLoop :: "genv \<Rightarrow> int64 list \<Rightarrow> int64 list \<Rightarrow> gate \<Rightarrow> gate" where
  "gcLoop e ord1 ord2 g = (if gcInterval g \<le> 0 then g else gcTick e ord1 ord2 g)"

text \<open>
  One tick of \<open>reportStats\<close>: the counters are swapped to zero, and reported unless all are
  zero.
\<close>

definition reportStats :: "gate \<Rightarrow> gate \<times> (uint64 list) option" where
  "reportStats g =
     (let cs = [heartbeatTimeoutCount g, loginTimeoutCount g, loginRateLimitCounted g,
                unknownMsgCount g, connBusyCount g];
          g = g\<lparr>heartbeatTimeoutCount := 0, loginTimeoutCount := 0, loginRateLimitCounted := 0,
                unknownMsgCount := 0, connBusyCount := 0\<rparr>
      in (g, if list_all (\<lambda>n. n = 0) cs then None else Some cs))"

subsection \<open>Envelopes from the service\<close>

definition onLoginRsp :: "genv \<Rightarrow> int64 \<Rightarrow> bytes \<Rightarrow> gate \<Rightarrow> gate" where
  "onLoginRsp e sessionID payload g =
     (case sm_Get sessionID (sessions g) of
        None \<Rightarrow> g
      | Some s \<Rightarrow>
          (case unmarshalLoginRsp (codec e) payload of
             None \<Rightarrow> g
           | Some rsp \<Rightarrow>
               (let (old, h, sm) = sm_BindPlayer s (lrPlayerId rsp) (g_sess g) (sessions g);
                    g = g\<lparr>g_sess := h, sessions := sm\<rparr>;
                    g = (case old of
                           None \<Rightarrow> g
                         | Some o' \<Rightarrow>
                             (if s_ID (g_sess g o') \<noteq> s_ID (g_sess g s)
                              then fst (Kick e (s_ID (g_sess g o')) g) else g));
                    g = upd_sess s (\<lambda>x. x\<lparr>s_PlayerID := lrPlayerId rsp,
                                          s_State := SessionAuthenticated\<rparr>) g
                in g\<lparr>unknownMsgKickCount := 0\<rparr>)))"

definition OnServiceEnvelope :: "genv \<Rightarrow> Envelope \<Rightarrow> gate \<Rightarrow> gate" where
  "OnServiceEnvelope e env g =
     (if msg_id env = MsgServicePong then g
      else
        (let g = (if msg_id env = MsgLoginRsp then onLoginRsp e (eSessionId env) (ePayload env) g
                  else g)
         in fst (Reply (eSessionId env) (msg_id env) (ePayload env) g)))"

subsection \<open>Envelopes from clients\<close>

fun runHandler :: "genv \<Rightarrow> GateHandler \<Rightarrow> sref option \<Rightarrow> cref \<Rightarrow> Envelope \<Rightarrow> gate \<Rightarrow> gate" where
  "runHandler e OnResumeHandler s c env g = handleResume e c env g"
| "runHandler e OnHeartbeatHandler None c env g = g"
| "runHandler e OnHeartbeatHandler (Some s) c env g = onHeartbeat e (s_ID (g_sess g s)) g"

definition dispatchHandler ::
    "genv \<Rightarrow> sref option \<Rightarrow> cref \<Rightarrow> Envelope \<Rightarrow> gate \<Rightarrow> gate" where
  "dispatchHandler e s c env g =
     (case RegGet (msg_id env) (gateHandlers g) of
        None \<Rightarrow> g
      | Some h \<Rightarrow> runHandler e h s c env g)"

text \<open>A connection without a session: only a login request creates one.\<close>

definition firstLogin :: "genv \<Rightarrow> cref \<Rightarrow> Envelope \<Rightarrow> gate \<Rightarrow> gate" where
  "firstLogin e c env g =
     (let (s, g) = createSessionForConn e c g;
          (ok, g) = allowLogin e s g
      in if \<not> ok then g\<lparr>loginRateLimitCounted := loginRateLimitCounted g + 1\<rparr>
         else sendToService e ''login''
                \<lparr>eMsgId = eMsgId env, eSessionId = s_ID (g_sess g s), ePlayerId = 0,
                 ePayload = ePayload env\<rparr> g)"

text \<open>The login block: what a login request does first, and whether processing goes on.\<close>

definition loginBlock :: "genv \<Rightarrow> sref \<Rightarrow> cref \<Rightarrow> gate \<Rightarrow> bool \<times> gate" where
  "loginBlock e s c g =
     (let (ok, g) = allowLogin e s g
      in if \<not> ok then (False, g\<lparr>loginRateLimitCounted := loginRateLimitCounted g + 1\<rparr>)
         else (case s_State (g_sess g s) of
                 SessionAuthenticated \<Rightarrow> (False, handleDuplicateLogin e s c g)
               | SessionOnline \<Rightarrow>
                   (True, upd_sess s (\<lambda>x. x\<lparr>s_State := SessionAuthing,
                                            s_AuthStart := Some (now e)\<rparr>) g)
               | SessionAuthing \<Rightarrow> (False, g)
               | _ \<Rightarrow> (True, g)))"

text \<open>Permission, control messages and routing.\<close>

definition unknownMsg :: "genv \<Rightarrow> sref \<Rightarrow> gate \<Rightarrow> gate" where
  "unknownMsg e s g =
     (let g = upd_sess s (\<lambda>x. x\<lparr>s_UnknownMsgCount := s_UnknownMsgCount x + 1\<rparr>) g;
          g = g\<lparr>unknownMsgCount := unknownMsgCount g + 1\<rparr>
      in if unknownMsgKickCount g > 0 \<and> s_UnknownMsgCount (g_sess g s) \<ge> unknownMsgKickCount g
         then onSessionOffline e s g else g)"

definition routeEnvelope :: "genv \<Rightarrow> sref \<Rightarrow> cref \<Rightarrow> Envelope \<Rightarrow> gate \<Rightarrow> gate" where
  "routeEnvelope e s c env g =
     (if s_State (g_sess g s) = SessionOnline then g
      else if msg_id env = MsgHeartbeatReq then dispatchHandler e (Some s) c env g
      else
        (case GetRoute (msg_id env) of
           None \<Rightarrow> unknownMsg e s g
         | Some rule \<Rightarrow>
             (let g = upd_sess s (\<lambda>x. x\<lparr>s_LastSeen := now e\<rparr>) g
              in case Target rule of
                   TargetService \<Rightarrow> sendToService e (Module rule) env g
                 | TargetGame \<Rightarrow> sendToGame e env g
                 | _ \<Rightarrow> g)))"

definition OnEnvelope :: "genv \<Rightarrow> cref \<Rightarrow> Envelope \<Rightarrow> gate \<Rightarrow> gate" where
  "OnEnvelope e c env g =
     (if msg_id env = MsgResumeReq then dispatchHandler e None c env g
      else if c_sessionID (g_conns g c) = 0 then
        (if msg_id env \<noteq> MsgLoginReq then conn_Close c g else firstLogin e c env g)
      else
        (case sm_Get (c_sessionID (g_conns g c)) (sessions g) of
           None \<Rightarrow> conn_Close c g
         | Some s \<Rightarrow>
             (if s_State (g_sess g s) = SessionOffline then g
              else
                (let (go_on, g) = (if msg_id env = MsgLoginReq then loginBlock e s c g
                                   else (True, g))
                 in if go_on then routeEnvelope e s c env g else g))))"

text \<open>One iteration of the read loop of a connection that has received an envelope.\<close>

definition ReadLoop_env :: "genv \<Rightarrow> cref \<Rightarrow> Envelope \<Rightarrow> gate \<Rightarrow> gate" where
  "ReadLoop_env e c env g = OnEnvelope e c env (markAlive c (now e) g)"

end
