(* ===== verification/GateInv.thy ===== *)
theory GateInv
  imports GateHandlers
begin

text \<open>
  The invariant of the gate and its preservation by every operation. \<open>core_eq\<close> relates two
  states that agree on everything the invariant reads, so an operation that only sends,
  counts or closes needs no argument of its own.
\<close>

definition core_eq :: "gate \<Rightarrow> gate \<Rightarrow> bool" where
  "core_eq g g' \<longleftrightarrow>
     g_sess g' = g_sess g \<and> g_sessNext g' = g_sessNext g \<and> g_connNext g' = g_connNext g \<and>
     sessions g' = sessions g \<and> nextID g' = nextID g \<and>
     (\<forall>c. c_sessionID (g_conns g' c) = c_sessionID (g_conns g c))"

lemma core_eq_refl [simp, intro]: "core_eq g g"
  by (simp add: core_eq_def)

lemma core_eq_trans [trans]: "core_eq g g' \<Longrightarrow> core_eq g' g'' \<Longrightarrow> core_eq g g''"
  by (simp add: core_eq_def)

lemma core_eq_same: "same_but_conns g g' \<Longrightarrow> core_eq g g'"
  by (simp add: core_eq_def same_but_conns_def)

lemmas core_conn_Close [simp] = conn_Close_same [THEN core_eq_same]
lemmas core_conn_Send [simp] = conn_Send_same [THEN core_eq_same]
lemmas core_markAlive [simp] = markAlive_same [THEN core_eq_same]
lemmas core_conn_writeStep [simp] = conn_writeStep_same [THEN core_eq_same]

lemma core_sendToService [simp]: "core_eq g (sendToService e m env g)"
  by (simp add: sendToService_def core_eq_def Let_def split_def split: option.split)

lemma core_sendToGame [simp]: "core_eq g (sendToGame e env g)"
  by (simp add: sendToGame_def)

lemma core_notifyPlayerOffline [simp]: "core_eq g (notifyPlayerOffline e s g)"
  by (simp add: notifyPlayerOffline_def)

lemma core_notifyPlayerResume [simp]: "core_eq g (notifyPlayerResume e s g)"
  by (simp add: notifyPlayerResume_def)

lemma core_Reply [simp]: "core_eq g (fst (Reply sid m d g))"
  by (simp add: Reply_def split: option.split)

lemma core_sendResumeRsp [simp]: "core_eq g (sendResumeRsp e c ok why g)"
  by (simp add: sendResumeRsp_def)

lemma core_rejectResume [simp]: "core_eq g (rejectResume e c why g)"
  unfolding rejectResume_def using core_sendResumeRsp core_conn_Close by (rule core_eq_trans)

lemma core_counters [simp]:
  "core_eq g (g\<lparr>loginRateLimitCounted := n\<rparr>)" "core_eq g (g\<lparr>unknownMsgCount := n\<rparr>)"
  "core_eq g (g\<lparr>heartbeatTimeoutCount := n\<rparr>)" "core_eq g (g\<lparr>loginTimeoutCount := n\<rparr>)"
  "core_eq g (g\<lparr>unknownMsgKickCount := i\<rparr>)" "core_eq g (g\<lparr>servicePool := p\<rparr>)"
  by (simp_all add: core_eq_def)

subsection \<open>The invariant\<close>

text \<open>
  Of one session: it has left its initial state, it is offline or closed only without a
  connection, it is online or logging in only with one, its connection knows it, and the
  login timer runs while it is logging in.
\<close>

definition sess_ok :: "gate \<Rightarrow> session \<Rightarrow> bool" where
  "sess_ok g s \<longleftrightarrow>
     s_State s \<noteq> SessionInit \<and>
     (s_State s \<in> {SessionOffline, SessionClosed} \<longrightarrow> s_Conn s = None) \<and>
     (s_State s \<in> {SessionOnline, SessionAuthing} \<longrightarrow> s_Conn s \<noteq> None) \<and>
     (\<forall>c. s_Conn s = Some c \<longrightarrow> c < g_connNext g \<and> c_sessionID (g_conns g c) = s_ID s) \<and>
     (s_State s = SessionAuthing \<longrightarrow> s_AuthStart s \<noteq> None) \<and>
     s_ID s \<noteq> 0 \<and> s_ID s \<le> nextID g"

definition gate_inv :: "gate \<Rightarrow> bool" where
  "gate_inv g \<longleftrightarrow>
     (\<forall>r < g_sessNext g. sess_ok g (g_sess g r)) \<and>
     (\<forall>r < g_sessNext g. \<forall>r' < g_sessNext g. s_ID (g_sess g r) = s_ID (g_sess g r') \<longrightarrow> r = r') \<and>
     (\<forall>sid r. bySession (sessions g) sid = Some r \<longrightarrow>
        r < g_sessNext g \<and> s_ID (g_sess g r) = sid \<and> s_State (g_sess g r) \<noteq> SessionClosed) \<and>
     (\<forall>r < g_sessNext g. s_State (g_sess g r) \<noteq> SessionClosed \<longrightarrow>
        bySession (sessions g) (s_ID (g_sess g r)) = Some r) \<and>
     (\<forall>p r. byPlayer (sessions g) p = Some r \<longrightarrow> r < g_sessNext g)"

lemma gate_inv_core: "core_eq g g' \<Longrightarrow> gate_inv g' = gate_inv g"
  unfolding core_eq_def gate_inv_def sess_ok_def by simp

lemma gate_inv_coreI: "gate_inv g \<Longrightarrow> core_eq g g' \<Longrightarrow> gate_inv g'"
  by (simp add: gate_inv_core)

lemma gate_inv_getD:
  assumes "gate_inv g" and "sm_Get sid (sessions g) = Some r"
  shows "r < g_sessNext g" "s_ID (g_sess g r) = sid" "s_State (g_sess g r) \<noteq> SessionClosed"
    "sess_ok g (g_sess g r)" "sid \<noteq> 0"
proof -
  show r: "r < g_sessNext g" and i: "s_ID (g_sess g r) = sid"
    and "s_State (g_sess g r) \<noteq> SessionClosed"
    using assms by (auto simp: gate_inv_def sm_Get_def)
  show ok: "sess_ok g (g_sess g r)" using assms(1) r by (simp add: gate_inv_def)
  then show "sid \<noteq> 0" using i by (simp add: sess_ok_def)
qed

lemma gate_inv_index: "gate_inv g \<Longrightarrow> index_ok (g_sess g) (sessions g)"
  by (auto simp: gate_inv_def index_ok_def)

lemma gate_inv_sess_ok: "gate_inv g \<Longrightarrow> r < g_sessNext g \<Longrightarrow> sess_ok g (g_sess g r)"
  by (simp add: gate_inv_def)

lemma gate_inv_live_get:
  "gate_inv g \<Longrightarrow> r < g_sessNext g \<Longrightarrow> s_State (g_sess g r) \<noteq> SessionClosed \<Longrightarrow>
     sm_Get (s_ID (g_sess g r)) (sessions g) = Some r"
  by (simp add: gate_inv_def sm_Get_def)

subsection \<open>Updating one session\<close>

lemma gate_inv_upd_sess:
  assumes inv: "gate_inv g" and r: "r < g_sessNext g"
    and id: "s_ID (f (g_sess g r)) = s_ID (g_sess g r)"
    and closed: "s_State (f (g_sess g r)) = SessionClosed \<longleftrightarrow> s_State (g_sess g r) = SessionClosed"
    and ok: "sess_ok g (f (g_sess g r))"
  shows "gate_inv (upd_sess r f g)"
proof -
  have ok': "sess_ok (upd_sess r f g) s \<longleftrightarrow> sess_ok g s" for s
    by (simp add: sess_ok_def upd_sess_def)
  have id': "s_ID (g_sess (upd_sess r f g) x) = s_ID (g_sess g x)" for x
    by (simp add: id)
  have closed': "(s_State (g_sess (upd_sess r f g) x) = SessionClosed) =
      (s_State (g_sess g x) = SessionClosed)" for x
    by (simp add: closed)
  have all: "sess_ok g (g_sess (upd_sess r f g) x)" if "x < g_sessNext g" for x
    using ok gate_inv_sess_ok [OF inv that] by simp
  show ?thesis
    unfolding gate_inv_def ok' id' closed' upd_sess_frame(2,4)
    using inv all unfolding gate_inv_def by blast
qed

lemma onSessionOffline_core:
  assumes "s_State (g_sess g s) \<noteq> SessionClosed"
    and "s_State (g_sess g s) \<noteq> SessionOffline \<or> s_Conn (g_sess g s) \<noteq> None"
  shows "core_eq (upd_sess s (\<lambda>x. x\<lparr>s_Conn := None, s_LastSeen := now e, s_State := SessionOffline\<rparr>) g)
           (onSessionOffline e s g)"
proof -
  let ?g1 = "case s_Conn (g_sess g s) of None \<Rightarrow> g | Some c \<Rightarrow> conn_Close c g"
  let ?g2 = "upd_sess s (\<lambda>x. x\<lparr>s_State := SessionOffline\<rparr>)
      (upd_sess s (\<lambda>x. x\<lparr>s_Conn := None, s_LastSeen := now e\<rparr>) ?g1)"
  have "core_eq g ?g1" by (simp split: option.split)
  then have "core_eq (upd_sess s (\<lambda>x. x\<lparr>s_Conn := None, s_LastSeen := now e, s_State := SessionOffline\<rparr>) g) ?g2"
    by (simp add: core_eq_def)
  moreover have "core_eq ?g2 (onSessionOffline e s g)"
    using assms by (auto simp: onSessionOffline_def Let_def)
  ultimately show ?thesis by (rule core_eq_trans)
qed

lemma onSessionOffline_noop:
  "s_State (g_sess g s) = SessionClosed \<or>
   s_State (g_sess g s) = SessionOffline \<and> s_Conn (g_sess g s) = None \<Longrightarrow>
     onSessionOffline e s g = g"
  by (auto simp: onSessionOffline_def)

lemma sess_ok_offline:
  "sess_ok g s \<Longrightarrow> sess_ok g (s\<lparr>s_Conn := None, s_LastSeen := t, s_State := SessionOffline\<rparr>)"
  by (auto simp: sess_ok_def)

lemma gate_inv_onSessionOffline [intro]:
  assumes inv: "gate_inv g" and s: "s < g_sessNext g"
  shows "gate_inv (onSessionOffline e s g)"
proof (cases "s_State (g_sess g s) = SessionClosed \<or>
   s_State (g_sess g s) = SessionOffline \<and> s_Conn (g_sess g s) = None")
  case True
  with inv show ?thesis by (simp add: onSessionOffline_noop)
next
  case False
  have "gate_inv (upd_sess s (\<lambda>x. x\<lparr>s_Conn := None, s_LastSeen := now e, s_State := SessionOffline\<rparr>) g)"
    by (rule gate_inv_upd_sess [OF inv s])
      (use False gate_inv_sess_ok [OF inv s] in \<open>auto intro: sess_ok_offline\<close>)
  then show ?thesis
    by (rule gate_inv_coreI) (use False in \<open>auto intro: onSessionOffline_core\<close>)
qed

lemma onSessionOffline_next [simp]: "g_sessNext (onSessionOffline e s g) = g_sessNext g"
  using onSessionOffline_core [of g s e] onSessionOffline_noop [of g s e]
  by (cases "s_State (g_sess g s) = SessionClosed \<or>
     s_State (g_sess g s) = SessionOffline \<and> s_Conn (g_sess g s) = None") (auto simp: core_eq_def)

lemma onSessionOffline_sessions [simp]: "sessions (onSessionOffline e s g) = sessions g"
  using onSessionOffline_core [of g s e] onSessionOffline_noop [of g s e]
  by (cases "s_State (g_sess g s) = SessionClosed \<or>
     s_State (g_sess g s) = SessionOffline \<and> s_Conn (g_sess g s) = None") (auto simp: core_eq_def)

lemma onSessionOffline_other:
  "r \<noteq> s \<Longrightarrow> g_sess (onSessionOffline e s g) r = g_sess g r"
  using onSessionOffline_core [of g s e] onSessionOffline_noop [of g s e]
  by (cases "s_State (g_sess g s) = SessionClosed \<or>
     s_State (g_sess g s) = SessionOffline \<and> s_Conn (g_sess g s) = None") (auto simp: core_eq_def)

lemma onSessionOffline_ids [simp]:
  "s_ID (g_sess (onSessionOffline e s g) r) = s_ID (g_sess g r)"
  "s_PlayerID (g_sess (onSessionOffline e s g) r) = s_PlayerID (g_sess g r)"
  "s_Token (g_sess (onSessionOffline e s g) r) = s_Token (g_sess g r)"
  using onSessionOffline_core [of g s e] onSessionOffline_noop [of g s e]
  by (cases "s_State (g_sess g s) = SessionClosed \<or>
     s_State (g_sess g s) = SessionOffline \<and> s_Conn (g_sess g s) = None";
     cases "r = s"; auto simp: core_eq_def)+

end
