(* ===== verification/GateKeeps.thy ===== *)
theory GateKeeps
  imports GateInv
begin

text \<open>
  Every operation of the gate keeps its invariant. The proofs compare the state after an
  operation with an explicit update of the state before, up to \<open>core_eq\<close>.
\<close>

subsection \<open>Connections and sessions come into being\<close>

lemma gate_inv_new_conn:
  assumes inv: "gate_inv g"
  shows "gate_inv (snd (NewConn e g))" "gate_inv (snd (NewWSConn e g))"
proof -
  have *: "gate_inv g'"
    if g': "g_sess g' = g_sess g" "g_sessNext g' = g_sessNext g" "sessions g' = sessions g"
      "nextID g' = nextID g" "g_connNext g' = Suc (g_connNext g)"
      "\<forall>c < g_connNext g. g_conns g' c = g_conns g c" for g'
  proof -
    have "sess_ok g' s" if "sess_ok g s" for s
      using that g' by (auto simp: sess_ok_def)
    then show ?thesis using inv g' by (simp add: gate_inv_def)
  qed
  show "gate_inv (snd (NewConn e g))" "gate_inv (snd (NewWSConn e g))"
    by (rule *; simp add: NewConn_def NewWSConn_def NewConnWithTransport_def newTraceID_def Let_def)+
qed

text \<open>The state a new session leaves behind.\<close>

definition created :: "genv \<Rightarrow> cref \<Rightarrow> gate \<Rightarrow> gate" where
  "created e c g =
     (let sid = nextID g + 1;
          ss = \<lparr>s_ID = sid, s_PlayerID = 0, s_Token = signResumeToken (nonce e) sid,
                s_State = SessionOnline, s_Conn = Some c, s_LastSeen = now e, s_AuthStart = None,
                s_LoginWindowStart = None, s_LoginAttempts = 0, s_UnknownMsgCount = 0\<rparr>
      in g\<lparr>nextID := sid, g_sessNext := Suc (g_sessNext g),
           g_sess := (g_sess g)(g_sessNext g := ss),
           g_conns := (g_conns g)(c := (g_conns g c)\<lparr>c_sessionID := sid\<rparr>),
           sessions := (sessions g)\<lparr>bySession := (bySession (sessions g))(sid \<mapsto> g_sessNext g)\<rparr>\<rparr>)"

lemma createSessionForConn_alt:
  "createSessionForConn e c g =
     (g_sessNext g, fst (conn_Send c (sessionInitEnvelope e (g_sess (created e c g) (g_sessNext g)))
        (created e c g)))"
  by (simp add: createSessionForConn_def created_def newSession_def nextSessionID_def Let_def
      upd_sess_def upd_conn_def sm_Add_def split_def)

lemma NewSession_same: "NewSession e c g = createSessionForConn e c g"
  by (simp add: NewSession_def createSessionForConn_def)

lemma core_createSessionForConn: "core_eq (created e c g) (snd (createSessionForConn e c g))"
  by (simp add: createSessionForConn_alt)

lemma createSessionForConn_ref [simp]: "fst (createSessionForConn e c g) = g_sessNext g"
  by (simp add: createSessionForConn_alt)

lemma word_below_succ:
  fixes a b :: int64
  assumes "a \<le> b" and "b \<noteq> - 1"
  shows "a < b + 1"
proof -
  have "uint b \<noteq> 2 ^ 64 - 1"
  proof
    assume "uint b = 2 ^ 64 - 1"
    then have "b = word_of_int (2 ^ 64 - 1)" by (metis word_of_int_uint)
    with assms(2) show False by simp
  qed
  then have "uint b + 1 < 2 ^ 64" using uint_bounded [of b] by simp
  then have "uint (b + 1) = uint b + 1" by (simp add: uint_word_ariths)
  then show ?thesis using assms(1) by (simp add: word_less_def word_le_def)
qed

lemma created_frame [simp]:
  "g_sessNext (created e c g) = Suc (g_sessNext g)" "nextID (created e c g) = nextID g + 1"
  "g_connNext (created e c g) = g_connNext g"
  "byPlayer (sessions (created e c g)) = byPlayer (sessions g)"
  "bySession (sessions (created e c g)) = (bySession (sessions g))(nextID g + 1 \<mapsto> g_sessNext g)"
  "r \<noteq> g_sessNext g \<Longrightarrow> g_sess (created e c g) r = g_sess g r"
  "c_sessionID (g_conns (created e c g) k) =
     (if k = c then nextID g + 1 else c_sessionID (g_conns g k))"
  by (simp_all add: created_def Let_def)

lemma created_new [simp]:
  "s_ID (g_sess (created e c g) (g_sessNext g)) = nextID g + 1"
  "s_State (g_sess (created e c g) (g_sessNext g)) = SessionOnline"
  "s_Conn (g_sess (created e c g) (g_sessNext g)) = Some c"
  "s_PlayerID (g_sess (created e c g) (g_sessNext g)) = 0"
  "s_Token (g_sess (created e c g) (g_sessNext g)) = signResumeToken (nonce e) (nextID g + 1)"
  by (simp_all add: created_def Let_def)

lemma gate_inv_created:
  assumes inv: "gate_inv g" and c: "c < g_connNext g" "c_sessionID (g_conns g c) = 0"
    and room: "nextID g \<noteq> - 1"
  shows "gate_inv (created e c g)"
proof -
  let ?g = "created e c g" and ?n = "g_sessNext g"
  have new: "x < nextID g + 1" if "x \<le> nextID g" for x
    using word_below_succ [OF that room] .
  have old: "sess_ok g (g_sess g r)" "s_ID (g_sess g r) < nextID g + 1" if "r < ?n" for r
    using gate_inv_sess_ok [OF inv that] new by (auto simp: sess_ok_def)
  have pos: "nextID g + 1 \<noteq> 0" using new [of "nextID g"] by auto
  have ok: "sess_ok ?g (g_sess ?g r)" if "r < Suc ?n" for r
  proof (cases "r = ?n")
    case True
    then show ?thesis using c(1) pos by (simp add: sess_ok_def)
  next
    case False
    with that have r: "r < ?n" by simp
    from old(1) [OF this] c(2) new show ?thesis
      using r by (auto simp: sess_ok_def intro: order.strict_implies_order)
  qed
  show ?thesis unfolding gate_inv_def
  proof (intro conjI)
    show "\<forall>r<g_sessNext ?g. sess_ok ?g (g_sess ?g r)" using ok by simp
    show "\<forall>r<g_sessNext ?g. \<forall>r'<g_sessNext ?g. s_ID (g_sess ?g r) = s_ID (g_sess ?g r') \<longrightarrow> r = r'"
    proof (intro allI impI)
      fix r r' assume "r < g_sessNext ?g" "r' < g_sessNext ?g" "s_ID (g_sess ?g r) = s_ID (g_sess ?g r')"
      then show "r = r'"
        using inv old(2) [of r] old(2) [of r'] unfolding gate_inv_def
        by (cases "r = ?n"; cases "r' = ?n") auto
    qed
    show "\<forall>sid r. bySession (sessions ?g) sid = Some r \<longrightarrow>
       r < g_sessNext ?g \<and> s_ID (g_sess ?g r) = sid \<and> s_State (g_sess ?g r) \<noteq> SessionClosed"
    proof (intro allI impI)
      fix sid r assume "bySession (sessions ?g) sid = Some r"
      then show "r < g_sessNext ?g \<and> s_ID (g_sess ?g r) = sid \<and> s_State (g_sess ?g r) \<noteq> SessionClosed"
        using gate_inv_getD [OF inv, of sid r]
        by (cases "sid = nextID g + 1") (auto simp: sm_Get_def)
    qed
    show "\<forall>r<g_sessNext ?g. s_State (g_sess ?g r) \<noteq> SessionClosed \<longrightarrow>
       bySession (sessions ?g) (s_ID (g_sess ?g r)) = Some r"
    proof (intro allI impI)
      fix r assume "r < g_sessNext ?g" "s_State (g_sess ?g r) \<noteq> SessionClosed"
      then show "bySession (sessions ?g) (s_ID (g_sess ?g r)) = Some r"
        using gate_inv_live_get [OF inv, of r] old(2) [of r]
        by (cases "r = ?n") (auto simp: sm_Get_def)
    qed
    show "\<forall>p r. byPlayer (sessions ?g) p = Some r \<longrightarrow> r < g_sessNext ?g"
      using inv unfolding gate_inv_def by (auto simp: less_Suc_eq)
  qed
qed

lemma gate_inv_createSession:
  "gate_inv g \<Longrightarrow> c < g_connNext g \<Longrightarrow> c_sessionID (g_conns g c) = 0 \<Longrightarrow> nextID g \<noteq> - 1 \<Longrightarrow>
     gate_inv (snd (createSessionForConn e c g))"
  by (rule gate_inv_coreI [OF gate_inv_created core_createSessionForConn])

end
