(* ===== verification/GateOps.thy ===== *)
theory GateOps
  imports GateKeeps
begin

text \<open>
  Closed forms of what the gate's operations do to its sessions, and the invariant for each.
\<close>

subsection \<open>Sending changes nothing but queues\<close>

lemma sendToService_pool: "\<exists>p. sendToService e m env g = g\<lparr>servicePool := p\<rparr>"
proof (cases "servicePool g")
  case None
  then show ?thesis by (auto simp: sendToService_def intro!: exI [of _ None])
next
  case (Some p)
  then show ?thesis by (auto simp: sendToService_def Let_def split_def)
qed

lemma notifyPlayerOffline_pool: "\<exists>p. notifyPlayerOffline e s g = g\<lparr>servicePool := p\<rparr>"
  using sendToService_pool by (auto simp: notifyPlayerOffline_def sendToGame_def intro: exI [of _ "servicePool g"])

lemma notifyPlayerResume_pool: "\<exists>p. notifyPlayerResume e s g = g\<lparr>servicePool := p\<rparr>"
  using sendToService_pool by (auto simp: notifyPlayerResume_def sendToGame_def intro: exI [of _ "servicePool g"])

text \<open>Hence every other field is untouched.\<close>

definition pool_eq :: "gate \<Rightarrow> gate \<Rightarrow> bool" where
  "pool_eq g g' \<longleftrightarrow> (\<exists>p. g' = g\<lparr>servicePool := p\<rparr>)"

lemma pool_eqD:
  assumes "pool_eq g g'"
  shows "g_sess g' = g_sess g" "g_sessNext g' = g_sessNext g" "g_conns g' = g_conns g"
    "g_connNext g' = g_connNext g" "sessions g' = sessions g" "nextID g' = nextID g"
    "heartbeatTimeout g' = heartbeatTimeout g" "loginTimeout g' = loginTimeout g"
    "unknownMsgKickCount g' = unknownMsgKickCount g" "gateHandlers g' = gateHandlers g"
    "heartbeatTimeoutCount g' = heartbeatTimeoutCount g"
    "loginTimeoutCount g' = loginTimeoutCount g"
  using assms by (auto simp: pool_eq_def)

lemma pool_eq_send: "pool_eq g (sendToService e m env g)" "pool_eq g (sendToGame e env g)"
  "pool_eq g (notifyPlayerOffline e s g)" "pool_eq g (notifyPlayerResume e s g)"
  using sendToService_pool notifyPlayerOffline_pool notifyPlayerResume_pool
  by (auto simp: pool_eq_def sendToGame_def)

lemmas send_frame [simp] = pool_eq_send(1) [THEN pool_eqD(1)] pool_eq_send(1) [THEN pool_eqD(2)]
  pool_eq_send(1) [THEN pool_eqD(3)] pool_eq_send(1) [THEN pool_eqD(4)]
  pool_eq_send(1) [THEN pool_eqD(5)] pool_eq_send(1) [THEN pool_eqD(6)]
  pool_eq_send(1) [THEN pool_eqD(7)] pool_eq_send(1) [THEN pool_eqD(8)]
  pool_eq_send(1) [THEN pool_eqD(9)] pool_eq_send(1) [THEN pool_eqD(10)]

lemmas offline_frame [simp] = pool_eq_send(3) [THEN pool_eqD(1)] pool_eq_send(3) [THEN pool_eqD(2)]
  pool_eq_send(3) [THEN pool_eqD(3)] pool_eq_send(3) [THEN pool_eqD(4)]
  pool_eq_send(3) [THEN pool_eqD(5)] pool_eq_send(3) [THEN pool_eqD(6)]
  pool_eq_send(3) [THEN pool_eqD(7)] pool_eq_send(3) [THEN pool_eqD(8)]
  pool_eq_send(3) [THEN pool_eqD(9)] pool_eq_send(3) [THEN pool_eqD(10)]

lemmas resume_frame [simp] = pool_eq_send(4) [THEN pool_eqD(1)] pool_eq_send(4) [THEN pool_eqD(2)]
  pool_eq_send(4) [THEN pool_eqD(3)] pool_eq_send(4) [THEN pool_eqD(4)]
  pool_eq_send(4) [THEN pool_eqD(5)] pool_eq_send(4) [THEN pool_eqD(6)]
  pool_eq_send(4) [THEN pool_eqD(7)] pool_eq_send(4) [THEN pool_eqD(8)]
  pool_eq_send(4) [THEN pool_eqD(9)] pool_eq_send(4) [THEN pool_eqD(10)]

lemma conn_Close_fields [simp]:
  "g_sess (conn_Close c g) = g_sess g" "g_sessNext (conn_Close c g) = g_sessNext g"
  "sessions (conn_Close c g) = sessions g" "g_connNext (conn_Close c g) = g_connNext g"
  "heartbeatTimeout (conn_Close c g) = heartbeatTimeout g"
  "loginTimeout (conn_Close c g) = loginTimeout g" "nextID (conn_Close c g) = nextID g"
  "unknownMsgKickCount (conn_Close c g) = unknownMsgKickCount g"
  "gateHandlers (conn_Close c g) = gateHandlers g" "servicePool (conn_Close c g) = servicePool g"
  "g_conns (conn_Close c g) = (g_conns g)(c := (g_conns g c)\<lparr>c_closed := True\<rparr>)"
  by (simp_all add: conn_Close_def)

lemma conn_Send_fields [simp]:
  "g_sess (fst (conn_Send c env g)) = g_sess g"
  "g_sessNext (fst (conn_Send c env g)) = g_sessNext g"
  "sessions (fst (conn_Send c env g)) = sessions g"
  "g_connNext (fst (conn_Send c env g)) = g_connNext g"
  "servicePool (fst (conn_Send c env g)) = servicePool g"
  "nextID (fst (conn_Send c env g)) = nextID g"
  "heartbeatTimeout (fst (conn_Send c env g)) = heartbeatTimeout g"
  "unknownMsgKickCount (fst (conn_Send c env g)) = unknownMsgKickCount g"
  "c_sessionID (g_conns (fst (conn_Send c env g)) k) = c_sessionID (g_conns g k)"
  using conn_Send_same [of g c env] by (simp_all add: same_but_conns_def)

lemma Reply_fields [simp]:
  "g_sess (fst (Reply sid m d g)) = g_sess g"
  "g_sessNext (fst (Reply sid m d g)) = g_sessNext g"
  "sessions (fst (Reply sid m d g)) = sessions g"
  "g_connNext (fst (Reply sid m d g)) = g_connNext g"
  "servicePool (fst (Reply sid m d g)) = servicePool g"
  "nextID (fst (Reply sid m d g)) = nextID g"
  "heartbeatTimeout (fst (Reply sid m d g)) = heartbeatTimeout g"
  "unknownMsgKickCount (fst (Reply sid m d g)) = unknownMsgKickCount g"
  by (simp_all add: Reply_def split: option.split)

lemma sendResumeRsp_fields [simp]:
  "g_sess (sendResumeRsp e c ok why g) = g_sess g"
  "g_sessNext (sendResumeRsp e c ok why g) = g_sessNext g"
  "sessions (sendResumeRsp e c ok why g) = sessions g"
  "g_connNext (sendResumeRsp e c ok why g) = g_connNext g"
  "servicePool (sendResumeRsp e c ok why g) = servicePool g"
  "nextID (sendResumeRsp e c ok why g) = nextID g"
  "heartbeatTimeout (sendResumeRsp e c ok why g) = heartbeatTimeout g"
  by (simp_all add: sendResumeRsp_def)

subsection \<open>Going offline\<close>

definition gone :: "time \<Rightarrow> session \<Rightarrow> session" where
  "gone t x = x\<lparr>s_Conn := None, s_LastSeen := t, s_State := SessionOffline\<rparr>"

lemma gone_simps [simp]:
  "s_Conn (gone t x) = None" "s_LastSeen (gone t x) = t" "s_State (gone t x) = SessionOffline"
  "s_ID (gone t x) = s_ID x" "s_PlayerID (gone t x) = s_PlayerID x" "s_Token (gone t x) = s_Token x"
  "s_AuthStart (gone t x) = s_AuthStart x"
  by (simp_all add: gone_def)

definition droppable :: "session \<Rightarrow> bool" where
  "droppable x \<longleftrightarrow> s_State x \<noteq> SessionClosed \<and> \<not> (s_State x = SessionOffline \<and> s_Conn x = None)"

lemma droppable_sess_ok:
  "sess_ok g x \<Longrightarrow> droppable x \<longleftrightarrow> s_State x \<noteq> SessionClosed \<and> s_State x \<noteq> SessionOffline"
  by (auto simp: droppable_def sess_ok_def)

lemma onSessionOffline_sess:
  "g_sess (onSessionOffline e s g) =
     (if droppable (g_sess g s) then (g_sess g)(s := gone (now e) (g_sess g s)) else g_sess g)"
  by (auto simp: onSessionOffline_def droppable_def gone_def Let_def split: option.splits)

lemma onSessionOffline_conns:
  "g_conns (onSessionOffline e s g) =
     (case s_Conn (g_sess g s) of
        Some c \<Rightarrow> (if droppable (g_sess g s)
                   then (g_conns g)(c := (g_conns g c)\<lparr>c_closed := True\<rparr>) else g_conns g)
      | None \<Rightarrow> g_conns g)"
  by (auto simp: onSessionOffline_def droppable_def Let_def split: option.splits)

lemma onSessionOffline_fields [simp]:
  "g_connNext (onSessionOffline e s g) = g_connNext g"
  "heartbeatTimeout (onSessionOffline e s g) = heartbeatTimeout g"
  "loginTimeout (onSessionOffline e s g) = loginTimeout g"
  "nextID (onSessionOffline e s g) = nextID g"
  "unknownMsgKickCount (onSessionOffline e s g) = unknownMsgKickCount g"
  "gateHandlers (onSessionOffline e s g) = gateHandlers g"
  by (auto simp: onSessionOffline_def Let_def split: option.splits)

lemma onSessionOffline_sessionID [simp]:
  "c_sessionID (g_conns (onSessionOffline e s g) k) = c_sessionID (g_conns g k)"
  by (auto simp: onSessionOffline_conns split: option.split)

lemma lastAlive_closed [simp]: "lastAlive (k\<lparr>c_closed := b\<rparr>) = lastAlive k"
  by (simp add: lastAlive_def Let_def)

lemma onSessionOffline_alive [simp]:
  "lastAlive (g_conns (onSessionOffline e s g) c) = lastAlive (g_conns g c)"
  "c_connType (g_conns (onSessionOffline e s g) c) = c_connType (g_conns g c)"
  by (auto simp: onSessionOffline_conns split: option.split)

lemma gate_inv_Kick: "gate_inv g \<Longrightarrow> gate_inv (fst (Kick e sid g))"
  by (auto simp: Kick_def dest: gate_inv_getD split: option.split)

lemma gate_inv_onConnClose:
  assumes inv: "gate_inv g" shows "gate_inv (onConnClose e c g)"
proof (cases "sm_Get (c_sessionID (g_conns g c)) (sessions g)")
  case None
  with inv show ?thesis by (simp add: onConnClose_def)
next
  case (Some s)
  note d = gate_inv_getD [OF inv Some]
  have "gate_inv (upd_sess s (\<lambda>x. x\<lparr>s_Conn := None, s_State := SessionOffline, s_LastSeen := now e\<rparr>) g)"
    by (rule gate_inv_upd_sess [OF inv d(1)]) (use d(3,4) in \<open>auto simp: sess_ok_def\<close>)
  with Some show ?thesis
    by (simp add: onConnClose_def gate_inv_coreI [OF _ core_notifyPlayerOffline])
qed

end
