(* ===== verification/GateOps2.thy ===== *)
theory GateOps2
  imports GateOps
begin

text \<open>
  The invariant for the handlers: resume, login replies, client envelopes, and the two
  periodic visits of all sessions with their closed forms.
\<close>

subsection \<open>Resume\<close>

definition resumed_state :: "session \<Rightarrow> SessionState" where
  "resumed_state x = (if s_PlayerID x \<noteq> 0 then SessionAuthenticated else SessionOnline)"

lemma bindResumed_sess:
  "g_sess (bindResumed e s c g) =
     (g_sess g)(s := (g_sess g s)\<lparr>s_Conn := Some c, s_LastSeen := now e,
                                  s_State := resumed_state (g_sess g s)\<rparr>)"
  by (simp add: bindResumed_def resumed_state_def Let_def split: option.split)

lemma bindResumed_fields [simp]:
  "sessions (bindResumed e s c g) = sessions g" "g_sessNext (bindResumed e s c g) = g_sessNext g"
  "g_connNext (bindResumed e s c g) = g_connNext g" "nextID (bindResumed e s c g) = nextID g"
  "heartbeatTimeout (bindResumed e s c g) = heartbeatTimeout g"
  "unknownMsgKickCount (bindResumed e s c g) = 0"
  by (simp_all add: bindResumed_def Let_def split: option.split)

lemma sendResumeRsp_sessionID [simp]:
  "c_sessionID (g_conns (sendResumeRsp e c ok why g) k) = c_sessionID (g_conns g k)"
  by (simp add: sendResumeRsp_def)

lemma bindResumed_sessionID:
  "c_sessionID (g_conns (bindResumed e s c g) k) =
     (if k = c then s_ID (g_sess g s) else c_sessionID (g_conns g k))"
  by (simp add: bindResumed_def Let_def split: option.split)

lemma gate_inv_rebind:
  assumes inv: "gate_inv g" and s: "sm_Get (s_ID (g_sess g s)) (sessions g) = Some s"
    and c: "c < g_connNext g" "c_sessionID (g_conns g c) = 0"
    and g': "g_sess g' = (g_sess g)(s := x)" "sessions g' = sessions g"
      "g_sessNext g' = g_sessNext g" "g_connNext g' = g_connNext g" "nextID g' = nextID g"
      "\<And>k. c_sessionID (g_conns g' k) = (if k = c then s_ID (g_sess g s) else c_sessionID (g_conns g k))"
    and x: "s_ID x = s_ID (g_sess g s)" "s_Conn x = Some c"
      "s_State x \<in> {SessionOnline, SessionAuthenticated}"
  shows "gate_inv g'"
proof -
  note d = gate_inv_getD [OF inv s]
  have ok: "sess_ok g' (g_sess g' r)" if "r < g_sessNext g'" for r
  proof (cases "r = s")
    case True
    then show ?thesis using x c d g' by (auto simp: sess_ok_def)
  next
    case False
    have "sess_ok g (g_sess g r)" using gate_inv_sess_ok [OF inv] that g' by simp
    with False c g' show ?thesis by (auto simp: sess_ok_def)
  qed
  have id: "s_ID (g_sess g' r) = s_ID (g_sess g r)" for r using g' x by simp
  have st: "(s_State (g_sess g' r) = SessionClosed) = (s_State (g_sess g r) = SessionClosed)" for r
    using g' x d by auto
  show ?thesis unfolding gate_inv_def id st g'(2,3,4,5)
    using inv ok unfolding gate_inv_def g'(2,3,4,5) by blast
qed

lemma gate_inv_bindResumed:
  assumes "gate_inv g" "sm_Get sid (sessions g) = Some s"
    "c < g_connNext g" "c_sessionID (g_conns g c) = 0"
  shows "gate_inv (bindResumed e s c g)"
proof (rule gate_inv_rebind [OF assms(1) _ assms(3,4) bindResumed_sess])
  show "sm_Get (s_ID (g_sess g s)) (sessions g) = Some s"
    using assms(2) gate_inv_getD(2) [OF assms(1,2)] by simp
qed (simp_all add: bindResumed_sessionID resumed_state_def)

lemma gate_inv_handleResume:
  assumes inv: "gate_inv g" and c: "c < g_connNext g"
  shows "gate_inv (handleResume e c env g)"
  unfolding handleResume_def
  using gate_inv_coreI [OF inv core_conn_Close] gate_inv_coreI [OF inv core_rejectResume]
    gate_inv_bindResumed [OF inv _ c]
  by (auto split: option.split)

subsection \<open>Heartbeat requests, login replies\<close>

lemma gate_inv_touch:
  assumes inv: "gate_inv g" and s: "s < g_sessNext g"
    and f: "\<And>x. s_ID (f x) = s_ID x" "\<And>x. s_State (f x) = s_State x" "\<And>x. s_Conn (f x) = s_Conn x"
      "\<And>x. s_AuthStart (f x) = s_AuthStart x"
  shows "gate_inv (upd_sess s f g)"
  by (rule gate_inv_upd_sess [OF inv s])
    (use f gate_inv_sess_ok [OF inv s] in \<open>auto simp: sess_ok_def\<close>)

lemma gate_inv_onHeartbeat:
  assumes inv: "gate_inv g" shows "gate_inv (onHeartbeat e sid g)"
proof (cases "sm_Get sid (sessions g)")
  case None
  with inv show ?thesis by (simp add: onHeartbeat_def)
next
  case (Some s)
  let ?g1 = "upd_sess s (\<lambda>x. x\<lparr>s_LastSeen := now e\<rparr>) g"
  let ?g2 = "case s_Conn (g_sess ?g1 s) of None \<Rightarrow> ?g1 | Some c \<Rightarrow> markAlive c (now e) ?g1"
  have "gate_inv ?g1" by (rule gate_inv_touch [OF inv gate_inv_getD(1) [OF inv Some]]) simp_all
  moreover have "core_eq ?g1 ?g2" by (auto split: option.split)
  ultimately have "gate_inv ?g2" by (rule gate_inv_coreI)
  then have "gate_inv (fst (Reply sid MsgHeartbeatRsp [] ?g2))" by (rule gate_inv_coreI) simp
  with Some show ?thesis by (simp add: onHeartbeat_def Let_def)
qed

lemma gate_inv_player_less:
  "gate_inv g \<Longrightarrow> byPlayer (sessions g) p = Some r \<Longrightarrow> r < g_sessNext g"
  unfolding gate_inv_def by blast

lemma gate_inv_byPlayer:
  assumes inv: "gate_inv g" and m: "\<And>p r. m p = Some r \<Longrightarrow> r < g_sessNext g"
  shows "gate_inv (g\<lparr>sessions := (sessions g)\<lparr>byPlayer := m\<rparr>\<rparr>)" (is "gate_inv ?g")
proof -
  have ok: "sess_ok ?g x = sess_ok g x" for x by (simp add: sess_ok_def)
  have f: "g_sessNext ?g = g_sessNext g" "g_sess ?g = g_sess g"
    "bySession (sessions ?g) = bySession (sessions g)" "byPlayer (sessions ?g) = m"
    by simp_all
  show ?thesis unfolding gate_inv_def ok f using inv m unfolding gate_inv_def by blast
qed

text \<open>Binding a player changes one session's player and the player index.\<close>

lemma gate_inv_bindPlayer:
  assumes inv: "gate_inv g" and s: "s < g_sessNext g"
    and sm: "sm_BindPlayer s p (g_sess g) (sessions g) = (old, h, sm)"
  shows "gate_inv (g\<lparr>g_sess := h, sessions := sm\<rparr>)"
proof -
  have "gate_inv (upd_sess s (\<lambda>x. x\<lparr>s_PlayerID := p\<rparr>) g)"
    by (rule gate_inv_touch [OF inv s]) simp_all
  moreover have "((byPlayer (sessions g))(p \<mapsto> s)) q = Some r \<Longrightarrow> r < g_sessNext g" for q r
    using s gate_inv_player_less [OF inv] by (auto split: if_splits)
  ultimately have "gate_inv ((upd_sess s (\<lambda>x. x\<lparr>s_PlayerID := p\<rparr>) g)
      \<lparr>sessions := (sessions g)\<lparr>byPlayer := (byPlayer (sessions g))(p \<mapsto> s)\<rparr>\<rparr>)"
    using gate_inv_byPlayer [of "upd_sess s (\<lambda>x. x\<lparr>s_PlayerID := p\<rparr>) g"
        "(byPlayer (sessions g))(p \<mapsto> s)"] by simp
  moreover have "(upd_sess s (\<lambda>x. x\<lparr>s_PlayerID := p\<rparr>) g)
      \<lparr>sessions := (sessions g)\<lparr>byPlayer := (byPlayer (sessions g))(p \<mapsto> s)\<rparr>\<rparr> =
      g\<lparr>g_sess := h, sessions := sm\<rparr>"
    using sm by (auto simp: sm_BindPlayer_def upd_sess_def Let_def)
  ultimately show ?thesis by simp
qed

lemma Kick_fields [simp]:
  "g_sessNext (fst (Kick e sid g)) = g_sessNext g" "sessions (fst (Kick e sid g)) = sessions g"
  "g_connNext (fst (Kick e sid g)) = g_connNext g" "nextID (fst (Kick e sid g)) = nextID g"
  "heartbeatTimeout (fst (Kick e sid g)) = heartbeatTimeout g"
  "s_ID (g_sess (fst (Kick e sid g)) r) = s_ID (g_sess g r)"
  "s_PlayerID (g_sess (fst (Kick e sid g)) r) = s_PlayerID (g_sess g r)"
  "s_Token (g_sess (fst (Kick e sid g)) r) = s_Token (g_sess g r)"
  "c_sessionID (g_conns (fst (Kick e sid g)) k) = c_sessionID (g_conns g k)"
  by (auto simp: Kick_def onSessionOffline_sess split: option.split)

lemma Kick_sess:
  "g_sess (fst (Kick e sid g)) =
     (case sm_Get sid (sessions g) of
        None \<Rightarrow> g_sess g
      | Some s \<Rightarrow> (if s_Conn (g_sess g s) \<noteq> None \<and> droppable (g_sess g s)
                  then (g_sess g)(s := gone (now e) (g_sess g s)) else g_sess g))"
  by (auto simp: Kick_def onSessionOffline_sess split: option.split)

text \<open>\<open>onLoginRsp\<close> on a session that exists and a payload that parses.\<close>

definition kickOld :: "genv \<Rightarrow> sref \<Rightarrow> int64 \<Rightarrow> gate \<Rightarrow> gate" where
  "kickOld e s p g =
     (let g1 = (upd_sess s (\<lambda>x. x\<lparr>s_PlayerID := p\<rparr>) g)
                 \<lparr>sessions := (sessions g)\<lparr>byPlayer := (byPlayer (sessions g))(p \<mapsto> s)\<rparr>\<rparr>
      in case byPlayer (sessions g) p of
           None \<Rightarrow> g1
         | Some r \<Rightarrow> (if s_ID (g_sess g1 r) \<noteq> s_ID (g_sess g1 s)
                     then fst (Kick e (s_ID (g_sess g1 r)) g1) else g1))"

lemma onLoginRsp_alt:
  assumes "sm_Get sid (sessions g) = Some s" "unmarshalLoginRsp (codec e) payload = Some rsp"
  shows "onLoginRsp e sid payload g =
     (upd_sess s (\<lambda>x. x\<lparr>s_PlayerID := lrPlayerId rsp, s_State := SessionAuthenticated\<rparr>)
        (kickOld e s (lrPlayerId rsp) g))\<lparr>unknownMsgKickCount := 0\<rparr>"
  using assms
  by (simp add: onLoginRsp_def sm_BindPlayer_def kickOld_def Let_def upd_sess_def split: option.split)

lemma gate_inv_kickOld:
  assumes inv: "gate_inv g" and s: "s < g_sessNext g"
  shows "gate_inv (kickOld e s p g)"
proof -
  have "gate_inv ((upd_sess s (\<lambda>x. x\<lparr>s_PlayerID := p\<rparr>) g)
                 \<lparr>sessions := (sessions g)\<lparr>byPlayer := (byPlayer (sessions g))(p \<mapsto> s)\<rparr>\<rparr>)"
    using gate_inv_bindPlayer [OF inv s] by (simp add: sm_BindPlayer_def upd_sess_def)
  then show ?thesis
    by (auto simp: kickOld_def Let_def intro: gate_inv_Kick split: option.split)
qed

end
