(* ===== verification/GateOps3.thy ===== *)
theory GateOps3
  imports GateOps2
begin

text \<open>
  The invariant for login replies and client envelopes, and the closed forms of the periodic
  visits of all sessions.
\<close>

subsection \<open>Login replies\<close>

lemma kickOld_fields [simp]:
  "g_sessNext (kickOld e s p g) = g_sessNext g" "g_connNext (kickOld e s p g) = g_connNext g"
  "nextID (kickOld e s p g) = nextID g" "bySession (sessions (kickOld e s p g)) = bySession (sessions g)"
  "byPlayer (sessions (kickOld e s p g)) = (byPlayer (sessions g))(p \<mapsto> s)"
  "c_sessionID (g_conns (kickOld e s p g) k) = c_sessionID (g_conns g k)"
  "s_ID (g_sess (kickOld e s p g) r) = s_ID (g_sess g r)"
  "s_Token (g_sess (kickOld e s p g) r) = s_Token (g_sess g r)"
  "heartbeatTimeout (kickOld e s p g) = heartbeatTimeout g"
  by (auto simp: kickOld_def Let_def split: option.split)

text \<open>
  What happens to the sessions: the one that logs in gets the player, and the session the
  player was bound to before, when it is another one with a connection, goes offline.
\<close>

lemma kickOld_sess:
  assumes inv: "gate_inv g" and s: "sm_Get sid (sessions g) = Some s"
  shows "g_sess (kickOld e s p g) =
     (let h = (g_sess g)(s := (g_sess g s)\<lparr>s_PlayerID := p\<rparr>)
      in case byPlayer (sessions g) p of
           Some r \<Rightarrow> (if r \<noteq> s \<and> s_Conn (g_sess g r) \<noteq> None \<and> droppable (g_sess g r)
                     then h(r := gone (now e) (g_sess g r)) else h)
         | None \<Rightarrow> h)"
proof (cases "byPlayer (sessions g) p")
  case None
  then show ?thesis by (simp add: kickOld_def Let_def)
next
  case (Some r)
  note d = gate_inv_getD [OF inv s]
  have r: "r < g_sessNext g" using gate_inv_player_less [OF inv Some] .
  have id: "s_ID (g_sess g r) = s_ID (g_sess g s) \<longleftrightarrow> r = s"
    using inv r d(1) unfolding gate_inv_def by blast
  let ?g1 = "(upd_sess s (\<lambda>x. x\<lparr>s_PlayerID := p\<rparr>) g)
                 \<lparr>sessions := (sessions g)\<lparr>byPlayer := (byPlayer (sessions g))(p \<mapsto> s)\<rparr>\<rparr>"
  have get: "sm_Get (s_ID (g_sess g r)) (sessions ?g1) =
      (if s_State (g_sess g r) = SessionClosed then sm_Get (s_ID (g_sess g r)) (sessions g) else Some r)"
    using gate_inv_live_get [OF inv r] by (simp add: sm_Get_def)
  show ?thesis
  proof (cases "r = s \<or> s_State (g_sess g r) = SessionClosed")
    case True
    then show ?thesis
    proof
      assume "r = s"
      with Some show ?thesis by (simp add: kickOld_def Let_def)
    next
      assume cl: "s_State (g_sess g r) = SessionClosed"
      have "sm_Get (s_ID (g_sess g r)) (sessions g) = None"
        using gate_inv_getD [OF inv, of "s_ID (g_sess g r)"] cl r inv unfolding gate_inv_def
        by (metis option.exhaust)
      with Some cl show ?thesis
        by (simp add: kickOld_def Let_def Kick_def droppable_def sm_Get_def)
    qed
  next
    case False
    with Some get id show ?thesis
      by (simp add: kickOld_def Let_def Kick_sess droppable_def gone_def)
  qed
qed

lemma kickOld_self:
  assumes "gate_inv g" "sm_Get sid (sessions g) = Some s"
  shows "g_sess (kickOld e s p g) s = (g_sess g s)\<lparr>s_PlayerID := p\<rparr>"
  unfolding kickOld_sess [OF assms] by (simp add: Let_def split: option.split)

lemma gate_inv_onLoginRsp:
  assumes inv: "gate_inv g" shows "gate_inv (onLoginRsp e sid payload g)"
proof (cases "sm_Get sid (sessions g)")
  case None
  with inv show ?thesis by (simp add: onLoginRsp_def)
next
  case (Some s)
  note d = gate_inv_getD [OF inv Some]
  show ?thesis
  proof (cases "unmarshalLoginRsp (codec e) payload")
    case None
    with inv Some show ?thesis by (simp add: onLoginRsp_def)
  next
    case (Some rsp)
    let ?p = "lrPlayerId rsp"
    let ?k = "kickOld e s ?p g"
    note get = \<open>sm_Get sid (sessions g) = Some s\<close>
    have k: "gate_inv ?k" by (rule gate_inv_kickOld [OF inv d(1)])
    have "gate_inv (upd_sess s (\<lambda>x. x\<lparr>s_PlayerID := ?p, s_State := SessionAuthenticated\<rparr>) ?k)"
      by (rule gate_inv_upd_sess [OF k])
        (use d kickOld_self [OF inv get] in \<open>simp_all add: sess_ok_def\<close>)
    then show ?thesis
      unfolding onLoginRsp_alt [OF get Some] by (rule gate_inv_coreI) simp
  qed
qed

lemma gate_inv_OnServiceEnvelope:
  assumes inv: "gate_inv g" shows "gate_inv (OnServiceEnvelope e env g)"
  unfolding OnServiceEnvelope_def Let_def
  using gate_inv_coreI [OF inv core_Reply] gate_inv_coreI [OF gate_inv_onLoginRsp [OF inv] core_Reply]
  by (simp add: inv)

subsection \<open>Client envelopes\<close>

lemma allowLogin_step_frame [simp]:
  "s_ID (snd (allowLogin_step t l w x)) = s_ID x"
  "s_State (snd (allowLogin_step t l w x)) = s_State x"
  "s_Conn (snd (allowLogin_step t l w x)) = s_Conn x"
  "s_AuthStart (snd (allowLogin_step t l w x)) = s_AuthStart x"
  "s_PlayerID (snd (allowLogin_step t l w x)) = s_PlayerID x"
  "s_Token (snd (allowLogin_step t l w x)) = s_Token x"
  by (auto simp: allowLogin_step_def Let_def split: option.split)

lemma allowLogin_alt:
  "allowLogin e s g =
     (let st = allowLogin_step (now e) (loginRateLimitCount g) (loginRateLimitWindow g)
      in (fst (st (g_sess g s)), upd_sess s (\<lambda>x. snd (st x)) g))"
  by (simp add: allowLogin_def Let_def split_def upd_sess_def)

lemma gate_inv_allowLogin:
  "gate_inv g \<Longrightarrow> s < g_sessNext g \<Longrightarrow> gate_inv (snd (allowLogin e s g))"
  by (simp add: allowLogin_alt Let_def gate_inv_touch)

lemma allowLogin_fields [simp]:
  "sessions (snd (allowLogin e s g)) = sessions g" "g_sessNext (snd (allowLogin e s g)) = g_sessNext g"
  "g_connNext (snd (allowLogin e s g)) = g_connNext g" "nextID (snd (allowLogin e s g)) = nextID g"
  "g_conns (snd (allowLogin e s g)) = g_conns g"
  "heartbeatTimeout (snd (allowLogin e s g)) = heartbeatTimeout g"
  "gateHandlers (snd (allowLogin e s g)) = gateHandlers g"
  by (simp_all add: allowLogin_alt Let_def)

lemma createSession_next [simp]:
  "g_sessNext (snd (createSessionForConn e c g)) = Suc (g_sessNext g)"
  using core_createSessionForConn [of e c g] by (simp add: core_eq_def)

lemma gate_inv_firstLogin:
  assumes "gate_inv g" "c < g_connNext g" "c_sessionID (g_conns g c) = 0" "nextID g \<noteq> - 1"
  shows "gate_inv (firstLogin e c env g)"
proof -
  let ?g1 = "snd (createSessionForConn e c g)"
  have 1: "gate_inv ?g1" using assms by (rule gate_inv_createSession)
  have "gate_inv (snd (allowLogin e (g_sessNext g) ?g1))"
    by (rule gate_inv_allowLogin [OF 1]) simp
  then have 2: "core_eq (snd (allowLogin e (g_sessNext g) ?g1)) g' \<Longrightarrow> gate_inv g'" for g'
    by (rule gate_inv_coreI)
  show ?thesis
    by (auto simp: firstLogin_def Let_def split_def intro: 2)
qed

lemma gate_inv_handleDuplicateLogin:
  "gate_inv g \<Longrightarrow> gate_inv (handleDuplicateLogin e s c g)"
  by (simp add: handleDuplicateLogin_def gate_inv_Kick)

lemma gate_inv_loginBlock:
  assumes inv: "gate_inv g" and s: "s < g_sessNext g"
  shows "gate_inv (snd (loginBlock e s c g))"
proof -
  let ?g1 = "snd (allowLogin e s g)"
  have 1: "gate_inv ?g1" by (rule gate_inv_allowLogin [OF inv s])
  have 2: "gate_inv (?g1\<lparr>loginRateLimitCounted := n\<rparr>)" for n
    by (rule gate_inv_coreI [OF 1]) simp
  have 3: "gate_inv (upd_sess s (\<lambda>x. x\<lparr>s_State := SessionAuthing, s_AuthStart := Some (now e)\<rparr>) ?g1)"
    if "s_State (g_sess ?g1 s) = SessionOnline"
    by (rule gate_inv_upd_sess [OF 1])
      (use that s gate_inv_sess_ok [OF 1, of s] in \<open>auto simp: sess_ok_def\<close>)
  show ?thesis
    using 1 2 3 gate_inv_handleDuplicateLogin [OF 1]
    by (auto simp: loginBlock_def Let_def split_def split: SessionState.split)
qed

lemma gate_inv_unknownMsg:
  assumes inv: "gate_inv g" and s: "s < g_sessNext g"
  shows "gate_inv (unknownMsg e s g)"
proof -
  let ?g1 = "upd_sess s (\<lambda>x. x\<lparr>s_UnknownMsgCount := s_UnknownMsgCount x + 1\<rparr>) g"
  have "gate_inv ?g1" by (rule gate_inv_touch [OF inv s]) simp_all
  then have "gate_inv (?g1\<lparr>unknownMsgCount := n\<rparr>)" for n by (rule gate_inv_coreI) simp
  then show ?thesis using s by (auto simp: unknownMsg_def Let_def)
qed

lemma gate_inv_dispatchHandler:
  assumes "gate_inv g" "c < g_connNext g"
  shows "gate_inv (dispatchHandler e so c env g)"
proof (cases "RegGet (msg_id env) (gateHandlers g)")
  case None
  with assms show ?thesis by (simp add: dispatchHandler_def)
next
  case (Some h)
  have "gate_inv (runHandler e h so c env g)"
    using assms by (cases h; cases so) (simp_all add: gate_inv_handleResume gate_inv_onHeartbeat)
  with Some show ?thesis by (simp add: dispatchHandler_def)
qed

lemma gate_inv_routeEnvelope:
  assumes inv: "gate_inv g" and s: "s < g_sessNext g" and c: "c < g_connNext g"
  shows "gate_inv (routeEnvelope e s c env g)"
proof -
  have "gate_inv (upd_sess s (\<lambda>x. x\<lparr>s_LastSeen := now e\<rparr>) g)"
    by (rule gate_inv_touch [OF inv s]) simp_all
  then have "core_eq (upd_sess s (\<lambda>x. x\<lparr>s_LastSeen := now e\<rparr>) g) g' \<Longrightarrow> gate_inv g'" for g'
    by (rule gate_inv_coreI)
  then show ?thesis
    using inv gate_inv_unknownMsg [OF inv s] gate_inv_dispatchHandler [OF inv c]
    by (auto simp: routeEnvelope_def Let_def split: option.split TargetType.split)
qed

lemma loginBlock_fields [simp]:
  "g_sessNext (snd (loginBlock e s c g)) = g_sessNext g"
  "g_connNext (snd (loginBlock e s c g)) = g_connNext g"
  "nextID (snd (loginBlock e s c g)) = nextID g"
  "c_sessionID (g_conns (snd (loginBlock e s c g)) k) = c_sessionID (g_conns g k)"
  by (auto simp: loginBlock_def handleDuplicateLogin_def Let_def split_def split: SessionState.split)

lemma gate_inv_OnEnvelope:
  assumes inv: "gate_inv g" and c: "c < g_connNext g" and room: "nextID g \<noteq> - 1"
  shows "gate_inv (OnEnvelope e c env g)"
proof -
  have 1: "gate_inv (case loginBlock e s c g of (go_on, g) \<Rightarrow>
      if go_on then routeEnvelope e s c env g else g)" if "s < g_sessNext g" for s
    using gate_inv_loginBlock [OF inv that, of e c] that c
      gate_inv_routeEnvelope [of "snd (loginBlock e s c g)" s c e env]
    by (auto simp: split_def)
  show ?thesis
    using 1 gate_inv_coreI [OF inv core_conn_Close] gate_inv_firstLogin [OF inv c _ room]
      gate_inv_dispatchHandler [OF inv c] gate_inv_routeEnvelope [OF inv _ c] inv
      gate_inv_getD(1) [OF inv]
    by (auto simp: OnEnvelope_def split: option.split)
qed

lemma gate_inv_ReadLoop_env:
  assumes "gate_inv g" "c < g_connNext g" "nextID g \<noteq> - 1"
  shows "gate_inv (ReadLoop_env e c env g)"
  unfolding ReadLoop_env_def
  by (rule gate_inv_OnEnvelope [OF gate_inv_coreI [OF assms(1) core_markAlive]])
    (use assms in \<open>simp_all add: markAlive_def\<close>)

end
