(* ===== verification/GateSweep.thy ===== *)
theory GateSweep
  imports GateOps3
begin

text \<open>
  The periodic visits of all sessions: heartbeat timeouts, login timeouts and garbage
  collection, each in closed form, so that the result does not depend on the order in which
  the map is visited.
\<close>

subsection \<open>Enumerating the sessions\<close>

lemma in_map_filter: "r \<in> set (List.map_filter f xs) \<longleftrightarrow> (\<exists>x \<in> set xs. f x = Some r)"
  by (induction xs) (auto simp: map_filter_simps split: option.splits)

lemma sm_snapshot_set:
  "enumerates ord sm \<Longrightarrow> set (sm_snapshot ord sm) = ran (bySession sm)"
  unfolding sm_snapshot_def enumerates_def by (force simp: in_map_filter ran_def)

lemma distinct_map_filter_inj:
  "distinct xs \<Longrightarrow> (\<And>a b r. f a = Some r \<Longrightarrow> f b = Some r \<Longrightarrow> a = b) \<Longrightarrow> distinct (List.map_filter f xs)"
  by (induction xs) (auto simp: map_filter_simps in_map_filter split: option.splits)

lemma sm_snapshot_distinct:
  "index_ok h sm \<Longrightarrow> distinct ord \<Longrightarrow> distinct (sm_snapshot ord sm)"
  unfolding sm_snapshot_def by (rule distinct_map_filter_inj) (auto dest: index_ok_inj)

lemma sm_snapshot_less:
  assumes "gate_inv g" "r \<in> set (sm_snapshot ord (sessions g))"
  shows "r < g_sessNext g" "sm_Get (s_ID (g_sess g r)) (sessions g) = Some r"
proof -
  obtain sid where s: "sm_Get sid (sessions g) = Some r"
    using assms(2) by (auto simp: sm_snapshot_def in_map_filter sm_Get_def)
  then show "r < g_sessNext g" "sm_Get (s_ID (g_sess g r)) (sessions g) = Some r"
    using gate_inv_getD [OF assms(1) s] by simp_all
qed

subsection \<open>Visits that only take sessions offline\<close>

text \<open>
  A visit whose step either does nothing or takes its session offline, as a predicate of the
  state decides, when going offline elsewhere does not change the decision.
\<close>

definition offline_step ::
    "genv \<Rightarrow> (gate \<Rightarrow> sref \<Rightarrow> bool) \<Rightarrow> (sref \<Rightarrow> gate \<Rightarrow> gate) \<Rightarrow> bool" where
  "offline_step e dead f \<longleftrightarrow>
     (\<forall>s g. g_sess (f s g) =
        (if dead g s then (g_sess g)(s := gone (now e) (g_sess g s)) else g_sess g)) \<and>
     (\<forall>s g r. r \<noteq> s \<longrightarrow> dead (f s g) r = dead g r) \<and>
     (\<forall>s g. g_sessNext (f s g) = g_sessNext g \<and> sessions (f s g) = sessions g) \<and>
     (\<forall>s g. gate_inv g \<longrightarrow> s < g_sessNext g \<longrightarrow> gate_inv (f s g))"

lemma offline_fold:
  assumes f: "offline_step e dead f"
  shows "distinct rs \<Longrightarrow> g_sess (fold f rs g) =
     (\<lambda>r. if r \<in> set rs \<and> dead g r then gone (now e) (g_sess g r) else g_sess g r)"
proof (induction rs arbitrary: g)
  case Nil
  then show ?case by simp
next
  case (Cons s rs)
  from Cons.IH [of "f s g"] Cons.prems
  have "g_sess (fold f (s # rs) g) = (\<lambda>r. if r \<in> set rs \<and> dead (f s g) r
      then gone (now e) (g_sess (f s g) r) else g_sess (f s g) r)" by simp
  also have "\<dots> = (\<lambda>r. if r \<in> set (s # rs) \<and> dead g r
      then gone (now e) (g_sess g r) else g_sess g r)"
  proof (rule ext)
    fix r
    have "g_sess (f s g) r = (if r = s \<and> dead g s then gone (now e) (g_sess g s) else g_sess g r)"
      using f by (simp add: offline_step_def)
    moreover have "r \<noteq> s \<Longrightarrow> dead (f s g) r = dead g r" using f by (simp add: offline_step_def)
    ultimately show "(if r \<in> set rs \<and> dead (f s g) r then gone (now e) (g_sess (f s g) r)
        else g_sess (f s g) r) =
      (if r \<in> set (s # rs) \<and> dead g r then gone (now e) (g_sess g r) else g_sess g r)"
      using Cons.prems by (cases "r = s") auto
  qed
  finally show ?case .
qed

lemma offline_fold_inv:
  assumes f: "offline_step e dead f"
  shows "gate_inv g \<Longrightarrow> (\<And>r. r \<in> set rs \<Longrightarrow> r < g_sessNext g) \<Longrightarrow>
     gate_inv (fold f rs g) \<and> g_sessNext (fold f rs g) = g_sessNext g \<and>
     sessions (fold f rs g) = sessions g"
proof (induction rs arbitrary: g)
  case Nil
  then show ?case by simp
next
  case (Cons s rs)
  have "gate_inv (f s g)" and "g_sessNext (f s g) = g_sessNext g" "sessions (f s g) = sessions g"
    using f Cons.prems by (simp_all add: offline_step_def)
  with Cons.IH [of "f s g"] Cons.prems show ?case by simp
qed

subsection \<open>Heartbeat timeouts\<close>

definition hb_dead :: "genv \<Rightarrow> gate \<Rightarrow> sref \<Rightarrow> bool" where
  "hb_dead e g s \<longleftrightarrow>
     (case s_Conn (g_sess g s) of
        None \<Rightarrow> False
      | Some c \<Rightarrow> s_State (g_sess g s) = SessionOnline \<and>
          time_sub (now e) (lastAlive (g_conns g c)) > hb_timeout (heartbeatTimeout g) (g_conns g c))"

lemma hb_timeout_cong: "c_connType k = c_connType k' \<Longrightarrow> hb_timeout t k = hb_timeout t k'"
  by (simp add: hb_timeout_def)

lemma checkHeartbeat_one_alt:
  "checkHeartbeat_one e s g =
     (if hb_dead e g s
      then onSessionOffline e s (g\<lparr>heartbeatTimeoutCount := heartbeatTimeoutCount g + 1\<rparr>) else g)"
  by (auto simp: checkHeartbeat_one_def hb_dead_def Let_def split: option.split)

lemma hb_dead_droppable: "hb_dead e g s \<Longrightarrow> droppable (g_sess g s)"
  by (auto simp: hb_dead_def droppable_def split: option.splits)

lemma gate_inv_counter: "gate_inv g \<Longrightarrow> core_eq g g' \<Longrightarrow> s < g_sessNext g \<Longrightarrow>
    gate_inv (onSessionOffline e s g')"
  by (rule gate_inv_onSessionOffline) (auto dest: gate_inv_coreI simp: core_eq_def)

lemma heartbeat_offline_step: "offline_step e (hb_dead e) (checkHeartbeat_one e)"
  unfolding offline_step_def
proof (intro conjI allI impI)
  fix s g
  show "g_sess (checkHeartbeat_one e s g) =
      (if hb_dead e g s then (g_sess g)(s := gone (now e) (g_sess g s)) else g_sess g)"
    using hb_dead_droppable [of e g s] by (simp add: checkHeartbeat_one_alt onSessionOffline_sess)
  show "g_sessNext (checkHeartbeat_one e s g) = g_sessNext g"
    "sessions (checkHeartbeat_one e s g) = sessions g"
    by (simp_all add: checkHeartbeat_one_alt)
  show "gate_inv (checkHeartbeat_one e s g)" if "gate_inv g" "s < g_sessNext g"
    using that by (auto simp: checkHeartbeat_one_alt intro: gate_inv_counter)
  fix r :: sref assume "r \<noteq> s"
  then show "hb_dead e (checkHeartbeat_one e s g) r = hb_dead e g r"
    by (auto simp: checkHeartbeat_one_alt hb_dead_def [of e _ r] onSessionOffline_sess
        hb_timeout_def split: option.splits)
qed

lemma checkHeartbeat_closed_form:
  assumes inv: "gate_inv g" and ord: "enumerates ord (sessions g)" and on: "0 < heartbeatTimeout g"
  shows "g_sess (checkHeartbeat e ord g) =
     (\<lambda>r. if r \<in> ran (bySession (sessions g)) \<and> hb_dead e g r
          then gone (now e) (g_sess g r) else g_sess g r)"
proof -
  have "distinct (sm_snapshot ord (sessions g))"
    using sm_snapshot_distinct [OF gate_inv_index [OF inv]] ord by (simp add: enumerates_def)
  from offline_fold [OF heartbeat_offline_step this, of e g] on sm_snapshot_set [OF ord]
  show ?thesis by (simp add: checkHeartbeat_def)
qed

lemma gate_inv_checkHeartbeat: "gate_inv g \<Longrightarrow> gate_inv (checkHeartbeat e ord g)"
  using offline_fold_inv [OF heartbeat_offline_step, of g "sm_snapshot ord (sessions g)" e]
    sm_snapshot_less(1) [of g _ ord]
  by (simp add: checkHeartbeat_def)

subsection \<open>Login timeouts\<close>

definition au_dead :: "genv \<Rightarrow> gate \<Rightarrow> sref \<Rightarrow> bool" where
  "au_dead e g s \<longleftrightarrow> s_State (g_sess g s) = SessionAuthing \<and>
     time_sub_zero (now e) (s_AuthStart (g_sess g s)) > loginTimeout g"

lemma checkAuthing_one_alt:
  "checkAuthing_one e s g =
     (if au_dead e g s
      then onSessionOffline e s (g\<lparr>loginTimeoutCount := loginTimeoutCount g + 1\<rparr>) else g)"
  by (auto simp: checkAuthing_one_def au_dead_def)

lemma au_dead_droppable: "au_dead e g s \<Longrightarrow> droppable (g_sess g s)"
  by (auto simp: au_dead_def droppable_def)

lemma authing_offline_step: "offline_step e (au_dead e) (checkAuthing_one e)"
  unfolding offline_step_def
proof (intro conjI allI impI)
  fix s g
  show "g_sess (checkAuthing_one e s g) =
      (if au_dead e g s then (g_sess g)(s := gone (now e) (g_sess g s)) else g_sess g)"
    using au_dead_droppable [of e g s] by (simp add: checkAuthing_one_alt onSessionOffline_sess)
  show "g_sessNext (checkAuthing_one e s g) = g_sessNext g"
    "sessions (checkAuthing_one e s g) = sessions g"
    by (simp_all add: checkAuthing_one_alt)
  show "gate_inv (checkAuthing_one e s g)" if "gate_inv g" "s < g_sessNext g"
    using that by (auto simp: checkAuthing_one_alt intro: gate_inv_counter)
  fix r :: sref assume "r \<noteq> s"
  then show "au_dead e (checkAuthing_one e s g) r = au_dead e g r"
    by (simp add: checkAuthing_one_alt au_dead_def [of e _ r] onSessionOffline_sess)
qed

lemma checkAuthingTimeout_closed_form:
  assumes inv: "gate_inv g" and ord: "enumerates ord (sessions g)"
  shows "g_sess (checkAuthingTimeout e ord g) =
     (\<lambda>r. if r \<in> ran (bySession (sessions g)) \<and> au_dead e g r
          then gone (now e) (g_sess g r) else g_sess g r)"
proof -
  have "distinct (sm_snapshot ord (sessions g))"
    using sm_snapshot_distinct [OF gate_inv_index [OF inv]] ord by (simp add: enumerates_def)
  from offline_fold [OF authing_offline_step this, of e g] sm_snapshot_set [OF ord]
  show ?thesis by (simp add: checkAuthingTimeout_def)
qed

lemma checkAuthingTimeout_inv:
  "gate_inv g \<Longrightarrow> gate_inv (checkAuthingTimeout e ord g) \<and>
     g_sessNext (checkAuthingTimeout e ord g) = g_sessNext g \<and>
     sessions (checkAuthingTimeout e ord g) = sessions g"
  using offline_fold_inv [OF authing_offline_step, of g "sm_snapshot ord (sessions g)" e]
    sm_snapshot_less(1) [of g _ ord]
  by (simp add: checkAuthingTimeout_def)

subsection \<open>Garbage collection\<close>

definition gc_set :: "genv \<Rightarrow> gate \<Rightarrow> sref set" where
  "gc_set e g = {r. r \<in> ran (bySession (sessions g)) \<and>
     gc_expired (now e) (heartbeatTimeout g) (g_sess g r)}"

lemma gcSessions_closed_form:
  assumes inv: "gate_inv g" and ord: "enumerates ord (sessions g)"
  shows "gcSessions e ord g =
     g\<lparr>g_sess := gc_store (gc_set e g) (g_sess g),
       sessions := gc_index (gc_set e g) (g_sess g) (sessions g)\<rparr>"
proof -
  have "{r. \<exists>sid. bySession (sessions g) sid = Some r \<and>
      gc_expired (now e) (heartbeatTimeout g) (g_sess g r)} = gc_set e g"
    by (auto simp: gc_set_def ran_def)
  with sm_GC_closed_form [OF gate_inv_index [OF inv] ord, of "now e" "heartbeatTimeout g"]
  show ?thesis by (auto simp: gcSessions_def)
qed

lemma gate_inv_gc:
  assumes inv: "gate_inv g"
    and D: "\<And>r. r \<in> D \<Longrightarrow> r < g_sessNext g \<and> s_State (g_sess g r) = SessionOffline"
  shows "gate_inv (g\<lparr>g_sess := gc_store D (g_sess g), sessions := gc_index D (g_sess g) (sessions g)\<rparr>)"
    (is "gate_inv ?g")
proof -
  have ok: "sess_ok ?g (gc_store D (g_sess g) r)" if "r < g_sessNext g" for r
    using gate_inv_sess_ok [OF inv that] D [of r] by (auto simp: gc_store_def sess_ok_def)
  have id: "s_ID (gc_store D (g_sess g) r) = s_ID (g_sess g r)" for r by (simp add: gc_store_def)
  have f: "g_sessNext ?g = g_sessNext g" "g_sess ?g = gc_store D (g_sess g)"
    "sessions ?g = gc_index D (g_sess g) (sessions g)" by simp_all
  have cl: "s_State (gc_store D (g_sess g) r) = SessionClosed \<longleftrightarrow>
      r \<in> D \<or> s_State (g_sess g r) = SessionClosed" for r
    by (simp add: gc_store_def)
  show ?thesis unfolding gate_inv_def f id cl
  proof (intro conjI)
    show "\<forall>r<g_sessNext g. sess_ok ?g (gc_store D (g_sess g) r)" using ok by simp
    show "\<forall>r<g_sessNext g. \<forall>r'<g_sessNext g. s_ID (g_sess g r) = s_ID (g_sess g r') \<longrightarrow> r = r'"
      using inv unfolding gate_inv_def by blast
    show "\<forall>sid r. bySession (gc_index D (g_sess g) (sessions g)) sid = Some r \<longrightarrow>
        r < g_sessNext g \<and> s_ID (g_sess g r) = sid \<and> \<not> (r \<in> D \<or> s_State (g_sess g r) = SessionClosed)"
      using gate_inv_getD(1-3) [OF inv] by (auto simp: gc_index_def sm_Get_def split: option.splits if_splits)
    show "\<forall>r<g_sessNext g. \<not> (r \<in> D \<or> s_State (g_sess g r) = SessionClosed) \<longrightarrow>
        bySession (gc_index D (g_sess g) (sessions g)) (s_ID (g_sess g r)) = Some r"
      using gate_inv_live_get [OF inv] by (auto simp: gc_index_def sm_Get_def)
    show "\<forall>p r. byPlayer (gc_index D (g_sess g) (sessions g)) p = Some r \<longrightarrow> r < g_sessNext g"
      using gate_inv_player_less [OF inv] by (auto simp: gc_index_def split: if_splits)
  qed
qed

lemma gate_inv_gcSessions:
  assumes inv: "gate_inv g" and ord: "enumerates ord (sessions g)"
  shows "gate_inv (gcSessions e ord g)"
  unfolding gcSessions_closed_form [OF inv ord]
  by (rule gate_inv_gc [OF inv])
    (auto simp: gc_set_def gc_expired_def ran_def sm_Get_def dest: gate_inv_getD(1) [OF inv, unfolded sm_Get_def])

lemma gate_inv_gcTick:
  assumes "gate_inv g" "enumerates ord2 (sessions g)"
  shows "gate_inv (gcTick e ord1 ord2 g)"
  unfolding gcTick_def
  by (rule gate_inv_gcSessions) (use checkAuthingTimeout_inv [OF assms(1)] assms(2) in simp_all)

end
