(* ===== verification/Config.thy ===== *)
theory Config
  imports GateHandlers
begin

text \<open>
  The configuration records (\<open>internal/config/config.go\<close>) and how \<open>cmd/gate/main.go\<close>
  turns one into a running gate. Parsing the file is the JSON library's business. Durations
  are Go \<open>int64\<close> nanoseconds; the model keeps them as integers, which agrees as long as a
  configured number of seconds is below 2^63 / 10^9.
\<close>

record RedisConfig =
  rcfgAddr :: string
  rcfgPassword :: string
  rcfgDB :: int
  rcfgUIDKey :: string
  rcfgPoolSize :: int
  rcfgMinIdleConns :: int
  rcfgHealthCheckSec :: int

record GateConfig =
  ListenAddr :: string
  WebSocketListenAddr :: string
  WebSocketPath :: string
  EnableTCP :: bool
  EnableWebSocket :: bool
  WebSocketUseJSON :: bool
  ServiceAddr :: string
  GameAddr :: string
  ServicePoolSize :: int
  HeartbeatIntervalSec :: int
  HeartbeatTimeoutSec :: int
  GCIntervalSec :: int
  LoginTimeoutSec :: int
  LoginRateLimitCount :: int
  LoginRateLimitWindow :: int
  UnknownMsgKickCount :: int
  ConnReadTimeoutSec :: int
  ConnWriteTimeoutSec :: int
  ConnKeepAliveSec :: int
  MaxEnvelopeSize :: uint32

record ServiceConfig =
  svcListenAddr :: string
  svcGameAddr :: string
  svcConnReadTimeoutSec :: int
  svcConnWriteTimeoutSec :: int
  svcConnKeepAliveSec :: int
  svcMaxEnvelopeSize :: uint32
  svcRedis :: RedisConfig

record GameConfig =
  gmListenAddr :: string
  gmServerID :: string
  gmConnReadTimeoutSec :: int
  gmConnWriteTimeoutSec :: int
  gmConnKeepAliveSec :: int
  gmMaxEnvelopeSize :: uint32
  gmRedis :: RedisConfig

definition conn_options :: "int \<Rightarrow> int \<Rightarrow> int \<Rightarrow> ConnOptions" where
  "conn_options r w k =
     \<lparr>ReadTimeout = r * second, WriteTimeout = w * second, KeepAlive = k * second\<rparr>"

definition boot_gate :: "GateConfig \<Rightarrow> gate" where
  "boot_gate cfg =
     (let g = NewGate;
          connOpts = conn_options (ConnReadTimeoutSec cfg) (ConnWriteTimeoutSec cfg)
                       (ConnKeepAliveSec cfg);
          g = UpdateConfig (HeartbeatIntervalSec cfg * second) (HeartbeatTimeoutSec cfg * second)
                (GCIntervalSec cfg * second) (LoginTimeoutSec cfg * second)
                (LoginRateLimitCount cfg) (LoginRateLimitWindow cfg * second)
                (UnknownMsgKickCount cfg) connOpts g
      in ConnectService (ServiceAddr cfg) (ServicePoolSize cfg) g)"

text \<open>The listeners that run: TCP when neither is enabled.\<close>

definition enabled_listeners :: "GateConfig \<Rightarrow> bool \<times> bool" where
  "enabled_listeners cfg =
     (let tcp = EnableTCP cfg; ws = EnableWebSocket cfg
      in (tcp \<or> (\<not> tcp \<and> \<not> ws), ws))"

text \<open>A gate always starts with a positive heartbeat timeout and a non-empty pool.\<close>

lemma boot_gate_fields [simp]:
  "g_sessNext (boot_gate cfg) = 0" "g_connNext (boot_gate cfg) = 0" "nextID (boot_gate cfg) = 0"
  "sessions (boot_gate cfg) = NewSessionManager"
  "g_sess (boot_gate cfg) = (\<lambda>_. blank_session)" "g_conns (boot_gate cfg) = (\<lambda>_. blank_conn)"
  "gateHandlers (boot_gate cfg) = fst (registerHandlers NewRegistry)"
  by (simp_all add: boot_gate_def ConnectService_def UpdateConfig_def NewGate_def Let_def)

lemma boot_gate_timeouts:
  "0 < heartbeatTimeout (boot_gate cfg)" "0 < loginTimeout (boot_gate cfg)"
  "0 < heartbeatInterval (boot_gate cfg)" "0 < gcInterval (boot_gate cfg)"
  by (simp_all add: boot_gate_def ConnectService_def UpdateConfig_def NewGate_def Let_def second_def)

end
