(* ===== verification/GateStep.thy ===== *)
theory GateStep
  imports GateSweep Config
begin

text \<open>
  The gate as a state machine. An event is one thing a goroutine of the gate does while it
  holds no other goroutine's attention: accept a connection, handle an envelope read from a
  client or from the service, notice that a connection's reader ended, one tick of a
  periodic loop, one write to a socket. \<open>gate_step\<close> is what the event does;
  \<open>gate_reach\<close> are the states a booted gate can get to by any interleaving of events.
\<close>

datatype gate_event =
    AcceptTCP
  | AcceptWS
  | Receive cref Envelope
  | ReadEnds cref
  | FromService Envelope
  | HeartbeatTick "int64 list"
  | GcTick "int64 list" "int64 list"
  | StatsTick
  | ConnWriter conn_write cref
  | PoolWriter nat
  | PoolDial nat dial_event

definition upd_client :: "nat \<Rightarrow> (remoteClient \<Rightarrow> remoteClient) \<Rightarrow> gate \<Rightarrow> gate" where
  "upd_client i f g =
     (case servicePool g of
        None \<Rightarrow> g
      | Some p \<Rightarrow> g\<lparr>servicePool := Some (p\<lparr>clients := (clients p)[i := f (clients p ! i)]\<rparr>)\<rparr>)"

fun gate_step :: "genv \<Rightarrow> gate_event \<Rightarrow> gate \<Rightarrow> gate" where
  "gate_step e AcceptTCP g = snd (NewConn e g)"
| "gate_step e AcceptWS g = snd (NewWSConn e g)"
| "gate_step e (Receive c env) g = ReadLoop_env e c env g"
| "gate_step e (ReadEnds c) g = onConnClose e c g"
| "gate_step e (FromService env) g = OnServiceEnvelope e env g"
| "gate_step e (HeartbeatTick ord) g = heartbeatLoop e ord g"
| "gate_step e (GcTick ord1 ord2) g = gcLoop e ord1 ord2 g"
| "gate_step e StatsTick g = fst (reportStats g)"
| "gate_step e (ConnWriter w c) g = fst (conn_writeStep w c g)"
| "gate_step e (PoolWriter i) g = upd_client i (\<lambda>c. fst (rc_writeStep c)) g"
| "gate_step e (PoolDial i d) g = upd_client i (\<lambda>c. fst (dial_step d c)) g"

text \<open>
  When an event can happen: a connection has been accepted before it is read from, a tick
  visits exactly the sessions of the map, and ids do not wrap around to zero, which takes
  2^64 - 1 logins.
\<close>

fun gate_enabled :: "gate_event \<Rightarrow> gate \<Rightarrow> bool" where
  "gate_enabled (Receive c env) g = (c < g_connNext g \<and> nextID g \<noteq> - 1)"
| "gate_enabled (ReadEnds c) g = (c < g_connNext g)"
| "gate_enabled (HeartbeatTick ord) g = enumerates ord (sessions g)"
| "gate_enabled (GcTick ord1 ord2) g =
     (enumerates ord1 (sessions g) \<and> enumerates ord2 (sessions g))"
| "gate_enabled _ g = True"

inductive gate_reach :: "GateConfig \<Rightarrow> gate \<Rightarrow> bool" for cfg where
  boot: "gate_reach cfg (boot_gate cfg)"
| step: "gate_reach cfg g \<Longrightarrow> gate_enabled ev g \<Longrightarrow> gate_reach cfg (gate_step e ev g)"

inductive_cases gate_reachE: "gate_reach cfg g"

text \<open>Runs, for concrete traces.\<close>

fun gate_run :: "(genv \<times> gate_event) list \<Rightarrow> gate \<Rightarrow> gate" where
  "gate_run [] g = g"
| "gate_run ((e, ev) # tr) g = gate_run tr (gate_step e ev g)"

fun gate_run_ok :: "(genv \<times> gate_event) list \<Rightarrow> gate \<Rightarrow> bool" where
  "gate_run_ok [] g = True"
| "gate_run_ok ((e, ev) # tr) g = (gate_enabled ev g \<and> gate_run_ok tr (gate_step e ev g))"

lemma gate_run_reach:
  "gate_reach cfg g \<Longrightarrow> gate_run_ok tr g \<Longrightarrow> gate_reach cfg (gate_run tr g)"
  by (induction tr g rule: gate_run.induct) (auto intro: gate_reach.step)

subsection \<open>The invariant holds in every reachable state\<close>

lemma gate_inv_boot: "gate_inv (boot_gate cfg)"
  by (simp add: gate_inv_def NewSessionManager_def)

lemma core_upd_client [simp]: "core_eq g (upd_client i f g)"
  by (simp add: upd_client_def core_eq_def split: option.split)

lemma core_reportStats [simp]: "core_eq g (fst (reportStats g))"
  by (simp add: reportStats_def core_eq_def Let_def)

lemma gate_inv_step:
  assumes inv: "gate_inv g" and en: "gate_enabled ev g"
  shows "gate_inv (gate_step e ev g)"
proof (cases ev)
  case (Receive c env)
  with en show ?thesis by (simp add: gate_inv_ReadLoop_env [OF inv])
next
  case (GcTick ord1 ord2)
  with en show ?thesis by (simp add: gcLoop_def inv gate_inv_gcTick [OF inv])
qed (simp_all add: inv gate_inv_new_conn gate_inv_onConnClose gate_inv_OnServiceEnvelope
      gate_inv_checkHeartbeat heartbeatLoop_def gate_inv_coreI [OF inv])

lemma gate_reach_inv: "gate_reach cfg g \<Longrightarrow> gate_inv g"
  by (induction rule: gate_reach.induct) (auto simp: gate_inv_boot gate_inv_step)

end
