(* ===== verification/GateSettings.thy ===== *)
theory GateSettings
  imports GateStep
begin

text \<open>
  The settings of a running gate never change: intervals, timeouts, the login rate limit, the
  connection options and the handlers it registered. The one setting that does change,
  \<open>unknownMsgKickCount\<close>, is left out here on purpose.
\<close>

definition settings ::
    "gate \<Rightarrow> (duration \<times> duration \<times> duration \<times> duration) \<times> int \<times> duration \<times>
             GateHandler registry \<times> ConnOptions \<times> string" where
  "settings g = ((heartbeatInterval g, heartbeatTimeout g, gcInterval g, loginTimeout g),
     loginRateLimitCount g, loginRateLimitWindow g, gateHandlers g, connOptions g, gateName g)"

named_theorems settings_simps \<open>operations that keep the settings\<close>

lemma settings_upd [settings_simps]:
  "settings (g\<lparr>g_sess := a\<rparr>) = settings g" "settings (g\<lparr>g_sessNext := b\<rparr>) = settings g"
  "settings (g\<lparr>g_conns := d\<rparr>) = settings g" "settings (g\<lparr>g_connNext := b\<rparr>) = settings g"
  "settings (g\<lparr>sessions := h\<rparr>) = settings g" "settings (g\<lparr>servicePool := i\<rparr>) = settings g"
  "settings (g\<lparr>nextID := j\<rparr>) = settings g" "settings (g\<lparr>unknownMsgKickCount := k\<rparr>) = settings g"
  "settings (g\<lparr>nextTrace := n\<rparr>) = settings g"
  "settings (g\<lparr>heartbeatTimeoutCount := n\<rparr>) = settings g"
  "settings (g\<lparr>loginTimeoutCount := n\<rparr>) = settings g"
  "settings (g\<lparr>loginRateLimitCounted := n\<rparr>) = settings g"
  "settings (g\<lparr>unknownMsgCount := n\<rparr>) = settings g"
  "settings (g\<lparr>connBusyCount := n\<rparr>) = settings g"
  by (simp_all add: settings_def)

lemma settings_ptr [settings_simps]:
  "settings (upd_sess s f g) = settings g" "settings (upd_conn c h g) = settings g"
  by (simp_all add: upd_sess_def upd_conn_def settings_simps)

lemma settings_conn [settings_simps]:
  "settings (conn_Close c g) = settings g" "settings (fst (conn_Send c env g)) = settings g"
  "settings (markAlive c t g) = settings g" "settings (fst (conn_writeStep w c g)) = settings g"
  "settings (snd (NewConnWithTransport e g)) = settings g"
  by (auto simp: conn_Close_def conn_Send_def markAlive_def conn_writeStep_def
      NewConnWithTransport_def newTraceID_def Let_def settings_simps
      split: option.split conn_write.split)

lemma settings_new_conn [settings_simps]:
  "settings (snd (NewConn e g)) = settings g" "settings (snd (NewWSConn e g)) = settings g"
  by (simp_all add: NewConn_def NewWSConn_def Let_def split_def settings_simps)

lemma settings_send [settings_simps]:
  "settings (sendToService e m env g) = settings g" "settings (sendToGame e env g) = settings g"
  "settings (notifyPlayerOffline e s g) = settings g"
  "settings (notifyPlayerResume e s g) = settings g"
  by (simp_all add: sendToService_def sendToGame_def notifyPlayerOffline_def notifyPlayerResume_def
      Let_def split_def settings_simps split: option.split)

lemma settings_reply [settings_simps]:
  "settings (fst (Reply sid m d g)) = settings g"
  "settings (onSessionOffline e s g) = settings g"
  by (simp_all add: Reply_def onSessionOffline_def Let_def settings_simps split: option.split)

lemma settings_kick [settings_simps]:
  "settings (fst (Kick e sid g)) = settings g" "settings (onConnClose e c g) = settings g"
  by (simp_all add: Kick_def onConnClose_def settings_simps split: option.split)

lemma settings_create [settings_simps]:
  "settings (snd (createSessionForConn e c g)) = settings g"
  by (simp add: createSessionForConn_def newSession_def nextSessionID_def Let_def split_def settings_simps)

lemma settings_login [settings_simps]:
  "settings (snd (allowLogin e s g)) = settings g"
  "settings (handleDuplicateLogin e s c g) = settings g"
  by (simp_all add: allowLogin_def handleDuplicateLogin_def Let_def split_def settings_simps)

lemma settings_firstLogin [settings_simps]: "settings (firstLogin e c env g) = settings g"
  by (simp add: firstLogin_def Let_def split_def settings_simps)

lemma settings_loginBlock [settings_simps]: "settings (snd (loginBlock e s c g)) = settings g"
  by (simp add: loginBlock_def Let_def split_def settings_simps split: SessionState.split)

lemma settings_resume [settings_simps]:
  "settings (sendResumeRsp e c ok why g) = settings g"
  by (simp add: sendResumeRsp_def settings_simps)

lemma settings_bind [settings_simps]:
  "settings (rejectResume e c why g) = settings g" "settings (bindResumed e s c g) = settings g"
  by (simp_all add: rejectResume_def bindResumed_def Let_def settings_simps split: option.split)

lemma settings_handlers [settings_simps]:
  "settings (handleResume e c env g) = settings g" "settings (onHeartbeat e sid g) = settings g"
  by (simp_all add: handleResume_def onHeartbeat_def Let_def settings_simps split: option.split)

lemma settings_dispatch [settings_simps]:
  "settings (dispatchHandler e so c env g) = settings g" "settings (unknownMsg e s g) = settings g"
proof -
  have "settings (runHandler e h so c env g) = settings g" for h
    by (cases h; cases so) (simp_all add: settings_simps)
  then show "settings (dispatchHandler e so c env g) = settings g"
    by (simp add: dispatchHandler_def split: option.split)
  show "settings (unknownMsg e s g) = settings g"
    by (simp add: unknownMsg_def Let_def settings_simps)
qed

lemma settings_route [settings_simps]: "settings (routeEnvelope e s c env g) = settings g"
  by (simp add: routeEnvelope_def Let_def settings_simps split: option.split TargetType.split)

lemma settings_OnEnvelope [settings_simps]: "settings (OnEnvelope e c env g) = settings g"
  by (simp add: OnEnvelope_def Let_def split_def settings_simps split: option.split)

lemma settings_onLoginRsp [settings_simps]: "settings (onLoginRsp e sid p g) = settings g"
  by (simp add: onLoginRsp_def Let_def split_def settings_simps split: option.split)

lemma settings_fold:
  "(\<And>r g. settings (f r g) = settings g) \<Longrightarrow> settings (fold f rs g) = settings g"
  by (induction rs arbitrary: g) simp_all

lemma settings_sweeps [settings_simps]:
  "settings (checkHeartbeat e ord g) = settings g" "settings (checkAuthingTimeout e ord g) = settings g"
  "settings (gcSessions e ord g) = settings g"
  by (simp_all add: checkHeartbeat_def checkAuthingTimeout_def gcSessions_def Let_def split_def
      settings_simps settings_fold checkHeartbeat_one_alt checkAuthing_one_alt)

lemma settings_step: "settings (gate_step e ev g) = settings g"
  by (cases ev) (simp_all add: ReadLoop_env_def OnServiceEnvelope_def heartbeatLoop_def gcLoop_def
      gcTick_def reportStats_def upd_client_def Let_def settings_simps split: option.split)

lemma gate_reach_settings: "gate_reach cfg g \<Longrightarrow> settings g = settings (boot_gate cfg)"
  by (induction rule: gate_reach.induct) (simp_all add: settings_step)

lemma gate_reach_timeouts:
  assumes "gate_reach cfg g"
  shows "0 < heartbeatTimeout g" "0 < loginTimeout g" "0 < heartbeatInterval g" "0 < gcInterval g"
    "gateHandlers g = fst (registerHandlers NewRegistry)"
  using gate_reach_settings [OF assms] boot_gate_timeouts [of cfg]
  by (simp_all add: settings_def)

end
