(* ===== verification/GateLife.thy ===== *)
theory GateLife
  imports GateSettings
begin

text \<open>
  The life cycle of a session: the edges between its states that any single event of the
  gate can take, and what never changes about it.
\<close>

definition life_edge :: "SessionState \<Rightarrow> SessionState \<Rightarrow> bool" where
  "life_edge a b \<longleftrightarrow>
     (case b of
        SessionInit \<Rightarrow> False
      | SessionOnline \<Rightarrow> a = SessionAuthenticated \<or> a = SessionOffline
      | SessionAuthing \<Rightarrow> a = SessionOnline
      | SessionAuthenticated \<Rightarrow> a = SessionOnline \<or> a = SessionAuthing \<or> a = SessionOffline
      | SessionOffline \<Rightarrow> a = SessionOnline \<or> a = SessionAuthing \<or> a = SessionAuthenticated
      | SessionClosed \<Rightarrow> a = SessionOffline)"

definition sess_edge :: "session \<Rightarrow> session \<Rightarrow> bool" where
  "sess_edge x x' \<longleftrightarrow>
     s_ID x' = s_ID x \<and> s_Token x' = s_Token x \<and>
     (s_State x' = s_State x \<or> life_edge (s_State x) (s_State x'))"

lemma sess_edge_refl [simp]: "sess_edge x x"
  by (simp add: sess_edge_def)

definition lives :: "gate \<Rightarrow> gate \<Rightarrow> bool" where
  "lives g g' \<longleftrightarrow> (\<forall>r < g_sessNext g. sess_edge (g_sess g r) (g_sess g' r))"

lemma lives_same: "g_sess g' = g_sess g \<Longrightarrow> lives g g'"
  by (simp add: lives_def)

lemma lives_core: "core_eq g g' \<Longrightarrow> lives g g'"
  by (simp add: core_eq_def lives_same)

lemma lives_upd:
  "g_sess g' = (g_sess g)(s := x) \<Longrightarrow> sess_edge (g_sess g s) x \<Longrightarrow> lives g g'"
  by (auto simp: lives_def)

lemma lives_touch:
  "g_sess g' = (g_sess g)(s := x) \<Longrightarrow> s_ID x = s_ID (g_sess g s) \<Longrightarrow>
     s_Token x = s_Token (g_sess g s) \<Longrightarrow> s_State x = s_State (g_sess g s) \<Longrightarrow> lives g g'"
  by (rule lives_upd) (assumption, simp only: sess_edge_def, simp)

lemma edge_gone: "s_State x \<noteq> SessionClosed \<Longrightarrow> s_State x \<noteq> SessionInit \<Longrightarrow> sess_edge x (gone t x)"
  by (cases "s_State x") (simp_all add: sess_edge_def life_edge_def)

lemma live_not_init: "gate_inv g \<Longrightarrow> s < g_sessNext g \<Longrightarrow> s_State (g_sess g s) \<noteq> SessionInit"
  using gate_inv_sess_ok [of g s] by (simp add: sess_ok_def)

lemma lives_offline:
  "gate_inv g \<Longrightarrow> g_sess g0 = g_sess g \<Longrightarrow> lives g (onSessionOffline e s g0)"
  unfolding lives_def onSessionOffline_sess
  by (auto simp: droppable_def intro: edge_gone dest: live_not_init)

lemma lives_Kick: "gate_inv g \<Longrightarrow> lives g (fst (Kick e sid g))"
  by (auto simp: Kick_def lives_offline lives_same split: option.split)

lemma lives_onConnClose: "gate_inv g \<Longrightarrow> lives g (onConnClose e c g)"
proof (cases "sm_Get (c_sessionID (g_conns g c)) (sessions g)")
  case (Some s)
  assume inv: "gate_inv g"
  note d = gate_inv_getD [OF inv Some]
  have "sess_edge (g_sess g s) ((g_sess g s)\<lparr>s_Conn := None, s_State := SessionOffline, s_LastSeen := now e\<rparr>)"
    using d live_not_init [OF inv d(1)]
    by (cases "s_State (g_sess g s)") (simp_all add: sess_edge_def life_edge_def)
  with Some show ?thesis
    by (intro lives_upd [where s = s]) (simp_all add: onConnClose_def)
qed (simp add: onConnClose_def lives_same)

lemma lives_handleResume:
  assumes inv: "gate_inv g" shows "lives g (handleResume e c env g)"
proof -
  have *: "lives g (bindResumed e s c g)"
    if s: "sm_Get sid (sessions g) = Some s" "s_State (g_sess g s) \<noteq> SessionAuthing" for sid s
  proof (rule lives_upd [OF bindResumed_sess])
    note d = gate_inv_getD [OF inv s(1)]
    show "sess_edge (g_sess g s) ((g_sess g s)\<lparr>s_Conn := Some c, s_LastSeen := now e,
        s_State := resumed_state (g_sess g s)\<rparr>)"
      using d s(2) live_not_init [OF inv d(1)]
      by (cases "s_State (g_sess g s)") (simp_all add: sess_edge_def life_edge_def resumed_state_def)
  qed
  show ?thesis
    by (auto simp: handleResume_def * lives_core split: option.split)
qed

lemma lives_onHeartbeat: "lives g (onHeartbeat e sid g)"
proof (cases "sm_Get sid (sessions g)")
  case (Some s)
  have "g_sess (onHeartbeat e sid g) = (g_sess g)(s := (g_sess g s)\<lparr>s_LastSeen := now e\<rparr>)"
    using Some by (simp add: onHeartbeat_def Let_def markAlive_def split: option.split)
  then show ?thesis by (rule lives_touch) simp_all
qed (simp add: onHeartbeat_def lives_same)

lemma lives_dispatchHandler: "gate_inv g \<Longrightarrow> lives g (dispatchHandler e so c env g)"
proof (cases "RegGet (msg_id env) (gateHandlers g)")
  case (Some h)
  assume "gate_inv g"
  then have "lives g (runHandler e h so c env g)"
    by (cases h; cases so) (simp_all add: lives_handleResume lives_onHeartbeat lives_same)
  with Some show ?thesis by (simp add: dispatchHandler_def)
qed (simp add: dispatchHandler_def lives_same)

lemma lives_firstLogin: "lives g (firstLogin e c env g)"
proof -
  have 1: "r < g_sessNext g \<Longrightarrow> g_sess (snd (createSessionForConn e c g)) r = g_sess g r" for r
    using core_createSessionForConn [of e c g] by (simp add: core_eq_def)
  have "r < g_sessNext g \<Longrightarrow> g_sess (firstLogin e c env g) r = g_sess g r" for r
    using 1 by (simp add: firstLogin_def Let_def split_def allowLogin_alt)
  then show ?thesis by (simp add: lives_def)
qed

lemma unknownMsg_core:
  "\<exists>g1. g_sess g1 = (g_sess g)(s := (g_sess g s)\<lparr>s_UnknownMsgCount := s_UnknownMsgCount (g_sess g s) + 1\<rparr>) \<and>
     (unknownMsg e s g = g1 \<or> unknownMsg e s g = onSessionOffline e s g1)"
proof -
  let ?g1 = "(upd_sess s (\<lambda>x. x\<lparr>s_UnknownMsgCount := s_UnknownMsgCount x + 1\<rparr>) g)
      \<lparr>unknownMsgCount := unknownMsgCount g + 1\<rparr>"
  have c: "unknownMsgCount (upd_sess s f g) = unknownMsgCount g" for f by (simp add: upd_sess_def)
  have "unknownMsg e s g = ?g1 \<or> unknownMsg e s g = onSessionOffline e s ?g1"
    unfolding unknownMsg_def Let_def c by (simp split: if_split)
  then show ?thesis by (intro exI [of _ ?g1]) simp
qed

lemma lives_unknownMsg:
  assumes inv: "gate_inv g" and s: "s < g_sessNext g" shows "lives g (unknownMsg e s g)"
proof -
  let ?x = "(g_sess g s)\<lparr>s_UnknownMsgCount := s_UnknownMsgCount (g_sess g s) + 1\<rparr>"
  obtain g1 where g1: "g_sess g1 = (g_sess g)(s := ?x)"
    and u: "unknownMsg e s g = g1 \<or> unknownMsg e s g = onSessionOffline e s g1"
    using unknownMsg_core by blast
  have "lives g g1" by (rule lives_touch [OF g1]) simp_all
  moreover have "lives g (onSessionOffline e s g1)"
  proof (cases "droppable ?x")
    case True
    have "s_State (g_sess g s) \<noteq> SessionClosed" using True by (simp add: droppable_def)
    with live_not_init [OF inv s] have "sess_edge (g_sess g s) (gone (now e) ?x)"
      by (cases "s_State (g_sess g s)") (simp_all add: sess_edge_def life_edge_def)
    with True show ?thesis by (intro lives_upd [where s = s]) (simp_all add: onSessionOffline_sess g1)
  next
    case False
    with \<open>lives g g1\<close> show ?thesis by (simp add: lives_def onSessionOffline_sess g1)
  qed
  ultimately show ?thesis using u by auto
qed

lemma lives_routeEnvelope:
  assumes inv: "gate_inv g" and s: "s < g_sessNext g"
  shows "lives g (routeEnvelope e s c env g)"
proof -
  have "lives g g'" if "g_sess g' = (g_sess g)(s := (g_sess g s)\<lparr>s_LastSeen := now e\<rparr>)" for g'
    by (rule lives_touch [OF that]) simp_all
  then show ?thesis
    using lives_unknownMsg [OF inv s] lives_dispatchHandler [OF inv] lives_same [of g g]
    by (auto simp: routeEnvelope_def Let_def sendToGame_def split: option.split TargetType.split)
qed

text \<open>A login request is routed, so it changes only \<open>LastSeen\<close>.\<close>

lemma routeEnvelope_login:
  assumes "msg_id env = MsgLoginReq"
  shows "g_sess (routeEnvelope e s c env g) =
    (if s_State (g_sess g s) = SessionOnline then g_sess g
     else (g_sess g)(s := (g_sess g s)\<lparr>s_LastSeen := now e\<rparr>))"
proof -
  have "MsgLoginReq \<noteq> MsgHeartbeatReq" "GetRoute MsgLoginReq \<noteq> None"
    by (simp_all add: route_simps GetRoute_def routeTable_def)
  then show ?thesis using assms
    by (auto simp: routeEnvelope_def Let_def sendToGame_def split: option.split TargetType.split)
qed

lemma lives_loginPath:
  assumes inv: "gate_inv g" and s: "s < g_sessNext g" and m: "msg_id env = MsgLoginReq"
  shows "lives g (case loginBlock e s c g of (go_on, g) \<Rightarrow>
      if go_on then routeEnvelope e s c env g else g)"
proof -
  let ?a = "snd (allowLogin e s g)"
  have a: "g_sess ?a = (g_sess g)(s := snd (allowLogin_step (now e) (loginRateLimitCount g)
      (loginRateLimitWindow g) (g_sess g s)))"
    by (simp add: allowLogin_alt Let_def)
  have la: "lives g g'" if "g_sess g' = g_sess ?a" for g'
    by (rule lives_touch [where s = s and x = "g_sess ?a s"]) (simp_all add: that a)
  have st: "s_State (g_sess ?a s) = s_State (g_sess g s)" by (simp add: a)
  have inv_a: "gate_inv ?a" by (rule gate_inv_allowLogin [OF inv s])
  have kick: "lives g (handleDuplicateLogin e s c ?a)"
  proof -
    have "lives ?a (handleDuplicateLogin e s c ?a)"
      by (simp add: handleDuplicateLogin_def lives_Kick [OF inv_a] lives_same)
    moreover have "sess_edge (g_sess ?a r) x = sess_edge (g_sess g r) x" for r x
      by (cases "r = s") (simp_all add: a sess_edge_def)
    ultimately show ?thesis by (simp add: lives_def)
  qed
  have on: "lives g (routeEnvelope e s c env
      (upd_sess s (\<lambda>x. x\<lparr>s_State := SessionAuthing, s_AuthStart := Some (now e)\<rparr>) ?a))"
    if "s_State (g_sess g s) = SessionOnline"
  proof -
    let ?y = "snd (allowLogin_step (now e) (loginRateLimitCount g) (loginRateLimitWindow g) (g_sess g s))"
    have "sess_edge (g_sess g s)
        (?y\<lparr>s_State := SessionAuthing, s_AuthStart := Some (now e), s_LastSeen := now e\<rparr>)"
      using that unfolding sess_edge_def life_edge_def by simp
    then show ?thesis
      by (intro lives_upd [where s = s]) (simp_all add: routeEnvelope_login [OF m] a)
  qed
  have other: "lives g (routeEnvelope e s c env ?a)"
    by (rule lives_touch [where s = s and x = "if s_State (g_sess g s) = SessionOnline then g_sess ?a s
        else (g_sess ?a s)\<lparr>s_LastSeen := now e\<rparr>"]) (auto simp: routeEnvelope_login [OF m] a)
  show ?thesis
    using kick on other la st
    by (auto simp: loginBlock_def Let_def split_def split: SessionState.split)
qed

lemma lives_OnEnvelope:
  assumes inv: "gate_inv g" shows "lives g (OnEnvelope e c env g)"
  using lives_dispatchHandler [OF inv] lives_firstLogin lives_routeEnvelope [OF inv]
    lives_loginPath [OF inv] gate_inv_getD(1) [OF inv] lives_same [of _ g] lives_core [OF core_conn_Close]
  by (auto simp: OnEnvelope_def split: option.split)

lemma lives_onLoginRsp:
  assumes inv: "gate_inv g" shows "lives g (onLoginRsp e sid payload g)"
proof (cases "sm_Get sid (sessions g)")
  case None
  then show ?thesis by (simp add: onLoginRsp_def lives_same)
next
  case (Some s)
  note get = Some
  note d = gate_inv_getD [OF inv get]
  show ?thesis
  proof (cases "unmarshalLoginRsp (codec e) payload")
    case None
    with get show ?thesis by (simp add: onLoginRsp_def lives_same)
  next
    case (Some rsp)
    let ?p = "lrPlayerId rsp"
    have self: "sess_edge (g_sess g s)
        ((g_sess g s)\<lparr>s_PlayerID := ?p, s_State := SessionAuthenticated\<rparr>)"
      using d live_not_init [OF inv d(1)]
      by (cases "s_State (g_sess g s)") (simp_all add: sess_edge_def life_edge_def)
    have other: "sess_edge (g_sess g r) (g_sess (kickOld e s ?p g) r)" if "r < g_sessNext g" "r \<noteq> s" for r
      using that live_not_init [OF inv that(1)]
      by (auto simp: kickOld_sess [OF inv get] Let_def droppable_def intro: edge_gone split: option.split)
    show ?thesis
      unfolding lives_def onLoginRsp_alt [OF get Some]
      using self other by (auto simp: kickOld_self [OF inv get])
  qed
qed

lemma lives_sweep:
  assumes inv: "gate_inv g"
    and g': "\<And>r. g_sess g' r = (if P r \<and> droppable (g_sess g r) then gone t (g_sess g r) else g_sess g r)"
  shows "lives g g'"
  unfolding lives_def g' using live_not_init [OF inv] by (auto simp: droppable_def intro: edge_gone)

lemma gc_not_fresh: "0 \<le> timeout \<Longrightarrow> \<not> gc_expired t timeout (gone t x)"
  by (simp add: gc_expired_def time_sub_def)

lemma lives_gcTick:
  assumes inv: "gate_inv g" and pos: "0 \<le> heartbeatTimeout g"
    and ord: "enumerates ord1 (sessions g)" "enumerates ord2 (sessions g)"
  shows "lives g (gcTick e ord1 ord2 g)"
proof -
  let ?a = "checkAuthingTimeout e ord1 g"
  have a: "gate_inv ?a" "sessions ?a = sessions g" using checkAuthingTimeout_inv [OF inv] by simp_all
  have ht: "heartbeatTimeout ?a = heartbeatTimeout g"
  proof -
    have "heartbeatTimeout (fold (checkAuthing_one e) rs g) = heartbeatTimeout g" for rs
      by (induction rs arbitrary: g) (simp_all add: checkAuthing_one_alt)
    then show ?thesis by (simp add: checkAuthingTimeout_def)
  qed
  have s: "g_sess ?a r = (if r \<in> ran (bySession (sessions g)) \<and> au_dead e g r
      then gone (now e) (g_sess g r) else g_sess g r)" for r
    by (simp add: checkAuthingTimeout_closed_form [OF inv ord(1)])
  have gc: "gcTick e ord1 ord2 g = ?a\<lparr>g_sess := gc_store (gc_set e ?a) (g_sess ?a),
       sessions := gc_index (gc_set e ?a) (g_sess ?a) (sessions ?a)\<rparr>"
    unfolding gcTick_def by (rule gcSessions_closed_form) (use a ord in simp_all)
  show ?thesis unfolding lives_def
  proof (intro allI impI)
    fix r assume r: "r < g_sessNext g"
    have x: "g_sess (gcTick e ord1 ord2 g) r = (if r \<in> gc_set e ?a
        then (g_sess ?a r)\<lparr>s_State := SessionClosed\<rparr> else g_sess ?a r)"
      by (simp add: gc gc_store_def)
    show "sess_edge (g_sess g r) (g_sess (gcTick e ord1 ord2 g) r)"
    proof (cases "au_dead e g r \<and> r \<in> ran (bySession (sessions g))")
      case True
      then have "r \<notin> gc_set e ?a" using s gc_not_fresh [OF pos] by (simp add: gc_set_def ht)
      with True x s r live_not_init [OF inv r] show ?thesis
        by (auto simp: au_dead_def intro: edge_gone)
    next
      case False
      with x s show ?thesis
        by (auto simp: gc_set_def gc_expired_def sess_edge_def life_edge_def)
    qed
  qed
qed

lemma lives_step:
  assumes inv: "gate_inv g" and en: "gate_enabled ev g" and pos: "0 \<le> heartbeatTimeout g"
  shows "lives g (gate_step e ev g)"
proof (cases ev)
  case AcceptTCP
  then show ?thesis by (simp add: NewConn_def NewConnWithTransport_def newTraceID_def Let_def lives_same)
next
  case AcceptWS
  then show ?thesis by (simp add: NewWSConn_def NewConnWithTransport_def newTraceID_def Let_def lives_same)
next
  case (Receive c env)
  have "gate_inv (markAlive c (now e) g)" by (rule gate_inv_coreI [OF inv]) simp
  from lives_OnEnvelope [OF this] Receive show ?thesis
    by (simp add: ReadLoop_env_def lives_def markAlive_def)
next
  case (FromService env)
  have "lives g (onLoginRsp e sid p g)" for sid p by (rule lives_onLoginRsp [OF inv])
  with FromService show ?thesis
    by (auto simp: OnServiceEnvelope_def Let_def lives_def)
next
  case (HeartbeatTick ord)
  have "lives g (checkHeartbeat e ord g)" if "0 < heartbeatTimeout g"
    by (rule lives_sweep [OF inv, where P = "\<lambda>r. r \<in> ran (bySession (sessions g)) \<and> hb_dead e g r"])
      (use that en HeartbeatTick hb_dead_droppable in \<open>auto simp: checkHeartbeat_closed_form [OF inv]\<close>)
  then have "lives g (checkHeartbeat e ord g)"
    by (cases "0 < heartbeatTimeout g") (simp_all add: checkHeartbeat_def lives_same)
  with HeartbeatTick show ?thesis by (simp add: heartbeatLoop_def lives_same)
next
  case (GcTick ord1 ord2)
  with lives_gcTick [OF inv pos] en show ?thesis by (simp add: gcLoop_def lives_same)
qed (simp_all add: lives_onConnClose [OF inv] lives_core)

end
