(* ===== verification/Scenario.thy ===== *)
theory Scenario
  imports GateLife
begin

text \<open>
  A concrete run of a booted gate, used to show that the hypotheses of the gate's
  properties can hold: a client connects, logs in, is bound to a player by the service's
  reply, and a second connection then logs the same player in or resumes the session.
\<close>

definition demo_pb :: pb where
  "demo_pb =
     \<lparr>marshalEnvelope = (\<lambda>_. None), unmarshalEnvelope = (\<lambda>_. None),
      jsonMarshalEnvelope = (\<lambda>_. None), jsonUnmarshalEnvelope = (\<lambda>_. None),
      marshalSessionInit = (\<lambda>_. Some [1]),
      unmarshalResumeReq = (\<lambda>bs. case bs of
          [s] \<Rightarrow> Some \<lparr>rqSessionId = ucast s, rqToken = signResumeToken (Some [23, 42]) (ucast s)\<rparr>
        | _ \<Rightarrow> None),
      marshalResumeRsp = (\<lambda>_. Some [2]), unmarshalLoginReq = (\<lambda>_. None),
      marshalLoginRsp = (\<lambda>_. None),
      unmarshalLoginRsp = (\<lambda>bs. case bs of [p] \<Rightarrow> Some \<lparr>lrPlayerId = ucast p\<rparr> | _ \<Rightarrow> None),
      marshalErrorRsp = (\<lambda>_. None), marshalPlayerInitRsp = (\<lambda>_. None),
      marshalLoadPlayerDataRsp = (\<lambda>_. None)\<rparr>"

definition demo_env :: "time \<Rightarrow> genv" where
  "demo_env t = \<lparr>now = t, drain = (\<lambda>_. 0), nonce = Some [23, 42], codec = demo_pb\<rparr>"

definition demo_cfg :: GateConfig where
  "demo_cfg =
     \<lparr>ListenAddr = '':9000'', WebSocketListenAddr = '''', WebSocketPath = '''', EnableTCP = True,
      EnableWebSocket = False, WebSocketUseJSON = False, ServiceAddr = '':9001'', GameAddr = '''',
      ServicePoolSize = 1, HeartbeatIntervalSec = 10, HeartbeatTimeoutSec = 30,
      GCIntervalSec = 60, LoginTimeoutSec = 10, LoginRateLimitCount = 5,
      LoginRateLimitWindow = 10, UnknownMsgKickCount = 3, ConnReadTimeoutSec = 0,
      ConnWriteTimeoutSec = 0, ConnKeepAliveSec = 0, MaxEnvelopeSize = 0\<rparr>"

definition login_req :: Envelope where
  "login_req = \<lparr>eMsgId = to_int32 MsgLoginReq, eSessionId = 0, ePlayerId = 0, ePayload = []\<rparr>"

definition login_rsp :: "int64 \<Rightarrow> byte \<Rightarrow> Envelope" where
  "login_rsp sid p = \<lparr>eMsgId = to_int32 MsgLoginRsp, eSessionId = sid, ePlayerId = 0, ePayload = [p]\<rparr>"

definition resume_req :: "byte \<Rightarrow> Envelope" where
  "resume_req sid = \<lparr>eMsgId = to_int32 MsgResumeReq, eSessionId = 0, ePlayerId = 0, ePayload = [sid]\<rparr>"

text \<open>One connection, one session, logged in as player 7.\<close>

definition demo0 :: gate where "demo0 = boot_gate demo_cfg"
definition demo1 :: gate where "demo1 = gate_step (demo_env 100) AcceptTCP demo0"
definition demo2 :: gate where "demo2 = gate_step (demo_env 100) (Receive 0 login_req) demo1"
definition demo3 :: gate where "demo3 = gate_step (demo_env 200) (FromService (login_rsp 1 7)) demo2"

lemma demo_msgs [simp]:
  "msg_id login_req = MsgLoginReq" "msg_id (login_rsp s p) = MsgLoginRsp"
  "msg_id (resume_req b) = MsgResumeReq"
  "eSessionId (login_rsp s p) = s" "ePayload (login_rsp s p) = [p]" "ePayload (resume_req b) = [b]"
  by (simp_all add: login_req_def login_rsp_def resume_req_def route_simps)

lemma demo_env_simps [simp]:
  "now (demo_env t) = t" "nonce (demo_env t) = Some [23, 42]"
  "unmarshalLoginRsp (codec (demo_env t)) [p] = Some \<lparr>lrPlayerId = ucast p\<rparr>"
  "unmarshalResumeReq (codec (demo_env t)) [b] =
     Some \<lparr>rqSessionId = ucast b, rqToken = signResumeToken (Some [23, 42]) (ucast b)\<rparr>"
  by (simp_all add: demo_env_def demo_pb_def)

lemma demo1_state:
  "g_sess demo1 = (\<lambda>_. blank_session)" "g_sessNext demo1 = 0" "g_connNext demo1 = 1"
  "sessions demo1 = NewSessionManager" "nextID demo1 = 0" "c_sessionID (g_conns demo1 0) = 0"
  "gateHandlers demo1 = fst (registerHandlers NewRegistry)"
  by (simp_all add: demo1_def demo0_def NewConn_def NewConnWithTransport_def newTraceID_def Let_def)

text \<open>The first login of an unbound connection, on the sessions.\<close>

lemma firstLogin_state:
  fixes e c env g
  defines "g' \<equiv> firstLogin e c env g"
  shows "g_sess g' = (g_sess g)(g_sessNext g := snd (allowLogin_step (now e) (loginRateLimitCount g)
           (loginRateLimitWindow g) (g_sess (created e c g) (g_sessNext g))))"
    and "g_sessNext g' = Suc (g_sessNext g)" and "g_connNext g' = g_connNext g"
    and "sessions g' = sessions (created e c g)" and "nextID g' = nextID g + 1"
    and "c_sessionID (g_conns g' k) = (if k = c then nextID g + 1 else c_sessionID (g_conns g k))"
    and "gateHandlers g' = gateHandlers g"
proof -
  have f: "loginRateLimitCount (fst (conn_Send c m g1)) = loginRateLimitCount g1"
    "loginRateLimitWindow (fst (conn_Send c m g1)) = loginRateLimitWindow g1"
    "gateHandlers (fst (conn_Send c m g1)) = gateHandlers g1" for m g1
    by (simp_all add: conn_Send_def Let_def conn_Close_def upd_conn_def split: option.split)
  have l: "loginRateLimitCount (created e c g) = loginRateLimitCount g"
    "loginRateLimitWindow (created e c g) = loginRateLimitWindow g"
    "gateHandlers (created e c g) = gateHandlers g"
    by (simp_all add: created_def Let_def)
  have s: "(g_sess (created e c g))(g_sessNext g := x) = (g_sess g)(g_sessNext g := x)" for x
    by (simp add: created_def Let_def)
  show "g_sess g' = (g_sess g)(g_sessNext g := snd (allowLogin_step (now e) (loginRateLimitCount g)
           (loginRateLimitWindow g) (g_sess (created e c g) (g_sessNext g))))"
    by (simp add: g'_def firstLogin_def createSessionForConn_alt allowLogin_alt Let_def f l s)
  show "g_sessNext g' = Suc (g_sessNext g)" "g_connNext g' = g_connNext g"
    "sessions g' = sessions (created e c g)" "nextID g' = nextID g + 1"
    "c_sessionID (g_conns g' k) = (if k = c then nextID g + 1 else c_sessionID (g_conns g k))"
    "gateHandlers g' = gateHandlers g"
    by (simp_all add: g'_def firstLogin_def createSessionForConn_alt allowLogin_alt Let_def f l)
qed

lemma conn_Send_seen [simp]:
  "c_lastSeen (g_conns (fst (conn_Send c m g)) k) = c_lastSeen (g_conns g k)"
  "c_connType (g_conns (fst (conn_Send c m g)) k) = c_connType (g_conns g k)"
  by (auto simp: conn_Send_def Let_def conn_Close_def upd_conn_def split: option.split)

lemma firstLogin_seen:
  "c_lastSeen (g_conns (firstLogin e c env g) k) = c_lastSeen (g_conns g k)"
  "c_connType (g_conns (firstLogin e c env g) k) = c_connType (g_conns g k)"
  by (simp_all add: firstLogin_def createSessionForConn_alt allowLogin_alt Let_def)
    (simp_all add: created_def Let_def)

text \<open>A resume that is accepted, on the sessions.\<close>

lemma handleResume_accepts:
  assumes "c_sessionID (g_conns g c) = 0" "unmarshalResumeReq (codec e) (ePayload env) = Some req"
    and "sm_Get (rqSessionId req) (sessions g) = Some s" "verifyToken (g_sess g s) (rqToken req)"
    and "s_State (g_sess g s) \<noteq> SessionAuthing" "s_State (g_sess g s) \<noteq> SessionClosed"
  shows "handleResume e c env g = bindResumed e s c g"
  using assms by (simp add: handleResume_def)

lemma handlers_resume:
  "gateHandlers g = fst (registerHandlers NewRegistry) \<Longrightarrow> msg_id env = MsgResumeReq \<Longrightarrow>
     OnEnvelope e c env g = handleResume e c env g"
  by (simp add: OnEnvelope_def dispatchHandler_def RegGet_def registerHandlers_def Register_def
      NewRegistry_def route_simps)

text \<open>The states of the run, on sessions, index and bindings.\<close>

lemma demo2_step: "demo2 = firstLogin (demo_env 100) 0 login_req (markAlive 0 100 demo1)"
  using demo1_state by (simp add: demo2_def ReadLoop_env_def OnEnvelope_def markAlive_def route_simps)

lemma demo2_state:
  "s_ID (g_sess demo2 0) = 1" "s_State (g_sess demo2 0) = SessionOnline"
  "s_Conn (g_sess demo2 0) = Some 0" "s_PlayerID (g_sess demo2 0) = 0"
  "s_Token (g_sess demo2 0) = signResumeToken (Some [23, 42]) 1"
  "g_sessNext demo2 = 1" "g_connNext demo2 = 1" "nextID demo2 = 1"
  "bySession (sessions demo2) = [1 \<mapsto> 0]" "byPlayer (sessions demo2) = Map.empty"
  "c_sessionID (g_conns demo2 0) = 1"
  using demo1_state created_new [of "demo_env 100" 0 "markAlive 0 100 demo1"]
  by (simp_all add: demo2_step firstLogin_state markAlive_def NewSessionManager_def)

lemma demo2_reach: "gate_reach demo_cfg demo2"
proof -
  have "gate_reach demo_cfg demo1"
    unfolding demo1_def demo0_def by (intro gate_reach.intros) simp
  then show ?thesis
    unfolding demo2_def using demo1_state by (intro gate_reach.step) simp_all
qed

lemma demo3_step: "demo3 = fst (Reply 1 MsgLoginRsp [7] (onLoginRsp (demo_env 200) 1 [7] demo2))"
  by (simp add: demo3_def OnServiceEnvelope_def route_simps)

lemma demo3_reach: "gate_reach demo_cfg demo3"
  unfolding demo3_def by (rule gate_reach.step [OF demo2_reach]) simp

lemma demo3_state:
  "g_sess demo3 = (g_sess demo2)(0 := (g_sess demo2 0)\<lparr>s_PlayerID := 7, s_State := SessionAuthenticated\<rparr>)"
  "g_sessNext demo3 = 1" "g_connNext demo3 = 1" "nextID demo3 = 1"
  "bySession (sessions demo3) = [1 \<mapsto> 0]" "byPlayer (sessions demo3) = [7 \<mapsto> 0]"
  "c_sessionID (g_conns demo3 0) = 1"
proof -
  have get: "sm_Get 1 (sessions demo2) = Some 0" using demo2_state by (simp add: sm_Get_def)
  have k: "g_sess (kickOld (demo_env 200) 0 7 demo2) = (g_sess demo2)(0 := (g_sess demo2 0)\<lparr>s_PlayerID := 7\<rparr>)"
    using kickOld_sess [OF gate_reach_inv [OF demo2_reach] get] demo2_state by (simp add: Let_def)
  have core: "core_eq (onLoginRsp (demo_env 200) 1 [7] demo2) demo3"
    unfolding demo3_step by simp
  have "onLoginRsp (demo_env 200) 1 [7] demo2 =
      (upd_sess 0 (\<lambda>x. x\<lparr>s_PlayerID := 7, s_State := SessionAuthenticated\<rparr>)
        (kickOld (demo_env 200) 0 7 demo2))\<lparr>unknownMsgKickCount := 0\<rparr>"
    using onLoginRsp_alt [OF get, of "demo_env 200" "[7]" "\<lparr>lrPlayerId = 7\<rparr>"] by simp
  with core k demo2_state show "g_sess demo3 = (g_sess demo2)(0 := (g_sess demo2 0)\<lparr>s_PlayerID := 7, s_State := SessionAuthenticated\<rparr>)"
    "g_sessNext demo3 = 1" "g_connNext demo3 = 1" "nextID demo3 = 1"
    "bySession (sessions demo3) = [1 \<mapsto> 0]" "byPlayer (sessions demo3) = [7 \<mapsto> 0]"
    "c_sessionID (g_conns demo3 0) = 1"
    by (simp_all add: core_eq_def)
qed

subsection \<open>A second connection\<close>

lemma NewConn_fields [simp]:
  "g_sess (snd (NewConn e g)) = g_sess g" "g_sessNext (snd (NewConn e g)) = g_sessNext g"
  "sessions (snd (NewConn e g)) = sessions g" "nextID (snd (NewConn e g)) = nextID g"
  "g_connNext (snd (NewConn e g)) = Suc (g_connNext g)"
  "c_sessionID (g_conns (snd (NewConn e g)) k) =
     (if k = g_connNext g then 0 else c_sessionID (g_conns g k))"
  "gateHandlers (snd (NewConn e g)) = gateHandlers g"
  by (simp_all add: NewConn_def NewConnWithTransport_def newTraceID_def Let_def)

lemma markAlive_fields [simp]:
  "g_sess (markAlive c t g) = g_sess g" "g_sessNext (markAlive c t g) = g_sessNext g"
  "sessions (markAlive c t g) = sessions g" "nextID (markAlive c t g) = nextID g"
  "g_connNext (markAlive c t g) = g_connNext g"
  "c_sessionID (g_conns (markAlive c t g) k) = c_sessionID (g_conns g k)"
  "gateHandlers (markAlive c t g) = gateHandlers g"
  by (simp_all add: markAlive_def)

definition demo4 :: gate where "demo4 = gate_step (demo_env 300) AcceptTCP demo3"

lemma demo4_reach: "gate_reach demo_cfg demo4"
  unfolding demo4_def by (rule gate_reach.step [OF demo3_reach]) simp

lemma demo4_state:
  "g_sess demo4 = g_sess demo3" "g_sessNext demo4 = 1" "g_connNext demo4 = 2" "nextID demo4 = 1"
  "sessions demo4 = sessions demo3" "c_sessionID (g_conns demo4 0) = 1"
  "c_sessionID (g_conns demo4 1) = 0" "c_sessionID (g_conns demo4 (Suc 0)) = 0"
  by (simp_all add: demo4_def demo3_state)

text \<open>It resumes the session while the first connection is still there \<dots>\<close>

definition demoR :: gate where "demoR = gate_step (demo_env 400) (Receive 1 (resume_req 1)) demo4"

lemma demoR_reach: "gate_reach demo_cfg demoR"
  unfolding demoR_def using demo4_state by (intro gate_reach.step [OF demo4_reach]) simp

lemma demo4_token: "verifyToken (g_sess demo4 0) (signResumeToken (Some [23, 42]) 1)"
  using verifyToken_fresh [of "g_sess demo4 0" "[23, 42]"]
  by (simp add: demo4_state demo3_state demo2_state)

lemma demoR_step: "demoR = bindResumed (demo_env 400) 0 1 (markAlive 1 400 demo4)"
proof -
  have h: "gateHandlers (markAlive 1 400 demo4) = fst (registerHandlers NewRegistry)"
    using gate_reach_timeouts [OF demo4_reach] by simp
  have "demoR = handleResume (demo_env 400) 1 (resume_req 1) (markAlive 1 400 demo4)"
    using handlers_resume [OF h, of "resume_req 1"] by (simp add: demoR_def ReadLoop_env_def)
  also have "\<dots> = bindResumed (demo_env 400) 0 1 (markAlive 1 400 demo4)"
    by (rule handleResume_accepts)
      (use demo4_token in \<open>auto simp: demo4_state demo3_state demo2_state sm_Get_def\<close>)
  finally show ?thesis .
qed

lemma demoR_state:
  "s_Conn (g_sess demoR 0) = Some 1" "s_State (g_sess demoR 0) = SessionAuthenticated"
  "s_PlayerID (g_sess demoR 0) = 7" "s_ID (g_sess demoR 0) = 1" "sessions demoR = sessions demo3"
  "c_sessionID (g_conns demoR 0) = 1" "g_connNext demoR = 2"
  by (simp_all add: demoR_step bindResumed_sess bindResumed_sessionID demo4_state demo3_state
      demo2_state resumed_state_def)

text \<open>\<dots> or it logs in anew and the service binds the same player to the new session.\<close>

definition demo5 :: gate where "demo5 = gate_step (demo_env 400) (Receive 1 login_req) demo4"
definition demo6 :: gate where "demo6 = gate_step (demo_env 500) (FromService (login_rsp 2 7)) demo5"

lemma demo5_step: "demo5 = firstLogin (demo_env 400) 1 login_req (markAlive 1 400 demo4)"
  using demo4_state by (simp add: demo5_def ReadLoop_env_def OnEnvelope_def route_simps)

lemma demo5_reach: "gate_reach demo_cfg demo5"
  unfolding demo5_def using demo4_state by (intro gate_reach.step [OF demo4_reach]) simp

lemma demo5_state:
  "g_sess demo5 0 = g_sess demo3 0"
  "s_ID (g_sess demo5 1) = 2" "s_State (g_sess demo5 1) = SessionOnline"
  "s_Conn (g_sess demo5 1) = Some 1" "s_PlayerID (g_sess demo5 1) = 0"
  "g_sessNext demo5 = 2" "g_connNext demo5 = 2" "nextID demo5 = 2"
  "bySession (sessions demo5) = [1 \<mapsto> 0, 2 \<mapsto> 1]" "byPlayer (sessions demo5) = [7 \<mapsto> 0]"
  "c_sessionID (g_conns demo5 0) = 1" "c_sessionID (g_conns demo5 1) = 2"
  using demo4_state demo3_state created_new [of "demo_env 400" 1 "markAlive 1 400 demo4"]
  by (simp_all add: demo5_step firstLogin_state)

lemma demo6_reach: "gate_reach demo_cfg demo6"
  unfolding demo6_def by (rule gate_reach.step [OF demo5_reach]) simp

lemma demo6_state:
  "g_sess demo6 0 = gone 500 (g_sess demo3 0)"
  "g_sess demo6 1 = (g_sess demo5 1)\<lparr>s_PlayerID := 7, s_State := SessionAuthenticated\<rparr>"
  "bySession (sessions demo6) = [1 \<mapsto> 0, 2 \<mapsto> 1]" "byPlayer (sessions demo6) = [7 \<mapsto> 1]"
  "g_sessNext demo6 = 2" "g_connNext demo6 = 2" "nextID demo6 = 2"
proof -
  have get: "sm_Get 2 (sessions demo5) = Some 1" using demo5_state by (simp add: sm_Get_def)
  have k: "g_sess (kickOld (demo_env 500) 1 7 demo5) =
      (g_sess demo5)(1 := (g_sess demo5 1)\<lparr>s_PlayerID := 7\<rparr>, 0 := gone 500 (g_sess demo3 0))"
    using kickOld_sess [OF gate_reach_inv [OF demo5_reach] get] demo5_state
    by (simp add: Let_def droppable_def demo3_state demo2_state)
  have d6: "demo6 = fst (Reply 2 MsgLoginRsp [7] (onLoginRsp (demo_env 500) 2 [7] demo5))"
    by (simp add: demo6_def OnServiceEnvelope_def route_simps)
  have core: "core_eq (onLoginRsp (demo_env 500) 2 [7] demo5) demo6" unfolding d6 by simp
  have "onLoginRsp (demo_env 500) 2 [7] demo5 =
      (upd_sess 1 (\<lambda>x. x\<lparr>s_PlayerID := 7, s_State := SessionAuthenticated\<rparr>)
        (kickOld (demo_env 500) 1 7 demo5))\<lparr>unknownMsgKickCount := 0\<rparr>"
    using onLoginRsp_alt [OF get, of "demo_env 500" "[7]" "\<lparr>lrPlayerId = 7\<rparr>"] by simp
  with core k demo5_state show "g_sess demo6 0 = gone 500 (g_sess demo3 0)"
    "g_sess demo6 1 = (g_sess demo5 1)\<lparr>s_PlayerID := 7, s_State := SessionAuthenticated\<rparr>"
    "bySession (sessions demo6) = [1 \<mapsto> 0, 2 \<mapsto> 1]" "byPlayer (sessions demo6) = [7 \<mapsto> 1]"
    "g_sessNext demo6 = 2" "g_connNext demo6 = 2" "nextID demo6 = 2"
    by (simp_all add: core_eq_def)
qed

lemma demo2_conn: "c_lastSeen (g_conns demo2 0) = 100" "c_connType (g_conns demo2 0) = ConnTCP"
  by (simp_all add: demo2_step firstLogin_seen markAlive_def demo1_def NewConn_def
      NewConnWithTransport_def newTraceID_def demo0_def Let_def)

text \<open>The same facts for the address one written as a successor.\<close>

lemmas demo_suc [simp] = demoR_state(1) [unfolded One_nat_def] demo5_state(2-5) [unfolded One_nat_def]
  demo6_state(2) [unfolded One_nat_def] demo5_state(12) [unfolded One_nat_def]

end
