(* ===== verification/GateProps.thy ===== *)
theory GateProps
  imports Scenario
begin

text \<open>
  The gate's properties: what holds of its sessions in every reachable state, and what each
  handler does to them.
\<close>

subsection \<open>Sessions and their index\<close>

text \<open>
  C5: In every state a booted gate can reach, by any interleaving of its goroutines, the
  session map holds exactly the sessions that are not closed, each under its own id; no two
  sessions share an id; an offline or closed session has no connection, an online or
  authenticating one has a connection that belongs to it, and an authenticating one has its
  login timer running.
\<close>

theorem gate_sessions_consistent:
  assumes "gate_reach cfg g"
  shows "(bySession (sessions g) sid = Some r \<longleftrightarrow>
            r < g_sessNext g \<and> s_ID (g_sess g r) = sid \<and> s_State (g_sess g r) \<noteq> SessionClosed) \<and>
         inj_on (\<lambda>r. s_ID (g_sess g r)) {..< g_sessNext g} \<and>
         {r. r < g_sessNext g \<and> \<not> sess_ok g (g_sess g r)} = {}"
proof -
  note inv = gate_reach_inv [OF assms]
  have "inj_on (\<lambda>r. s_ID (g_sess g r)) {..< g_sessNext g}"
    using inv unfolding gate_inv_def inj_on_def by blast
  then show ?thesis
    using gate_inv_getD(1-3) [OF inv, of sid r] gate_inv_live_get [OF inv, of r]
      gate_inv_sess_ok [OF inv]
    by (auto simp: sm_Get_def)
qed

theorem gate_sessions_consistent_witness:
  "(bySession (sessions demo6) 2 = Some 1 \<longleftrightarrow>
      1 < g_sessNext demo6 \<and> s_ID (g_sess demo6 1) = 2 \<and> s_State (g_sess demo6 1) \<noteq> SessionClosed) \<and>
   inj_on (\<lambda>r. s_ID (g_sess demo6 r)) {..< g_sessNext demo6} \<and>
   {r. r < g_sessNext demo6 \<and> \<not> sess_ok demo6 (g_sess demo6 r)} = {}"
  by (rule gate_sessions_consistent [OF demo6_reach])

text \<open>
  C6: The life cycle. Whatever event happens, a session that exists keeps its id and its
  resume token, and its state moves at most along one edge of the life cycle: a closed
  session stays closed, only an offline session is closed, only an online one starts
  authenticating, and an authenticating one cannot fall back to online.
\<close>

theorem session_life_cycle:
  assumes "gate_reach cfg g" and "gate_enabled ev g" and "r < g_sessNext g"
  shows "s_ID (g_sess (gate_step e ev g) r) = s_ID (g_sess g r) \<and>
    s_Token (g_sess (gate_step e ev g) r) = s_Token (g_sess g r) \<and>
    (s_State (g_sess (gate_step e ev g) r) = s_State (g_sess g r) \<or>
     life_edge (s_State (g_sess g r)) (s_State (g_sess (gate_step e ev g) r)))"
  using lives_step [OF gate_reach_inv [OF assms(1)] assms(2), of e] assms(3)
    gate_reach_timeouts(1) [OF assms(1)]
  by (simp add: lives_def sess_edge_def)

theorem session_life_cycle_witness:
  "s_State (g_sess (gate_step (demo_env 500) (FromService (login_rsp 2 7)) demo5) 0) \<noteq>
     s_State (g_sess demo5 0) \<and>
   life_edge (s_State (g_sess demo5 0))
     (s_State (g_sess (gate_step (demo_env 500) (FromService (login_rsp 2 7)) demo5) 0))"
proof -
  have "gate_enabled (FromService (login_rsp 2 7)) demo5" and "0 < g_sessNext demo5"
    by (simp_all add: demo5_state)
  from session_life_cycle [OF demo5_reach this, of "demo_env 500"] show ?thesis
    unfolding demo6_def [symmetric] using demo6_state(1) demo5_state(1) by (simp add: demo3_state)
qed

subsection \<open>Logging in\<close>

text \<open>
  C9: A login reply of the service binds the player to the session it names, which becomes
  authenticated; another session the player was bound to, if it still has a connection, is
  taken offline and its connection is closed, so the new session replaces it.
\<close>

theorem login_replaces_previous_session:
  assumes "gate_reach cfg g" and "msg_id env = MsgLoginRsp"
    and "sm_Get (eSessionId env) (sessions g) = Some s"
    and "unmarshalLoginRsp (codec e) (ePayload env) = Some rsp"
    and "byPlayer (sessions g) (lrPlayerId rsp) = Some r" and "r \<noteq> s"
    and "s_Conn (g_sess g r) = Some c"
  shows "byPlayer (sessions (OnServiceEnvelope e env g)) (lrPlayerId rsp) = Some s \<and>
    s_PlayerID (g_sess (OnServiceEnvelope e env g) s) = lrPlayerId rsp \<and>
    s_State (g_sess (OnServiceEnvelope e env g) s) = SessionAuthenticated \<and>
    s_State (g_sess (OnServiceEnvelope e env g) r) = SessionOffline \<and>
    s_Conn (g_sess (OnServiceEnvelope e env g) r) = None \<and>
    c_closed (g_conns (OnServiceEnvelope e env g) c)"
proof -
  note inv = gate_reach_inv [OF assms(1)]
  let ?p = "lrPlayerId rsp" and ?l = "onLoginRsp e (eSessionId env) (ePayload env) g"
  have r: "r < g_sessNext g" by (rule gate_inv_player_less [OF inv assms(5)])
  have drop: "droppable (g_sess g r)"
    using gate_inv_sess_ok [OF inv r] assms(7) by (auto simp: droppable_def sess_ok_def)
  note l = onLoginRsp_alt [OF assms(3,4)]
  have k: "g_sess (kickOld e s ?p g) = (g_sess g)(s := (g_sess g s)\<lparr>s_PlayerID := ?p\<rparr>,
      r := gone (now e) (g_sess g r))"
    using kickOld_sess [OF inv assms(3), of e ?p] assms(5-7) drop by (simp add: Let_def)
  have same: "same_but_conns ?l (OnServiceEnvelope e env g)"
    using assms(2) unfolding OnServiceEnvelope_def Let_def
    by (auto simp: route_simps Reply_def conn_Send_same split: option.split)
  have s: "s < g_sessNext g" using gate_inv_getD [OF inv assms(3)] by simp
  have "s_ID (g_sess g r) \<noteq> s_ID (g_sess g s)"
    using inv r s assms(6) unfolding gate_inv_def by blast
  moreover have "sm_Get (s_ID (g_sess g r)) (sessions g) = Some r"
    using gate_inv_live_get [OF inv r] drop by (simp add: droppable_def)
  ultimately have "c_closed (g_conns (kickOld e s ?p g) c)"
    using assms(5-7) drop
    by (simp add: kickOld_def Let_def Kick_def sm_Get_def onSessionOffline_conns)
  with same k assms(6) show ?thesis
    by (simp add: same_but_conns_def l)
qed

theorem login_replaces_previous_session_witness:
  "byPlayer (sessions demo6) 7 = Some 1 \<and> s_PlayerID (g_sess demo6 1) = 7 \<and>
   s_State (g_sess demo6 1) = SessionAuthenticated \<and> s_State (g_sess demo6 0) = SessionOffline \<and>
   s_Conn (g_sess demo6 0) = None \<and> c_closed (g_conns demo6 0)"
  using login_replaces_previous_session [OF demo5_reach, of "login_rsp 2 7" 1 "demo_env 500"
      "\<lparr>lrPlayerId = 7\<rparr>" 0 0]
  by (simp add: demo6_def sm_Get_def demo5_state demo3_state demo2_state)

subsection \<open>Resuming\<close>

definition resumable :: "gate \<Rightarrow> ResumeReq \<Rightarrow> bool" where
  "resumable g req \<longleftrightarrow>
     (case sm_Get (rqSessionId req) (sessions g) of
        None \<Rightarrow> False
      | Some s \<Rightarrow> verifyToken (g_sess g s) (rqToken req) \<and>
                  s_State (g_sess g s) \<noteq> SessionAuthing \<and> s_State (g_sess g s) \<noteq> SessionClosed)"

lemma sendResumeRsp_closed:
  "c_closed (g_conns g k) \<Longrightarrow> c_closed (g_conns (sendResumeRsp e c ok why g) k)"
  using conn_Send_same unfolding sendResumeRsp_def same_but_conns_def by blast

lemma rejectResume_effect:
  "g_sess (rejectResume e c why g) = g_sess g" "c_closed (g_conns (rejectResume e c why g) c)"
  "c_sessionID (g_conns (rejectResume e c why g) k) = c_sessionID (g_conns g k)"
  "sessions (rejectResume e c why g) = sessions g"
  by (simp_all add: rejectResume_def)

text \<open>
  C8: A resume token is accepted for a session exactly when it is the token stored in the
  session and carries the gate's signature over the session's id and the token's nonce; every
  other string is refused.
\<close>

theorem token_accepted_iff:
  "verifyToken s token \<longleftrightarrow>
     token = s_Token s \<and>
     (\<exists>nonceHex. token = nonceHex @ ''.'' @ signTokenPayload (s_ID s) nonceHex \<and> CHR ''.'' \<notin> set nonceHex)"
proof
  assume v: "verifyToken s token"
  then obtain nh sg where sp: "split_on (CHR ''.'') token = [nh, sg]" and "sg = signTokenPayload (s_ID s) nh"
    by (auto simp: verifyToken_def Let_def split: list.splits if_splits)
  with split_on_two [OF sp] verifyToken_stored [OF v]
  show "token = s_Token s \<and> (\<exists>nonceHex. token = nonceHex @ ''.'' @ signTokenPayload (s_ID s) nonceHex \<and>
      CHR ''.'' \<notin> set nonceHex)" by auto
next
  assume "token = s_Token s \<and> (\<exists>nonceHex. token = nonceHex @ ''.'' @ signTokenPayload (s_ID s) nonceHex \<and>
      CHR ''.'' \<notin> set nonceHex)"
  then obtain nh where t: "token = s_Token s" "token = nh @ CHR ''.'' # signTokenPayload (s_ID s) nh"
    and nh: "CHR ''.'' \<notin> set nh" by auto
  have "split_on (CHR ''.'') token = [nh, signTokenPayload (s_ID s) nh]"
    unfolding t(2) by (simp add: split_on_append_sep [OF nh] split_on_no_sep signTokenPayload_def
        hex_encode_no_dot)
  then show "verifyToken s token" using t(1) by (simp add: verifyToken_def Let_def)
qed

end
