(* ===== verification/GateRouting.thy ===== *)
theory GateRouting
  imports Scenario
begin

text \<open>
  Which client envelopes the gate forwards, to which queue and under which player, and the
  order in which envelopes leave its queues.
\<close>

lemma sendToService_queue:
  assumes p: "servicePool g = Some p" "clients p \<noteq> []"
    and i: "i = pool_index (length (clients p)) (eSessionId env)"
    and room: "length (pool_queue p i) < ch_cap (rc_sendCh (clients p ! i))"
      "0 \<le> rc_sendRetryMax (clients p ! i)"
  shows "\<exists>p'. servicePool (sendToService e m env g) = Some p' \<and>
    pool_queue p' i = pool_queue p i @
      [case sm_Get (eSessionId env) (sessions g) of
         None \<Rightarrow> env | Some s \<Rightarrow> env\<lparr>ePlayerId := s_PlayerID (g_sess g s)\<rparr>] \<and>
    (\<forall>j. j \<noteq> i \<longrightarrow> pool_queue p' j = pool_queue p j)"
proof -
  let ?env = "case sm_Get (eSessionId env) (sessions g) of
      None \<Rightarrow> env | Some s \<Rightarrow> env\<lparr>ePlayerId := s_PlayerID (g_sess g s)\<rparr>"
  have less: "i < length (clients p)" using p(2) i by (simp add: pool_index_less)
  have s: "rc_Send (drain e) ?env (clients p ! i) =
      ((clients p ! i)\<lparr>rc_sendCh := (rc_sendCh (clients p ! i))
          \<lparr>ch_buf := ch_buf (rc_sendCh (clients p ! i)) @ [?env]\<rparr>\<rparr>, None)"
    by (rule rc_Send_room) (use room in \<open>simp_all add: pool_queue_def\<close>)
  have sid: "eSessionId ?env = eSessionId env" by (simp split: option.split)
  let ?c = "fst (rc_Send (drain e) ?env (clients p ! i))"
  have "sendToService e m env g = g\<lparr>servicePool := Some (p\<lparr>clients := (clients p)[i := ?c]\<rparr>)\<rparr>"
    unfolding sendToService_def Let_def using p(1)
    by (simp only: option.case sid pool_Send_eq [OF p(2) i] prod.case)
  then show ?thesis using less s by (simp add: pool_queue_def)
qed

text \<open>
  C20: A game message of a client is forwarded as soon as its session is authenticating, that
  is before the service has accepted the login, and it is forwarded for the player of the
  session that the envelope names, not of the connection it came in on: a client can send
  messages on behalf of every player whose session id it guesses.
\<close>

theorem forwarded_for_the_named_session:
  assumes "sm_Get (c_sessionID (g_conns g c)) (sessions g) = Some s" and "c_sessionID (g_conns g c) \<noteq> 0"
    and "s_State (g_sess g s) \<in> {SessionAuthing, SessionAuthenticated}"
    and "MsgGameBegin \<le> msg_id env" and "msg_id env < MsgGameEnd"
    and "sm_Get (eSessionId env) (sessions g) = Some victim"
    and "servicePool g = Some p" and "clients p \<noteq> []"
    and "i = pool_index (length (clients p)) (eSessionId env)"
    and "length (pool_queue p i) < ch_cap (rc_sendCh (clients p ! i))"
    and "0 \<le> rc_sendRetryMax (clients p ! i)"
  shows "\<exists>p'. servicePool (OnEnvelope e c env g) = Some p' \<and>
    pool_queue p' i = pool_queue p i @ [env\<lparr>ePlayerId := s_PlayerID (g_sess g victim)\<rparr>]"
proof -
  let ?g = "upd_sess s (\<lambda>x. x\<lparr>s_LastSeen := now e\<rparr>) g"
  have r: "GetRoute (msg_id env) = Some \<lparr>Target = TargetGame, Module = ''''\<rparr>"
    using assms(4,5) by (simp add: GetRoute_def route_simps)
  have "OnEnvelope e c env g = sendToGame e env ?g"
    using assms(1-5) r
    by (auto simp: OnEnvelope_def routeEnvelope_def Let_def route_simps)
  moreover have "\<exists>p'. servicePool (sendToService e '''' env ?g) = Some p' \<and>
    pool_queue p' i = pool_queue p i @
      [case sm_Get (eSessionId env) (sessions ?g) of
         None \<Rightarrow> env | Some s \<Rightarrow> env\<lparr>ePlayerId := s_PlayerID (g_sess ?g s)\<rparr>] \<and>
    (\<forall>j. j \<noteq> i \<longrightarrow> pool_queue p' j = pool_queue p j)"
    by (rule sendToService_queue) (use assms(7-11) in simp_all)
  ultimately show ?thesis using assms(6) by (auto simp: sendToGame_def split: if_splits)
qed

text \<open>A concrete attack: session 2 has asked to log in and not been answered yet.\<close>

definition demoA :: gate where "demoA = gate_step (demo_env 450) (Receive 1 login_req) demo5"

definition forged :: Envelope where
  "forged = \<lparr>eMsgId = 3001, eSessionId = 1, ePlayerId = 0, ePayload = [9]\<rparr>"

lemma demo5_limit: "loginRateLimitCount demo5 = 5" "loginRateLimitWindow demo5 = 10 * second"
  using gate_reach_settings [OF demo5_reach]
  by (simp_all add: settings_def boot_gate_def ConnectService_def UpdateConfig_def NewGate_def
      demo_cfg_def Let_def second_def)

lemma demo5_window:
  "s_LoginWindowStart (g_sess demo5 1) = Some 400" "s_LoginAttempts (g_sess demo5 1) = 1"
proof -
  have l: "loginRateLimitCount demo4 = 5" "loginRateLimitWindow demo4 = 10 * second"
    using gate_reach_settings [OF demo4_reach]
    by (simp_all add: settings_def boot_gate_def ConnectService_def UpdateConfig_def NewGate_def
        demo_cfg_def Let_def second_def)
  then show "s_LoginWindowStart (g_sess demo5 1) = Some 400" "s_LoginAttempts (g_sess demo5 1) = 1"
    by (simp_all add: demo5_step firstLogin_state demo4_state markAlive_def created_def Let_def
        allowLogin_step_def)
qed

lemma demoA_state:
  "s_State (g_sess demoA 1) = SessionAuthing" "s_PlayerID (g_sess demoA 1) = 0"
  "g_sess demoA 0 = g_sess demo5 0" "sessions demoA = sessions demo5"
  "c_sessionID (g_conns demoA 1) = 2" "s_AuthStart (g_sess demoA 1) = Some 450"
proof -
  let ?g = "markAlive 1 450 demo5"
  have ok: "allowLogin (demo_env 450) 1 ?g =
      (True, upd_sess 1 (\<lambda>x. snd (allowLogin_step 450 5 (10 * second) x)) ?g)"
    using demo5_window demo5_limit
    by (simp add: allowLogin_alt Let_def markAlive_def allowLogin_step_def time_sub_def minDuration_def
        maxDuration_def second_def)
  have get: "sm_Get (c_sessionID (g_conns ?g 1)) (sessions ?g) = Some 1" "c_sessionID (g_conns ?g 1) \<noteq> 0"
    "s_State (g_sess ?g 1) = SessionOnline"
    by (simp_all add: demo5_state sm_Get_def)
  define h where "h = upd_sess 1 (\<lambda>x. x\<lparr>s_State := SessionAuthing, s_AuthStart := Some 450\<rparr>)
      (upd_sess 1 (\<lambda>x. snd (allowLogin_step 450 5 (10 * second) x)) ?g)"
  have lb: "loginBlock (demo_env 450) 1 1 ?g = (True, h)"
    unfolding h_def loginBlock_def Let_def ok using get(3) by simp
  have "demoA = routeEnvelope (demo_env 450) 1 1 login_req h"
    using get lb by (simp add: demoA_def ReadLoop_env_def OnEnvelope_def route_simps)
  moreover have "s_State (g_sess h 1) = SessionAuthing" by (simp add: h_def)
  ultimately have d: "demoA = sendToService (demo_env 450) ''login'' login_req
      (upd_sess 1 (\<lambda>x. x\<lparr>s_LastSeen := 450\<rparr>) h)"
    by (simp add: routeEnvelope_def route_simps GetRoute_def)
  show "s_State (g_sess demoA 1) = SessionAuthing" "s_PlayerID (g_sess demoA 1) = 0"
    "g_sess demoA 0 = g_sess demo5 0" "sessions demoA = sessions demo5"
    "c_sessionID (g_conns demoA 1) = 2" "s_AuthStart (g_sess demoA 1) = Some 450"
    by (simp_all add: d h_def demo5_state)
qed

theorem forwarded_for_the_named_session_witness:
  "\<exists>p'. servicePool (OnEnvelope (demo_env 460) 1 forged
         (demoA\<lparr>servicePool := Some (newRemoteClientPool ''service'' '':9001'' 1 2 5000000)\<rparr>)) = Some p' \<and>
     pool_queue p' 0 = [forged\<lparr>ePlayerId := 7\<rparr>]"
  using forwarded_for_the_named_session [of
      "demoA\<lparr>servicePool := Some (newRemoteClientPool ''service'' '':9001'' 1 2 5000000)\<rparr>" 1 1 forged 0
      "newRemoteClientPool ''service'' '':9001'' 1 2 5000000" 0 "demo_env 460"]
    demoA_state
  by (simp add: demo5_state demo3_state demo2_state sm_Get_def forged_def route_simps
      newRemoteClientPool_def newRemoteClient_def pool_index_def pool_queue_def make_chan_def)

subsection \<open>What a connection writes\<close>

text \<open>
  A connection's queue under sends, steps of the writer with every outcome a write can have, and
  closes from elsewhere, with the envelopes it accepted and the envelopes it wrote.
\<close>

datatype conn_op = ConnSends Envelope | WriterDoes conn_write | ConnCloses

record conn_log =
  lg_accepted :: "Envelope list"
  lg_written :: "Envelope list"

definition no_log :: conn_log where
  "no_log = \<lparr>lg_accepted = [], lg_written = []\<rparr>"

fun conn_op_step :: "cref \<Rightarrow> conn_op \<Rightarrow> conn_log \<times> gate \<Rightarrow> conn_log \<times> gate" where
  "conn_op_step c (ConnSends env) (l, g) =
     (let (g', err) = conn_Send c env g
      in (if err = None then l\<lparr>lg_accepted := lg_accepted l @ [env]\<rparr> else l, g'))"
| "conn_op_step c (WriterDoes w) (l, g) =
     (let (g', out) = conn_writeStep w c g
      in (case out of None \<Rightarrow> l | Some env \<Rightarrow> l\<lparr>lg_written := lg_written l @ [env]\<rparr>, g'))"
| "conn_op_step c ConnCloses (l, g) = (l, conn_Close c g)"

definition conn_run :: "cref \<Rightarrow> conn_op list \<Rightarrow> conn_log \<times> gate \<Rightarrow> conn_log \<times> gate" where
  "conn_run c ops lg = fold (conn_op_step c) ops lg"

lemma conn_run_simps [simp]:
  "conn_run c [] lg = lg" "conn_run c (op # ops) lg = conn_run c ops (conn_op_step c op lg)"
  by (simp_all add: conn_run_def)

text \<open>
  What the run keeps, for the envelopes \<open>q\<close> queued at first: while the writer runs every
  envelope is written or queued; it stops with at most one lost, the one whose write failed.
\<close>

definition conn_ok :: "cref \<Rightarrow> Envelope list \<Rightarrow> nat \<Rightarrow> bool \<Rightarrow> conn_log \<times> gate \<Rightarrow> bool" where
  "conn_ok c q n failed lg \<longleftrightarrow>
     (let k = g_conns (snd lg) c
      in ch_cap (c_sendCh k) = n \<and> length (ch_buf (c_sendCh k)) \<le> n \<and>
         (\<exists>lost. q @ lg_accepted (fst lg) = lg_written (fst lg) @ lost @ ch_buf (c_sendCh k) \<and>
            (if c_writing k then lost = [] else c_closed k \<and> length lost \<le> 1 \<and> (lost \<noteq> [] \<longrightarrow> failed))))"

lemma conn_Send_cases:
  obtains (accepts) q where "try_send env (c_sendCh (g_conns g c)) = Some q"
      "conn_Send c env g = (upd_conn c (\<lambda>k. k\<lparr>c_sendCh := q\<rparr>) g, None)"
  | (refuses) g' where "conn_Send c env g = (g', Some ErrConnBusy)"
      "c_sendCh (g_conns g' c) = c_sendCh (g_conns g c)" "c_writing (g_conns g' c) = c_writing (g_conns g c)"
      "c_closed (g_conns g c) \<Longrightarrow> c_closed (g_conns g' c)"
proof (cases "try_send env (c_sendCh (g_conns g c))")
  case None
  then show thesis
    by (intro refuses [of "fst (conn_Send c env g)"]) (auto simp: conn_Send_def Let_def conn_Close_def)
qed (auto simp: conn_Send_def intro: accepts)

lemma conn_writeStep_cases:
  obtains (idle) "conn_writeStep w c g = (g, None)"
  | (writes) env q where "conn_writeStep w c g = (upd_conn c (\<lambda>k. k\<lparr>c_sendCh := q\<rparr>) g, Some env)"
      "try_recv (c_sendCh (g_conns g c)) = Some (env, q)" "c_writing (g_conns g c)"
  | (fails) env q where "w = WriteFails" "try_recv (c_sendCh (g_conns g c)) = Some (env, q)"
      "c_writing (g_conns g c)" "conn_writeStep w c g =
        (conn_Close c (upd_conn c (\<lambda>k. k\<lparr>c_writing := False\<rparr>) (upd_conn c (\<lambda>k. k\<lparr>c_sendCh := q\<rparr>) g)), None)"
  | (ends) "c_writing (g_conns g c)" "c_closed (g_conns g c)"
      "conn_writeStep w c g = (conn_Close c (upd_conn c (\<lambda>k. k\<lparr>c_writing := False\<rparr>) g), None)"
proof (cases "c_writing (g_conns g c)")
  case run: True
  show thesis
  proof (cases w)
    case SeesClosed
    then show thesis using idle ends run by (cases "c_closed (g_conns g c)") (simp_all add: conn_writeStep_def Let_def)
  qed (cases "try_recv (c_sendCh (g_conns g c))"; use idle writes fails run in
      \<open>force simp: conn_writeStep_def Let_def\<close>)+
qed (simp add: idle conn_writeStep_def Let_def)

lemma conn_ok_step:
  assumes ok: "conn_ok c q n failed lg"
  shows "conn_ok c q n (failed \<or> op = WriterDoes WriteFails) (conn_op_step c op lg)"
proof -
  obtain l g where lg: "lg = (l, g)" by force
  from ok lg obtain lost where cap: "ch_cap (c_sendCh (g_conns g c)) = n"
    "length (ch_buf (c_sendCh (g_conns g c))) \<le> n"
    and split: "q @ lg_accepted l = lg_written l @ lost @ ch_buf (c_sendCh (g_conns g c))"
    and lost: "if c_writing (g_conns g c) then lost = []
      else c_closed (g_conns g c) \<and> length lost \<le> 1 \<and> (lost \<noteq> [] \<longrightarrow> failed)"
    by (auto simp: conn_ok_def Let_def)
  show ?thesis
  proof (cases op)
    case (ConnSends env)
    show ?thesis
    proof (cases rule: conn_Send_cases [of env g c])
      case (accepts qq)
      with ch.send_SomeD [OF accepts(1)] cap split lost ConnSends lg show ?thesis
        by (auto simp: conn_ok_def intro!: exI [of _ lost] split: if_splits)
    next
      case (refuses g')
      with cap split lost ConnSends lg show ?thesis
        by (auto simp: conn_ok_def intro!: exI [of _ lost] split: if_splits)
    qed
  next
    case (WriterDoes w)
    show ?thesis
    proof (cases rule: conn_writeStep_cases [of w c g])
      case idle
      with cap split lost WriterDoes lg show ?thesis
        by (auto simp: conn_ok_def intro!: exI [of _ lost] split: if_splits)
    next
      case (writes env qq)
      with ch.recv_SomeD [OF writes(2)] cap split lost WriterDoes lg show ?thesis
        by (auto simp: conn_ok_def split: if_splits)
    next
      case (fails env qq)
      with ch.recv_SomeD [OF fails(2)] cap split lost WriterDoes lg show ?thesis
        by (auto simp: conn_ok_def conn_Close_def intro!: exI [of _ "[env]"] split: if_splits)
    next
      case ends
      with cap split lost WriterDoes lg show ?thesis
        by (auto simp: conn_ok_def conn_Close_def intro!: exI [of _ lost] split: if_splits)
    qed
  next
    case ConnCloses
    with cap split lost lg show ?thesis
      by (auto simp: conn_ok_def conn_Close_def intro!: exI [of _ lost] split: if_splits)
  qed
qed

lemma conn_ok_run:
  "conn_ok c q n failed lg \<Longrightarrow> conn_ok c q n (failed \<or> WriterDoes WriteFails \<in> set ops) (conn_run c ops lg)"
proof (induction ops arbitrary: failed lg)
  case (Cons op ops)
  show ?case using Cons.IH [OF conn_ok_step [OF Cons.prems, of op]]
    by (simp add: disj_assoc eq_commute [of "WriterDoes WriteFails"])
qed simp

text \<open>A writer that has stopped writes nothing more, and one that runs empties the queue.\<close>

lemma stopped_writer:
  "\<not> c_writing (g_conns (snd lg) c) \<Longrightarrow> lg_written (fst (conn_run c ops lg)) = lg_written (fst lg)"
proof (induction ops arbitrary: lg)
  case (Cons op ops)
  obtain l g where lg: "lg = (l, g)" by force
  have "\<not> c_writing (g_conns (snd (conn_op_step c op lg)) c) \<and>
      lg_written (fst (conn_op_step c op lg)) = lg_written (fst lg)"
  proof (cases op)
    case (ConnSends env)
    then show ?thesis using Cons.prems
      by (cases rule: conn_Send_cases [of env g c]) (auto simp: lg)
  qed (use Cons.prems in \<open>simp_all add: lg conn_writeStep_def conn_Close_def\<close>)
  with Cons.IH [of "conn_op_step c op lg"] show ?case by simp
qed simp

lemma running_writer:
  "c_writing (g_conns g c) \<Longrightarrow> qs = ch_buf (c_sendCh (g_conns g c)) \<Longrightarrow>
     lg_written (fst (conn_run c (replicate (length qs) (WriterDoes WriteOk)) (l, g))) = lg_written l @ qs"
proof (induction qs arbitrary: g l)
  case (Cons env qs)
  from ch.recv_some [OF Cons.prems(2) [symmetric]] obtain q where
    q: "try_recv (c_sendCh (g_conns g c)) = Some (env, q)" "ch_buf q = qs" by auto
  have "conn_writeStep WriteOk c g = (upd_conn c (\<lambda>k. k\<lparr>c_sendCh := q\<rparr>) g, Some env)"
    using q Cons.prems(1) by (simp add: conn_writeStep_def Let_def)
  with Cons.IH [of "upd_conn c (\<lambda>k. k\<lparr>c_sendCh := q\<rparr>) g"] Cons.prems(1) q(2) show ?case by simp
qed simp

text \<open>
  C11: What a client connection does with the envelopes it accepts, whatever sends, writes that
  succeed or fail, and closes are interleaved. They are written in the order in which they were
  accepted, each once, and the queue stays within its capacity. While the writer runs none is
  lost: those written and those still queued are all that were accepted, and as many successful
  writes as there are envelopes in the queue deliver the rest. Once the writer has stopped the
  connection is closed and nothing more is written, whatever happens; what was accepted and not
  written is then still in the queue, except for at most one envelope, whose write failed.
\<close>

theorem conn_delivers_in_order:
  assumes run: "conn_run c ops (no_log, g) = (l, g')" and w: "c_writing (g_conns g c)"
    and cap: "length (ch_buf (c_sendCh (g_conns g c))) \<le> ch_cap (c_sendCh (g_conns g c))"
  shows "length (ch_buf (c_sendCh (g_conns g' c))) \<le> ch_cap (c_sendCh (g_conns g c)) \<and>
    (\<exists>lost. ch_buf (c_sendCh (g_conns g c)) @ lg_accepted l =
        lg_written l @ lost @ ch_buf (c_sendCh (g_conns g' c)) \<and>
      (if c_writing (g_conns g' c) then
         lost = [] \<and>
         lg_written (fst (conn_run c (replicate (length (ch_buf (c_sendCh (g_conns g' c)))) (WriterDoes WriteOk)) (l, g'))) =
           ch_buf (c_sendCh (g_conns g c)) @ lg_accepted l
       else
         c_closed (g_conns g' c) \<and> length lost \<le> 1 \<and> (lost \<noteq> [] \<longrightarrow> WriterDoes WriteFails \<in> set ops) \<and>
         lg_written (fst (conn_run c later (l, g'))) = lg_written l))"
proof -
  have "conn_ok c (ch_buf (c_sendCh (g_conns g c))) (ch_cap (c_sendCh (g_conns g c))) False (no_log, g)"
    using w cap by (simp add: conn_ok_def no_log_def)
  from conn_ok_run [OF this, of ops] obtain lost where
    *: "length (ch_buf (c_sendCh (g_conns g' c))) \<le> ch_cap (c_sendCh (g_conns g c))"
    "ch_buf (c_sendCh (g_conns g c)) @ lg_accepted l = lg_written l @ lost @ ch_buf (c_sendCh (g_conns g' c))"
    "if c_writing (g_conns g' c) then lost = []
     else c_closed (g_conns g' c) \<and> length lost \<le> 1 \<and> (lost \<noteq> [] \<longrightarrow> WriterDoes WriteFails \<in> set ops)"
    by (auto simp: run conn_ok_def Let_def)
  then show ?thesis
    using running_writer [of g' c _ l, OF _ refl] stopped_writer [of "(l, g')" c later]
    by (intro conjI exI [of _ lost]) (auto split: if_splits)
qed

theorem conn_delivers_in_order_witness:
  "lg_written (fst (conn_run 0 [ConnSends login_req, ConnSends forged, WriterDoes WriteOk, WriterDoes WriteFails,
      ConnSends login_req, WriterDoes WriteOk] (no_log, demo1))) = [login_req] \<and>
   c_closed (g_conns (snd (conn_run 0 [ConnSends login_req, ConnSends forged, WriterDoes WriteOk,
      WriterDoes WriteFails] (no_log, demo1))) 0)"
proof -
  have k: "c_sendCh (g_conns demo1 0) = make_chan (8 * 1024)" "c_writing (g_conns demo1 0)"
    by (simp_all add: demo1_def demo0_def NewConn_def NewConnWithTransport_def newTraceID_def Let_def)
  let ?ops = "[ConnSends login_req, ConnSends forged, WriterDoes WriteOk, WriterDoes WriteFails]"
  obtain l g' where r: "conn_run 0 ?ops (no_log, demo1) = (l, g')" by force
  have f: "\<not> c_writing (g_conns g' 0)" "lg_written l = [login_req]"
    using r by (auto simp: conn_Send_def try_send_def conn_writeStep_def try_recv_def k Let_def no_log_def
        conn_Close_def make_chan_def)
  have "conn_run 0 (?ops @ [ConnSends login_req, WriterDoes WriteOk]) (no_log, demo1) =
      conn_run 0 [ConnSends login_req, WriterDoes WriteOk] (l, g')"
    using r by (simp add: conn_run_def)
  with conn_delivers_in_order [OF r k(2), of "[ConnSends login_req, WriterDoes WriteOk]"] r f show ?thesis
    by (auto simp: k simp del: conn_run_simps)
qed

subsection \<open>The connection pool to the service\<close>

text \<open>
  C12: Envelopes for one session always go through the same client of the pool, and every
  client's queue holds, after any sequence of sends with its writer running in between, a
  suffix of what was queued before followed by what it accepted, in the order of the sends:
  the service receives the messages of a session in the order the gate forwarded them.
\<close>

theorem pool_keeps_order:
  assumes "pool_SendAll dr es p = (acc, p')" and "i < length (clients p)"
  shows "(\<exists>k. pool_queue p' i = drop k (pool_queue p i @ for_client (length (clients p)) i acc)) \<and>
    set (for_client (length (clients p)) i acc) \<subseteq> set (for_client (length (clients p)) i es)"
proof -
  note t = pool_SendAll_at [OF assms(1) refl assms(2), THEN conjunct1]
  show ?thesis
    using rcl.transmit_all_ordered [OF t] rcl.transmit_all_subseq [OF t]
    by (simp add: pool_queue_def)
qed

theorem pool_keeps_order_witness:
  "\<exists>k. pool_queue (snd (pool_SendAll (\<lambda>_. 0) [(1, login_req), (1, forged)]
      (newRemoteClientPool ''service'' '':9001'' 1 2 5000000))) 0 = drop k [login_req, forged]"
proof -
  let ?p = "newRemoteClientPool ''service'' '':9001'' 1 2 5000000"
  obtain p' where r: "pool_SendAll (\<lambda>_. 0) [(1, login_req), (1, forged)] ?p =
      ([(1, login_req), (1, forged)], p')"
    by (simp add: newRemoteClientPool_def pool_Send_eq pool_index_def newRemoteClient_def
        rc_Send_room make_chan_def)
  have "(0::nat) < length (clients ?p)" by (simp add: newRemoteClientPool_def)
  from pool_keeps_order [OF r this, THEN conjunct1] r show ?thesis
    by (simp add: newRemoteClientPool_def newRemoteClient_def pool_queue_def make_chan_def pool_index_def)
qed

subsection \<open>A connection that was replaced\<close>

text \<open>
  The end of a connection's reader takes the session of its id offline without asking
  whether the session still uses this connection. After a resume from a new connection the
  reader of the old one, which the resume closed, ends and detaches the new connection: the
  session goes offline, the game is told that the player left, and the new connection stays
  open without a session behind it.
\<close>

lemma replaced_connection_takes_session_offline:
  assumes "sm_Get (c_sessionID (g_conns g old)) (sessions g) = Some s"
    and "s_Conn (g_sess g s) = Some new" and "new \<noteq> old"
  shows "s_Conn (g_sess (onConnClose e old g) s) = None \<and>
    s_State (g_sess (onConnClose e old g) s) = SessionOffline \<and>
    g_conns (onConnClose e old g) new = g_conns g new"
  using assms by (simp add: onConnClose_def)

lemma replaced_connection_takes_session_offline_witness:
  "s_Conn (g_sess demoR 0) = Some 1 \<and> s_Conn (g_sess (onConnClose (demo_env 401) 0 demoR) 0) = None"
  using replaced_connection_takes_session_offline [of demoR 0 0 1 "demo_env 401"]
  by (simp add: demoR_state demo3_state sm_Get_def)

end
