(* ===== verification/GateResume.thy ===== *)
theory GateResume
  imports GateRouting GateProps
begin

text \<open>
  A resume while the old connection of the session is still attached: what the resume does, and
  what the end of the old connection does afterwards.
\<close>

lemma markAlive_pool [simp]: "servicePool (markAlive c t g) = servicePool g"
  by (simp add: markAlive_def)

lemma Receive_resume:
  assumes "gate_reach cfg g" and "msg_id env = MsgResumeReq"
  shows "gate_step e (Receive c env) g = handleResume e c env (markAlive c (now e) g)"
  using handlers_resume [of "markAlive c (now e) g" env] gate_reach_timeouts(5) [OF assms(1)] assms(2)
  by (simp add: ReadLoop_env_def)

text \<open>A client whose session is offline, but whose connection still carries its id, is not heard.\<close>

lemma offline_client_ignored:
  assumes "gateHandlers g = fst (registerHandlers NewRegistry)"
    and "c_sessionID (g_conns g c) = sid" and "sid \<noteq> 0" and "sm_Get sid (sessions g) = Some s"
    and "s_State (g_sess g s) = SessionOffline"
  shows "g_sess (gate_step e (Receive c env) g) = g_sess g"
    and "servicePool (gate_step e (Receive c env) g) = servicePool g"
proof -
  let ?g = "markAlive c (now e) g"
  have "OnEnvelope e c env ?g \<in> {?g, conn_Close c ?g}"
  proof (cases "msg_id env = MsgResumeReq")
    case True
    then show ?thesis using handlers_resume [of ?g env] assms by (simp add: handleResume_def)
  next
    case False
    with assms show ?thesis by (simp add: OnEnvelope_def)
  qed
  moreover have "g_sess (conn_Close c ?g) = g_sess g" "servicePool (conn_Close c ?g) = servicePool g"
    using conn_Close_same [of ?g c] by (simp_all add: same_but_conns_def)
  ultimately show "g_sess (gate_step e (Receive c env) g) = g_sess g"
    "servicePool (gate_step e (Receive c env) g) = servicePool g"
    by (auto simp: ReadLoop_env_def)
qed

text \<open>What the game is told when a player goes offline or resumes.\<close>

definition offline_notice :: "int64 \<Rightarrow> int64 \<Rightarrow> Envelope" where
  "offline_notice sid p =
     \<lparr>eMsgId = to_int32 MsgPlayerOfflineNotify, eSessionId = sid, ePlayerId = p, ePayload = []\<rparr>"

definition resume_notice :: "int64 \<Rightarrow> int64 \<Rightarrow> Envelope" where
  "resume_notice sid p =
     \<lparr>eMsgId = to_int32 MsgPlayerResumeReq, eSessionId = sid, ePlayerId = p, ePayload = []\<rparr>"

lemma notice_simps [simp]:
  "eSessionId (offline_notice sid p) = sid" "ePlayerId (offline_notice sid p) = p"
  "msg_id (offline_notice sid p) = MsgPlayerOfflineNotify"
  "eSessionId (resume_notice sid p) = sid" "ePlayerId (resume_notice sid p) = p"
  "msg_id (resume_notice sid p) = MsgPlayerResumeReq"
  by (simp_all add: offline_notice_def resume_notice_def route_simps)

lemma notify_sends:
  assumes "sm_Get (s_ID (g_sess g s)) (sessions g) = Some s" and "s_PlayerID (g_sess g s) \<noteq> 0"
  shows "notifyPlayerOffline e s g = g\<lparr>servicePool := map_option (\<lambda>pool. fst (pool_Send (drain e) (s_ID (g_sess g s))
      (offline_notice (s_ID (g_sess g s)) (s_PlayerID (g_sess g s))) pool)) (servicePool g)\<rparr>"
    and "notifyPlayerResume e s g = g\<lparr>servicePool := map_option (\<lambda>pool. fst (pool_Send (drain e) (s_ID (g_sess g s))
      (resume_notice (s_ID (g_sess g s)) (s_PlayerID (g_sess g s))) pool)) (servicePool g)\<rparr>"
  using assms by (cases "servicePool g"; simp add: notifyPlayerOffline_def notifyPlayerResume_def sendToGame_def
      sendToService_def offline_notice_def resume_notice_def Let_def split_def)+

text \<open>The end of a connection whose session is in the map.\<close>

lemma onConnClose_sends:
  assumes "sm_Get (c_sessionID (g_conns g c)) (sessions g) = Some s"
    and "s_ID (g_sess g s) = c_sessionID (g_conns g c)"
    and "s_PlayerID (g_sess g s) = p" and "p \<noteq> 0"
  shows "onConnClose e c g = (upd_sess s (gone (now e)) g)\<lparr>servicePool :=
      map_option (\<lambda>pool. fst (pool_Send (drain e) (c_sessionID (g_conns g c))
        (offline_notice (c_sessionID (g_conns g c)) p) pool)) (servicePool g)\<rparr>"
proof -
  have f: "(\<lambda>x. x\<lparr>s_Conn := None, s_State := SessionOffline, s_LastSeen := now e\<rparr>) = gone (now e)"
    by (rule ext, rule session.equality) (simp_all add: gone_def)
  note notify_sends(1) [of "upd_sess s (gone (now e)) g" s e]
  then show ?thesis using assms by (simp add: onConnClose_def f)
qed

text \<open>
  C21: The end of a connection's reader takes the session of its id offline without asking
  whether the session still uses this connection. So a resume that replaces a connection that
  is still attached is undone by itself: it attaches the session to the new connection and
  closes the old one; the reader of the old one ends and takes the session offline again, and
  the game is told that the player left. The new connection stays as it was, but whatever its
  client sends from then on changes no session and is not forwarded.
\<close>

theorem resume_undone_by_replaced_connection:
  assumes "gate_reach cfg g" and "c < g_connNext g" and "nextID g \<noteq> - 1"
    and "c_sessionID (g_conns g c) = 0" and "msg_id env = MsgResumeReq"
    and "unmarshalResumeReq (codec e) (ePayload env) = Some req" and "resumable g req"
    and "sm_Get (rqSessionId req) (sessions g) = Some s" and "s_Conn (g_sess g s) = Some old"
    and "s_PlayerID (g_sess g s) = p" and "p \<noteq> 0"
    and "g1 = gate_step e (Receive c env) g"
    and "g2 = gate_step e' (ReadEnds old) g1"
  shows "s_Conn (g_sess g1 s) = Some c \<and> s_State (g_sess g1 s) = SessionAuthenticated \<and>
    c_closed (g_conns g1 old) \<and>
    s_Conn (g_sess g2 s) = None \<and> s_State (g_sess g2 s) = SessionOffline \<and>
    servicePool g2 = map_option (\<lambda>pool. fst (pool_Send (drain e') (rqSessionId req)
      (offline_notice (rqSessionId req) p) pool)) (servicePool g1) \<and>
    g_conns g2 c = g_conns g1 c \<and>
    g_sess (gate_step e'' (Receive c env') g2) = g_sess g2 \<and>
    servicePool (gate_step e'' (Receive c env') g2) = servicePool g2"
proof -
  let ?g = "markAlive c (now e) g" and ?sid = "rqSessionId req"
  note d = gate_inv_getD [OF gate_reach_inv [OF assms(1)] assms(8)]
  have old: "old < g_connNext g" "c_sessionID (g_conns g old) = ?sid"
    using d(2,4) assms(9) by (auto simp: sess_ok_def)
  then have ne: "old \<noteq> c" using assms(4) d(5) by auto
  have "handleResume e c env ?g = bindResumed e s c ?g"
    by (rule handleResume_accepts [where req = req])
      (use assms(4,6-8) in \<open>auto simp: resumable_def\<close>)
  then have g1: "g1 = bindResumed e s c ?g" using Receive_resume [OF assms(1,5)] assms(12) by simp
  have s1: "g_sess g1 = (g_sess g)(s := (g_sess g s)\<lparr>s_Conn := Some c, s_LastSeen := now e,
      s_State := SessionAuthenticated\<rparr>)" "sessions g1 = sessions g" "c_sessionID (g_conns g1 old) = ?sid"
      "c_sessionID (g_conns g1 c) = ?sid"
    using assms(10,11) ne old(2) d(2)
    by (simp_all add: g1 bindResumed_sess resumed_state_def bindResumed_sessionID)
  have closed: "c_closed (g_conns g1 old)"
    using assms(9) ne by (simp add: g1 bindResumed_def Let_def sendResumeRsp_closed)
  have g2: "g2 = (upd_sess s (gone (now e')) g1)\<lparr>servicePool :=
      map_option (\<lambda>pool. fst (pool_Send (drain e') ?sid (offline_notice ?sid p) pool)) (servicePool g1)\<rparr>"
    using onConnClose_sends [where g = g1 and c = old and s = s and e = e'] s1 assms(8,10,11,13) d(2) by simp
  have "gate_reach cfg g2"
    unfolding assms(12,13) using assms(1-3) old(1) g1 [unfolded assms(12)]
    by (intro gate_reach.step) (simp_all add: markAlive_def)
  note ign = offline_client_ignored [OF gate_reach_timeouts(5) [OF this], of c ?sid s e'' env']
  have "s_State (g_sess g2 s) = SessionOffline" "c_sessionID (g_conns g2 c) = ?sid" "sessions g2 = sessions g"
    using s1 by (simp_all add: g2)
  with ign s1 closed d(5) assms(8) show ?thesis by (simp add: g2)
qed

theorem resume_undone_by_replaced_connection_witness:
  "s_Conn (g_sess demoR 0) = Some 1 \<and> s_Conn (g_sess (gate_step (demo_env 401) (ReadEnds 0) demoR) 0) = None \<and>
   s_State (g_sess (gate_step (demo_env 401) (ReadEnds 0) demoR) 0) = SessionOffline \<and>
   g_sess (gate_step (demo_env 402) (Receive 1 forged) (gate_step (demo_env 401) (ReadEnds 0) demoR)) =
     g_sess (gate_step (demo_env 401) (ReadEnds 0) demoR)"
proof -
  let ?req = "\<lparr>rqSessionId = 1, rqToken = signResumeToken (Some [23, 42]) 1\<rparr>"
  have r: "resumable demo4 ?req"
    using demo4_token by (simp add: resumable_def sm_Get_def demo4_state demo3_state demo2_state)
  show ?thesis
    using resume_undone_by_replaced_connection [OF demo4_reach _ _ _ _ _ r _ _ _ _ demoR_def refl, where s = 0 and old = 0 and p = 7 and e' = "demo_env 401" and e'' = "demo_env 402" and env' = forged]
    by (simp add: sm_Get_def demo4_state demo3_state demo2_state)
qed

end
