(* ===== verification/GateEntry.thy ===== *)
theory GateEntry
  imports GateResume
begin

text \<open>
  What a client can do on a connection that has no session yet, or whose session has not asked
  for a login: the outcome of a resume request in every case, and what nothing else can reach.
\<close>

subsection \<open>Changes of one connection\<close>

text \<open>
  The whole gate is as before but for one connection, which keeps its session and stays closed
  when it was, and the count of sends refused.
\<close>

definition only_conn :: "cref \<Rightarrow> gate \<Rightarrow> gate \<Rightarrow> bool" where
  "only_conn c g g' \<longleftrightarrow>
     (\<exists>k n. g' = g\<lparr>g_conns := (g_conns g)(c := k), connBusyCount := n\<rparr> \<and>
        c_sessionID k = c_sessionID (g_conns g c) \<and> (c_closed (g_conns g c) \<longrightarrow> c_closed k))"

lemma only_connD:
  assumes "only_conn c g g'"
  shows "g_sess g' = g_sess g" "sessions g' = sessions g" "servicePool g' = servicePool g"
    "unknownMsgKickCount g' = unknownMsgKickCount g" "gateHandlers g' = gateHandlers g"
    "c_sessionID (g_conns g' j) = c_sessionID (g_conns g j)"
    "c_closed (g_conns g j) \<Longrightarrow> c_closed (g_conns g' j)" "j \<noteq> c \<Longrightarrow> g_conns g' j = g_conns g j"
  using assms by (auto simp: only_conn_def)

lemma only_conn_refl [simp]: "only_conn c g g"
  unfolding only_conn_def by (rule exI [of _ "g_conns g c"], rule exI [of _ "connBusyCount g"]) simp

lemma only_conn_trans:
  assumes "only_conn c g g1" and "only_conn c g1 g2"
  shows "only_conn c g g2"
proof -
  obtain k n where 1: "g1 = g\<lparr>g_conns := (g_conns g)(c := k), connBusyCount := n\<rparr>"
    "c_sessionID k = c_sessionID (g_conns g c)" "c_closed (g_conns g c) \<longrightarrow> c_closed k"
    using assms(1) by (auto simp: only_conn_def)
  obtain k' n' where "g2 = g1\<lparr>g_conns := (g_conns g1)(c := k'), connBusyCount := n'\<rparr>"
    "c_sessionID k' = c_sessionID (g_conns g1 c)" "c_closed (g_conns g1 c) \<longrightarrow> c_closed k'"
    using assms(2) by (auto simp: only_conn_def)
  with 1 show ?thesis unfolding only_conn_def by (intro exI [of _ k'] exI [of _ n']) simp
qed

lemma only_conn_upd:
  "c_sessionID (f (g_conns g c)) = c_sessionID (g_conns g c) \<Longrightarrow>
     (c_closed (g_conns g c) \<Longrightarrow> c_closed (f (g_conns g c))) \<Longrightarrow> only_conn c g (upd_conn c f g)"
  unfolding only_conn_def
  by (rule exI [of _ "f (g_conns g c)"], rule exI [of _ "connBusyCount g"]) (simp add: upd_conn_def)

lemma only_conn_ops [simp]:
  "only_conn c g (conn_Close c g)" "only_conn c g (markAlive c t g)"
  by (simp_all add: conn_Close_def markAlive_def only_conn_upd)

lemma only_conn_busy: "only_conn c g (g\<lparr>connBusyCount := n\<rparr>)"
  unfolding only_conn_def by (rule exI [of _ "g_conns g c"], rule exI [of _ n]) simp

lemma only_conn_Send [simp]: "only_conn c g (fst (conn_Send c env g))"
proof (cases "try_send env (c_sendCh (g_conns g c))")
  case None
  let ?b = "g\<lparr>connBusyCount := connBusyCount g + 1\<rparr>"
  let ?u = "upd_conn c (\<lambda>k. k\<lparr>c_busyCount := c_busyCount k + 1\<rparr>) ?b"
  have u: "only_conn c g ?u" by (rule only_conn_trans [OF only_conn_busy only_conn_upd]) simp_all
  have "fst (conn_Send c env g) \<in> {?u, conn_Close c ?u}" using None by (simp add: conn_Send_def Let_def)
  with u only_conn_trans [OF u only_conn_ops(1)] show ?thesis by auto
qed (simp add: conn_Send_def only_conn_upd)

lemma only_conn_resume [simp]:
  "only_conn c g (sendResumeRsp e c ok why g)" "only_conn c g (rejectResume e c why g)"
  using only_conn_trans [OF only_conn_Send only_conn_ops(1)] by (simp_all add: sendResumeRsp_def rejectResume_def)

subsection \<open>The outcome of a resume\<close>

text \<open>The queue of a connection after an envelope was offered to it.\<close>

definition offered :: "Envelope \<Rightarrow> Envelope chan \<Rightarrow> Envelope list" where
  "offered env q = (if length (ch_buf q) < ch_cap q then ch_buf q @ [env] else ch_buf q)"

definition resume_rsp :: "genv \<Rightarrow> int64 \<Rightarrow> bool \<Rightarrow> string \<Rightarrow> Envelope" where
  "resume_rsp e sid ok reason =
     \<lparr>eMsgId = to_int32 MsgResumeRsp, eSessionId = sid, ePlayerId = 0,
      ePayload = or_nil (marshalResumeRsp (codec e) \<lparr>rsOk = ok, rsReason = reason\<rparr>)\<rparr>"

text \<open>The reason a refused resume is given.\<close>

definition refusal :: "gate \<Rightarrow> ResumeReq \<Rightarrow> string" where
  "refusal g req =
     (case sm_Get (rqSessionId req) (sessions g) of
        None \<Rightarrow> ''invalid session''
      | Some s \<Rightarrow>
          (if \<not> verifyToken (g_sess g s) (rqToken req) then ''invalid session''
           else if s_State (g_sess g s) = SessionAuthing then ''session authing''
           else ''session closed''))"

lemma conn_Close_conns [simp]:
  "g_conns (conn_Close c g) = (g_conns g)(c := (g_conns g c)\<lparr>c_closed := True\<rparr>)"
  by (simp add: conn_Close_def)

lemma sendResumeRsp_offers:
  "ch_buf (c_sendCh (g_conns (sendResumeRsp e c ok why g) c)) =
     offered (resume_rsp e (c_sessionID (g_conns g c)) ok why) (c_sendCh (g_conns g c))"
  by (auto simp: sendResumeRsp_def resume_rsp_def conn_Send_def try_send_def offered_def Let_def)

lemma bindResumed_outcome:
  assumes s: "sm_Get (s_ID (g_sess g s)) (sessions g) = Some s" and g': "g' = bindResumed e s c g"
  shows "\<And>k. k \<noteq> c \<Longrightarrow> g_conns g' k =
      (if s_Conn (g_sess g s) = Some k then (g_conns g k)\<lparr>c_closed := True\<rparr> else g_conns g k)"
    "ch_buf (c_sendCh (g_conns g' c)) =
       offered (resume_rsp e (s_ID (g_sess g s)) True '''') (c_sendCh (g_conns g c))"
    "servicePool g' =
       (if s_PlayerID (g_sess g s) = 0 then servicePool g
        else map_option (\<lambda>pool. fst (pool_Send (drain e) (s_ID (g_sess g s))
               (resume_notice (s_ID (g_sess g s)) (s_PlayerID (g_sess g s))) pool)) (servicePool g))"
proof -
  let ?g1 = "case s_Conn (g_sess g s) of None \<Rightarrow> g | Some old \<Rightarrow> (if old \<noteq> c then conn_Close old g else g)"
  let ?x = "\<lambda>x. x\<lparr>s_Conn := Some c, s_LastSeen := now e,
      s_State := if s_PlayerID (g_sess g s) \<noteq> 0 then SessionAuthenticated else SessionOnline\<rparr>"
  let ?g2 = "upd_conn c (\<lambda>k. k\<lparr>c_sessionID := s_ID (g_sess g s)\<rparr>) (upd_sess s ?x ?g1)"
  define g3 where "g3 = sendResumeRsp e c True '''' ?g2"
  have c1: "g_sess ?g1 = g_sess g" "sessions ?g1 = sessions g" "servicePool ?g1 = servicePool g"
    using only_connD [OF only_conn_ops(1)] by (auto split: option.split)
  have k1: "g_conns ?g1 k = (if s_Conn (g_sess g s) = Some k \<and> k \<noteq> c then (g_conns g k)\<lparr>c_closed := True\<rparr>
      else g_conns g k)" for k
    by (auto split: option.split)
  have g3: "g_sess g3 = (g_sess g)(s := ?x (g_sess g s))" "sessions g3 = sessions g"
    "servicePool g3 = servicePool g"
    using only_connD(1-3) [OF only_conn_resume(1) [of c ?g2 e True "''''"]] by (simp_all add: c1 g3_def)
  have eq: "g' = (if s_PlayerID (g_sess g s) \<noteq> 0 then notifyPlayerResume e s g3 else g3)\<lparr>unknownMsgKickCount := 0\<rparr>"
    unfolding g' bindResumed_def Let_def by (simp add: c1 g3 [unfolded g3_def] g3_def)
  note n = notify_sends(2) [of g3 s e]
  have conns: "g_conns g' = g_conns g3"
    unfolding eq using n s by (simp add: g3)
  show "g_conns g' k = (if s_Conn (g_sess g s) = Some k then (g_conns g k)\<lparr>c_closed := True\<rparr> else g_conns g k)"
    if "k \<noteq> c" for k
    using that only_connD(8) [OF only_conn_resume(1) [of c ?g2 e True "''''"]] by (simp add: conns k1 g3_def)
  show "ch_buf (c_sendCh (g_conns g' c)) =
      offered (resume_rsp e (s_ID (g_sess g s)) True '''') (c_sendCh (g_conns g c))"
    by (simp add: conns sendResumeRsp_offers k1 g3_def)
  show "servicePool g' =
      (if s_PlayerID (g_sess g s) = 0 then servicePool g
       else map_option (\<lambda>pool. fst (pool_Send (drain e) (s_ID (g_sess g s))
              (resume_notice (s_ID (g_sess g s)) (s_PlayerID (g_sess g s))) pool)) (servicePool g))"
    unfolding eq using n s by (simp add: g3)
qed

text \<open>
  C7: The complete outcome of a resume request. On a connection that has a session already, or
  with a payload that cannot be read, the connection is closed and nothing else changes. When
  the session is not in the map, the token is not its valid token, or it is authenticating, the
  gate is as before except that the client is sent a refusal with its reason, if its queue has
  room, and its connection is closed. Otherwise this session, and no other, is attached to the new
  connection and authenticated if it has a player and online otherwise; the connection it had is
  closed; the client is sent an accepting response; the game is sent a resume notice, through the
  client of the pool that serves the session, exactly when the session has a player; and the
  gate's threshold for unknown messages becomes zero. No connection but these two changes.
\<close>

theorem resume_outcome:
  assumes reach: "gate_reach cfg g" and g': "g' = handleResume e c env g"
  shows "case (if c_sessionID (g_conns g c) = 0 then unmarshalResumeReq (codec e) (ePayload env) else None) of
      None \<Rightarrow> g' = conn_Close c g
    | Some req \<Rightarrow>
        (if resumable g req then
           \<exists>s. sm_Get (rqSessionId req) (sessions g) = Some s \<and> sessions g' = sessions g \<and>
             g_sess g' = (g_sess g)(s := (g_sess g s)\<lparr>s_Conn := Some c, s_LastSeen := now e,
               s_State := (if s_PlayerID (g_sess g s) \<noteq> 0 then SessionAuthenticated else SessionOnline)\<rparr>) \<and>
             c_sessionID (g_conns g' c) = rqSessionId req \<and>
             (\<forall>k. k \<noteq> c \<longrightarrow> g_conns g' k =
               (if s_Conn (g_sess g s) = Some k then (g_conns g k)\<lparr>c_closed := True\<rparr> else g_conns g k)) \<and>
             ch_buf (c_sendCh (g_conns g' c)) =
               offered (resume_rsp e (rqSessionId req) True '''') (c_sendCh (g_conns g c)) \<and>
             servicePool g' =
               (if s_PlayerID (g_sess g s) = 0 then servicePool g
                else map_option (\<lambda>pool. fst (pool_Send (drain e) (rqSessionId req)
                       (resume_notice (rqSessionId req) (s_PlayerID (g_sess g s))) pool)) (servicePool g)) \<and>
             unknownMsgKickCount g' = 0
         else
           only_conn c g g' \<and> c_closed (g_conns g' c) \<and>
           ch_buf (c_sendCh (g_conns g' c)) =
             offered (resume_rsp e 0 False (refusal g req)) (c_sendCh (g_conns g c)))"
proof (cases "c_sessionID (g_conns g c) = 0 \<and> unmarshalResumeReq (codec e) (ePayload env) \<noteq> None")
  case False
  then show ?thesis by (auto simp: g' handleResume_def)
next
  case True
  then obtain req where c: "c_sessionID (g_conns g c) = 0"
    and req: "unmarshalResumeReq (codec e) (ePayload env) = Some req" by auto
  show ?thesis
  proof (cases "resumable g req")
    case res: True
    then obtain s where s: "sm_Get (rqSessionId req) (sessions g) = Some s"
      by (auto simp: resumable_def split: option.splits)
    have id: "s_ID (g_sess g s) = rqSessionId req" using gate_inv_getD(2) [OF gate_reach_inv [OF reach] s] .
    have eq: "g' = bindResumed e s c g" using res c req s by (simp add: g' handleResume_def resumable_def)
    note o = bindResumed_outcome [OF _ eq, unfolded id, OF s]
    show ?thesis using c req res s
      by (auto simp: o bindResumed_sess resumed_state_def bindResumed_sessionID id eq [symmetric]
          simp del: bindResumed_fields simp: bindResumed_fields [of e s c g, folded eq]
            bindResumed_sess [of e s c g, folded eq] bindResumed_sessionID [of e s c g, folded eq])
  next
    case False
    then have eq: "g' = rejectResume e c (refusal g req) g" using c req
      by (auto simp: g' handleResume_def resumable_def refusal_def split: option.split)
    have "ch_buf (c_sendCh (g_conns g' c)) = offered (resume_rsp e 0 False (refusal g req)) (c_sendCh (g_conns g c))"
      using c sendResumeRsp_offers [of e c False _ g] by (simp add: eq rejectResume_def)
    with False c req show ?thesis by (simp add: eq rejectResume_effect)
  qed
qed

theorem resume_outcome_witness:
  "s_Conn (g_sess (handleResume (demo_env 400) 1 (resume_req 1) demo4) 0) = Some 1 \<and>
   s_State (g_sess (handleResume (demo_env 400) 1 (resume_req 1) demo4) 0) = SessionAuthenticated \<and>
   c_closed (g_conns (handleResume (demo_env 400) 1 (resume_req 1) demo4) 0) \<and>
   unknownMsgKickCount (handleResume (demo_env 400) 1 (resume_req 1) demo4) = 0"
proof -
  let ?req = "\<lparr>rqSessionId = 1, rqToken = signResumeToken (Some [23, 42]) 1\<rparr>"
  have r: "resumable demo4 ?req"
    using demo4_token by (simp add: resumable_def sm_Get_def demo4_state demo3_state demo2_state)
  show ?thesis
    using resume_outcome [OF demo4_reach refl, of "demo_env 400" 1 "resume_req 1"] r
    by (auto simp: sm_Get_def demo4_state demo3_state demo2_state)
qed

subsection \<open>Before a login\<close>

text \<open>Everything a client sends on its connection, as its reader handles it.\<close>

fun client_sends :: "cref \<Rightarrow> (genv \<times> Envelope) list \<Rightarrow> gate \<Rightarrow> gate" where
  "client_sends c [] g = g"
| "client_sends c ((e, env) # tr) g = client_sends c tr (ReadLoop_env e c env g)"

definition unasked :: "cref \<Rightarrow> gate \<Rightarrow> bool" where
  "unasked c g \<longleftrightarrow>
     (case sm_Get (c_sessionID (g_conns g c)) (sessions g) of
        None \<Rightarrow> True | Some s \<Rightarrow> s_State (g_sess g s) = SessionOnline)"

text \<open>A resume request that would be granted on the connection.\<close>

definition grants :: "genv \<Rightarrow> cref \<Rightarrow> Envelope \<Rightarrow> gate \<Rightarrow> bool" where
  "grants e c env g \<longleftrightarrow>
     msg_id env = MsgResumeReq \<and> c_sessionID (g_conns g c) = 0 \<and>
     (case unmarshalResumeReq (codec e) (ePayload env) of None \<Rightarrow> False | Some req \<Rightarrow> resumable g req)"

lemma only_conn_questions:
  assumes "only_conn c g g'"
  shows "unasked c g' = unasked c g" "grants e c env g' = grants e c env g"
  using only_connD [OF assms] by (simp_all add: unasked_def grants_def resumable_def split: option.split)

lemma refused_resume:
  assumes "\<not> grants e c env g" and "msg_id env = MsgResumeReq"
  shows "only_conn c g (handleResume e c env g)" "c_closed (g_conns (handleResume e c env g) c)"
  using assms only_conn_resume(2) [of c g]
  by (auto simp: handleResume_def grants_def resumable_def rejectResume_effect simp del: conn_Close_conns
      split: option.splits)

lemma ReadLoop_unasked:
  assumes h: "gateHandlers g = fst (registerHandlers NewRegistry)" and u: "unasked c g"
    and "msg_id env \<noteq> MsgLoginReq" and "\<not> grants e c env g"
  shows "only_conn c g (ReadLoop_env e c env g)"
    "c_sessionID (g_conns g c) = 0 \<Longrightarrow> c_closed (g_conns (ReadLoop_env e c env g) c)"
proof -
  let ?g = "markAlive c (now e) g"
  have m: "only_conn c g ?g" by simp
  note q = only_conn_questions [OF m] and d = only_connD [OF m]
  have "only_conn c ?g (OnEnvelope e c env ?g) \<and>
      (c_sessionID (g_conns g c) = 0 \<longrightarrow> c_closed (g_conns (OnEnvelope e c env ?g) c))"
  proof (cases "msg_id env = MsgResumeReq")
    case True
    then show ?thesis
      using handlers_resume [of ?g env] h refused_resume [of e c env ?g] assms(4) q(2) d(5) by simp
  next
    case False
    with assms(3) u show ?thesis
      unfolding unasked_def q(1) [symmetric, unfolded unasked_def]
      by (auto simp: OnEnvelope_def routeEnvelope_def d split: option.splits)
  qed
  then show "only_conn c g (ReadLoop_env e c env g)"
    "c_sessionID (g_conns g c) = 0 \<Longrightarrow> c_closed (g_conns (ReadLoop_env e c env g) c)"
    using only_conn_trans [OF m] by (auto simp: ReadLoop_env_def)
qed

text \<open>
  C10: Before it asks for a login, or has a resume granted, a client reaches nothing. Handling any
  envelopes it sends, in any number and order, with neither a login request nor a resume request
  that is granted among them, on a connection whose session is not there or online, forwards
  nothing and changes no session: the whole gate, its other connections, its sessions and its
  queues to the service included, stays as it was, but for this connection itself and the count
  of sends refused. The connection keeps the session it had, and without one it is closed by the
  first such envelope.
\<close>

theorem nothing_forwarded_before_login:
  assumes reach: "gate_reach cfg g" and u: "unasked c g"
    and tr: "\<forall>(e, env) \<in> set tr. msg_id env \<noteq> MsgLoginReq \<and> \<not> grants e c env g"
  shows "\<exists>k n. client_sends c tr g = g\<lparr>g_conns := (g_conns g)(c := k), connBusyCount := n\<rparr> \<and>
      c_sessionID k = c_sessionID (g_conns g c) \<and>
      (c_sessionID (g_conns g c) = 0 \<and> tr \<noteq> [] \<longrightarrow> c_closed k)"
proof -
  have "gateHandlers g1 = fst (registerHandlers NewRegistry) \<Longrightarrow> unasked c g1 \<Longrightarrow>
      \<forall>(e, env) \<in> set tr. msg_id env \<noteq> MsgLoginReq \<and> \<not> grants e c env g1 \<Longrightarrow>
      only_conn c g1 (client_sends c tr g1) \<and>
      (c_sessionID (g_conns g1 c) = 0 \<and> tr \<noteq> [] \<longrightarrow> c_closed (g_conns (client_sends c tr g1) c))" for g1
  proof (induction c tr g1 rule: client_sends.induct)
    case (2 c e env tr g1)
    have m: "msg_id env \<noteq> MsgLoginReq" "\<not> grants e c env g1" using 2(4) by simp_all
    let ?g = "ReadLoop_env e c env g1"
    note s = ReadLoop_unasked [OF 2(2,3) m]
    note d = only_connD [OF s(1)] and q = only_conn_questions [OF s(1)]
    have "only_conn c ?g (client_sends c tr ?g)"
      using 2 d(5) q by simp
    with s show ?case using only_conn_trans [OF s(1)] only_connD(7) by auto
  qed simp
  note * = this [OF gate_reach_timeouts(5) [OF reach] u tr]
  then obtain k n where k: "client_sends c tr g = g\<lparr>g_conns := (g_conns g)(c := k), connBusyCount := n\<rparr>"
    "c_sessionID k = c_sessionID (g_conns g c)" by (auto simp: only_conn_def)
  with * show ?thesis by (intro exI [of _ k] exI [of _ n]) simp
qed

theorem nothing_forwarded_before_login_witness:
  "\<exists>k n. client_sends 0 [(demo_env 300, \<lparr>eMsgId = 3001, eSessionId = 1, ePlayerId = 0, ePayload = []\<rparr>),
      (demo_env 301, resume_req 1)] demo2 = demo2\<lparr>g_conns := (g_conns demo2)(0 := k), connBusyCount := n\<rparr>"
proof -
  let ?tr = "[(demo_env 300, \<lparr>eMsgId = 3001, eSessionId = 1, ePlayerId = 0, ePayload = []\<rparr>),
      (demo_env 301, resume_req 1)]"
  have u: "unasked 0 demo2" by (simp add: unasked_def demo2_state sm_Get_def)
  have "\<forall>(e, env) \<in> set ?tr. msg_id env \<noteq> MsgLoginReq \<and> \<not> grants e 0 env demo2"
    by (simp add: grants_def demo2_state route_simps resume_req_def)
  from nothing_forwarded_before_login [OF demo2_reach u this] show ?thesis by blast
qed

end
