(* ===== verification/GateTimers.thy ===== *)
theory GateTimers
  imports Scenario
begin

text \<open>
  The properties of the gate's periodic loops and of its login rate limit.
\<close>

subsection \<open>Garbage collection\<close>

text \<open>
  One collection, whatever the order in which Go visits the map: exactly the sessions
  that are offline for longer than the heartbeat timeout are closed and removed from the
  session map, and nothing else about any session changes.
\<close>

lemma gc_collects_exactly_the_expired:
  assumes "gate_reach cfg g" and "enumerates ord (sessions g)"
  shows "g_sess (gcSessions e ord g) r =
      (if r \<in> ran (bySession (sessions g)) \<and> gc_expired (now e) (heartbeatTimeout g) (g_sess g r)
       then (g_sess g r)\<lparr>s_State := SessionClosed\<rparr> else g_sess g r) \<and>
    bySession (sessions (gcSessions e ord g)) sid =
      (case bySession (sessions g) sid of
         Some r \<Rightarrow> (if gc_expired (now e) (heartbeatTimeout g) (g_sess g r) then None else Some r)
       | None \<Rightarrow> None)"
  unfolding gcSessions_closed_form [OF gate_reach_inv [OF assms(1)] assms(2)]
  by (auto simp: gc_store_def gc_index_def gc_set_def ran_def split: option.split)

lemma demo6_enum: "enumerates [1, 2] (sessions demo6)"
  by (auto simp: enumerates_def demo6_state)

lemma demo6_timeout: "heartbeatTimeout demo6 = 30 * second"
  using gate_reach_settings [OF demo6_reach]
  by (simp add: settings_def boot_gate_def ConnectService_def UpdateConfig_def NewGate_def demo_cfg_def
      Let_def second_def)

lemma demo6_expired:
  "gc_expired 60000000000 (heartbeatTimeout demo6) (g_sess demo6 0)"
  "\<not> gc_expired t d (g_sess demo6 1)"
  by (simp_all add: gc_expired_def demo6_state demo6_timeout time_sub_def minDuration_def
      maxDuration_def second_def)

lemma gc_collects_exactly_the_expired_witness:
  "s_State (g_sess (gcSessions (demo_env 60000000000) [1, 2] demo6) 0) = SessionClosed \<and>
   bySession (sessions (gcSessions (demo_env 60000000000) [1, 2] demo6)) 1 = None"
  using gc_collects_exactly_the_expired [OF demo6_reach demo6_enum, of "demo_env 60000000000" 0 1]
    demo6_expired
  by (simp add: demo6_state ran_def)

text \<open>
  The collector forgets a player who has logged in again. When a session it removes was
  bound to a player and the player has since been bound to another live session, the player
  entry is deleted although it names the other session: the player is left without an entry
  while the live session still carries it.
\<close>

lemma gc_drops_newer_player_binding:
  assumes "gate_reach cfg g" and "enumerates ord (sessions g)"
    and "bySession (sessions g) sid = Some old"
    and "gc_expired (now e) (heartbeatTimeout g) (g_sess g old)"
    and "s_PlayerID (g_sess g old) = p" and "p \<noteq> 0"
    and "byPlayer (sessions g) p = Some new" and "s_State (g_sess g new) = SessionAuthenticated"
  shows "byPlayer (sessions (gcSessions e ord g)) p = None \<and>
    g_sess (gcSessions e ord g) new = g_sess g new"
  using assms(3-8)
  unfolding gcSessions_closed_form [OF gate_reach_inv [OF assms(1)] assms(2)]
  by (auto simp: gc_store_def gc_index_def gc_set_def ran_def gc_expired_def)

lemma gc_drops_newer_player_binding_witness:
  "byPlayer (sessions demo6) 7 = Some 1 \<and>
   byPlayer (sessions (gcSessions (demo_env 60000000000) [1, 2] demo6)) 7 = None \<and>
   s_State (g_sess (gcSessions (demo_env 60000000000) [1, 2] demo6) 1) = SessionAuthenticated"
  using gc_drops_newer_player_binding [OF demo6_reach demo6_enum, of 1 0 "demo_env 60000000000" 7 1]
    demo6_expired
  by (simp add: demo6_state demo3_state)

subsection \<open>Heartbeats\<close>

text \<open>
  C17: One heartbeat check, whatever the order of the map: exactly the online sessions whose
  connection has been silent for longer than the timeout (one and a half times that for a
  WebSocket) are taken offline; every other session is left as it is.
\<close>

theorem heartbeat_drops_exactly_the_silent:
  assumes "gate_reach cfg g" and "enumerates ord (sessions g)"
  shows "g_sess (checkHeartbeat e ord g) r =
    (if r \<in> ran (bySession (sessions g)) \<and>
        (case s_Conn (g_sess g r) of
           None \<Rightarrow> False
         | Some c \<Rightarrow> s_State (g_sess g r) = SessionOnline \<and>
             time_sub (now e) (lastAlive (g_conns g c)) >
               heartbeatTimeout g + (if c_connType (g_conns g c) = ConnWS then heartbeatTimeout g div 2 else 0))
     then (g_sess g r)\<lparr>s_Conn := None, s_LastSeen := now e, s_State := SessionOffline\<rparr>
     else g_sess g r)"
  unfolding checkHeartbeat_closed_form [OF gate_reach_inv [OF assms(1)] assms(2)
      gate_reach_timeouts(1) [OF assms(1)]]
  by (auto simp: hb_dead_def hb_timeout_def gone_def split: option.split)

lemma demo2_enum: "enumerates [1] (sessions demo2)"
  by (auto simp: enumerates_def demo2_state)

theorem heartbeat_drops_exactly_the_silent_witness:
  "s_State (g_sess (checkHeartbeat (demo_env 60000000000) [1] demo2) 0) = SessionOffline"
proof -
  have "heartbeatTimeout demo2 = 30 * second"
    using gate_reach_settings [OF demo2_reach]
    by (simp add: settings_def boot_gate_def ConnectService_def UpdateConfig_def NewGate_def
        demo_cfg_def Let_def second_def)
  then show ?thesis
    using heartbeat_drops_exactly_the_silent [OF demo2_reach demo2_enum, of "demo_env 60000000000" 0]
    by (simp add: demo2_state demo2_conn ran_def lastAlive_def time_sub_def minDuration_def
        maxDuration_def second_def)
qed

text \<open>The events of the gate's own tickers.\<close>

fun is_tick :: "gate_event \<Rightarrow> bool" where
  "is_tick (HeartbeatTick _) = True"
| "is_tick (GcTick _ _) = True"
| "is_tick StatsTick = True"
| "is_tick _ = False"

lemma tick_keeps_authenticated:
  assumes reach: "gate_reach cfg g" and en: "gate_enabled ev g" and tick: "is_tick ev"
    and s: "s_State (g_sess g r) = SessionAuthenticated"
  shows "g_sess (gate_step e ev g) r = g_sess g r"
proof (cases ev)
  case (HeartbeatTick ord)
  have "enumerates ord (sessions g)" using en HeartbeatTick by simp
  note h = checkHeartbeat_closed_form [OF gate_reach_inv [OF reach] this gate_reach_timeouts(1) [OF reach]]
  have "\<not> hb_dead e g r" using s by (auto simp: hb_dead_def split: option.split)
  with h HeartbeatTick show ?thesis by (simp add: heartbeatLoop_def)
next
  case (GcTick ord1 ord2)
  note inv = gate_reach_inv [OF reach]
  let ?a = "checkAuthingTimeout e ord1 g"
  have a: "gate_inv ?a" "enumerates ord2 (sessions ?a)"
    using checkAuthingTimeout_inv [OF inv] en GcTick by simp_all
  have "g_sess ?a r = g_sess g r"
    using checkAuthingTimeout_closed_form [OF inv, of ord1 e] en GcTick s by (simp add: au_dead_def)
  then have "g_sess (gcSessions e ord2 ?a) r = g_sess g r"
    using gcSessions_closed_form [OF a] s by (simp add: gc_store_def gc_set_def gc_expired_def)
  with GcTick show ?thesis by (simp add: gcLoop_def gcTick_def)
qed (use tick in \<open>simp_all add: reportStats_def Let_def\<close>)

text \<open>
  C22: An authenticated session is never timed out: however long its client is silent, no
  sequence of ticks of the gate's loops changes it, for the heartbeat check looks at online
  sessions only.
\<close>

theorem authenticated_session_never_times_out:
  assumes "gate_reach cfg g" and "gate_run_ok tr g" and "list_all (\<lambda>(e, ev). is_tick ev) tr"
    and "s_State (g_sess g r) = SessionAuthenticated"
  shows "g_sess (gate_run tr g) r = g_sess g r"
  using assms
proof (induction tr g rule: gate_run.induct)
  case (2 e ev tr g)
  then have "g_sess (gate_step e ev g) r = g_sess g r"
    by (intro tick_keeps_authenticated) auto
  with 2 show ?case by (auto intro: gate_reach.step)
qed simp

theorem authenticated_session_never_times_out_witness:
  "s_State (g_sess (gate_run [(demo_env (10 ^ 15), HeartbeatTick [1, 2]),
      (demo_env (2 * 10 ^ 15), StatsTick)] demo6) 1) = SessionAuthenticated"
proof -
  have keep: "sessions (gate_step (demo_env (10 ^ 15)) (HeartbeatTick [1, 2]) demo6) = sessions demo6"
    using offline_fold_inv [OF heartbeat_offline_step gate_reach_inv [OF demo6_reach]]
      sm_snapshot_less(1) [OF gate_reach_inv [OF demo6_reach]]
    by (simp add: heartbeatLoop_def checkHeartbeat_def)
  show ?thesis
    using authenticated_session_never_times_out [OF demo6_reach,
        of "[(demo_env (10 ^ 15), HeartbeatTick [1, 2]), (demo_env (2 * 10 ^ 15), StatsTick)]" 1]
      demo6_enum
    by (simp add: demo6_state)
qed

subsection \<open>Login timeouts\<close>

text \<open>
  One visit for login timeouts, whatever the order of the map: exactly the sessions that
  have been authenticating for longer than the login timeout are taken offline.
\<close>

lemma login_timeout_drops_exactly_the_late:
  assumes "gate_reach cfg g" and "enumerates ord (sessions g)"
  shows "g_sess (checkAuthingTimeout e ord g) r =
    (if r \<in> ran (bySession (sessions g)) \<and> s_State (g_sess g r) = SessionAuthing \<and>
        time_sub_zero (now e) (s_AuthStart (g_sess g r)) > loginTimeout g
     then (g_sess g r)\<lparr>s_Conn := None, s_LastSeen := now e, s_State := SessionOffline\<rparr>
     else g_sess g r)"
  unfolding checkAuthingTimeout_closed_form [OF gate_reach_inv [OF assms(1)] assms(2)]
  by (simp add: au_dead_def gone_def)

lemma login_timeout_drops_exactly_the_late_witness:
  "g_sess (checkAuthingTimeout (demo_env (10 ^ 15)) [1] demo2) 0 = g_sess demo2 0"
  using login_timeout_drops_exactly_the_late [OF demo2_reach demo2_enum, of "demo_env (10 ^ 15)" 0]
  by (simp add: demo2_state)

subsection \<open>The login rate limit\<close>

text \<open>The decisions of \<open>allowLogin\<close> on a sequence of login requests of one session.\<close>

fun allow_run :: "time list \<Rightarrow> int \<Rightarrow> duration \<Rightarrow> session \<Rightarrow> bool list" where
  "allow_run [] limit window ss = []"
| "allow_run (t # ts) limit window ss =
     (let (ok, ss) = allowLogin_step t limit window ss in ok # allow_run ts limit window ss)"

lemma allow_run_inside:
  fixes w0 limit window
  assumes "0 < limit" "0 \<le> window" "window < maxDuration"
  shows "s_LoginWindowStart ss = Some w0 \<Longrightarrow> (\<And>t. t \<in> set ts \<Longrightarrow> t - w0 \<le> window) \<Longrightarrow>
     0 \<le> s_LoginAttempts ss \<Longrightarrow>
     allow_run ts limit window ss =
       map (\<lambda>i. s_LoginAttempts ss + int i + 1 \<le> limit) [0 ..< length ts]"
proof (induction ts arbitrary: ss)
  case Nil
  then show ?case by simp
next
  case (Cons t ts)
  have "\<not> time_sub t w0 > window"
    using Cons.prems(2) [of t] time_sub_gt_iff [OF assms(2,3), of t w0] by simp
  then have st: "allowLogin_step t limit window ss =
      (s_LoginAttempts ss + 1 \<le> limit, ss\<lparr>s_LoginAttempts := s_LoginAttempts ss + 1\<rparr>)"
    using assms(1) Cons.prems(1) by (simp add: allowLogin_step_def Let_def)
  have "[0 ..< length (t # ts)] = 0 # map Suc [0 ..< length ts]"
    by (simp add: upt_Suc_shift del: upt_Suc)
  with Cons.IH [of "ss\<lparr>s_LoginAttempts := s_LoginAttempts ss + 1\<rparr>"] Cons.prems st
  show ?case by (simp add: algebra_simps comp_def)
qed

text \<open>
  C19: The login rate limit. Counting from the login request that opens a window, of all the
  requests a session makes before the window has passed exactly the first \<open>limit\<close> are
  allowed, and the rest are refused.
\<close>

theorem login_rate_limit:
  assumes "0 < limit" and "0 \<le> window" and "window < maxDuration"
    and "case s_LoginWindowStart ss of None \<Rightarrow> True | Some w \<Rightarrow> t - w > window"
    and "\<forall>u \<in> set ts. u - t \<le> window"
  shows "allow_run (t # ts) limit window ss = map (\<lambda>i. int i < limit) [0 ..< Suc (length ts)]"
proof -
  let ?ss = "ss\<lparr>s_LoginWindowStart := Some t, s_LoginAttempts := 1\<rparr>"
  have st: "allowLogin_step t limit window ss = (True, ?ss)"
    using assms(1,4) time_sub_gt_iff [OF assms(2,3)]
    by (auto simp: allowLogin_step_def Let_def split: option.splits)
  have "allow_run ts limit window ?ss = map (\<lambda>i. s_LoginAttempts ?ss + int i + 1 \<le> limit) [0 ..< length ts]"
    by (rule allow_run_inside [OF assms(1-3)]) (use assms(5) in auto)
  then show ?thesis
    unfolding upt_Suc_shift using st assms(1) by (auto simp: comp_def)
qed

theorem login_rate_limit_witness:
  "allow_run [100, 101, 102, 103] 2 10 blank_session = [True, True, False, False]"
  using login_rate_limit [of 2 10 100 blank_session "[101, 102, 103]"]
  by (simp add: blank_session_def maxDuration_def upt_rec)

end
