(* ===== verification/GateTick.thy ===== *)
theory GateTick
  imports GateTimers GateRouting
begin

text \<open>
  One tick of \<open>gcLoop\<close> as a whole: the visit for login timeouts followed by the garbage collection.
\<close>

lemma heartbeatTimeout_checkAuthing [simp]: "heartbeatTimeout (checkAuthingTimeout e ord g) = heartbeatTimeout g"
  using settings_sweeps(2) [of e ord g] by (simp add: settings_def)

lemma gone_not_expired: "0 \<le> timeout \<Longrightarrow> \<not> gc_expired t timeout (gone t ss)"
  by (auto simp: gc_expired_def gone_def time_sub_def minDuration_def maxDuration_def)

lemma late_not_expired: "au_dead e g r \<Longrightarrow> \<not> gc_expired t timeout (g_sess g r)"
  by (simp add: au_dead_def gc_expired_def)

text \<open>
  C16: One tick of the gate's collecting loop, whatever the two orders in which Go visits the map: a
  session that has been authenticating for longer than the login timeout is taken offline and kept;
  a session that had been offline for longer than the heartbeat timeout before the tick is closed
  and removed from the map; every other session, and every other entry of the map, stays as it is.
  In particular a session taken offline by the tick is not collected by it.
\<close>

theorem gc_tick_outcome:
  assumes "gate_reach cfg g" and "enumerates ord1 (sessions g)" and "enumerates ord2 (sessions g)"
  shows "g_sess (gcLoop e ord1 ord2 g) r =
      (if r \<notin> ran (bySession (sessions g)) then g_sess g r
       else if s_State (g_sess g r) = SessionAuthing \<and>
           time_sub_zero (now e) (s_AuthStart (g_sess g r)) > loginTimeout g
         then (g_sess g r)\<lparr>s_Conn := None, s_LastSeen := now e, s_State := SessionOffline\<rparr>
       else if s_State (g_sess g r) = SessionOffline \<and>
           time_sub (now e) (s_LastSeen (g_sess g r)) > heartbeatTimeout g
         then (g_sess g r)\<lparr>s_State := SessionClosed\<rparr>
       else g_sess g r) \<and>
    bySession (sessions (gcLoop e ord1 ord2 g)) sid =
      (case bySession (sessions g) sid of
         None \<Rightarrow> None
       | Some q \<Rightarrow> if s_State (g_sess g q) = SessionOffline \<and>
           time_sub (now e) (s_LastSeen (g_sess g q)) > heartbeatTimeout g then None else Some q)"
proof -
  let ?a = "checkAuthingTimeout e ord1 g" and ?exp = "gc_expired (now e) (heartbeatTimeout g)"
  note inv = gate_reach_inv [OF assms(1)]
  note a = checkAuthingTimeout_inv [OF inv, of e ord1]
  have sess: "g_sess ?a q = (if q \<in> ran (bySession (sessions g)) \<and> au_dead e g q
      then gone (now e) (g_sess g q) else g_sess g q)" for q
    using checkAuthingTimeout_closed_form [OF inv assms(2), of e] by simp
  have pos: "0 < heartbeatTimeout g" "0 < gcInterval g"
    using gate_reach_timeouts [OF assms(1)] by simp_all
  have exp: "?exp (g_sess ?a q) \<longleftrightarrow> ?exp (g_sess g q)" for q
    using pos(1) by (auto simp: sess gone_not_expired dest: late_not_expired)
  have ord: "enumerates ord2 (sessions ?a)" using a assms(3) by simp
  have tick: "gcLoop e ord1 ord2 g = gcSessions e ord2 ?a"
    using pos(2) by (simp add: gcLoop_def gcTick_def)
  note gc = gcSessions_closed_form [OF conjunct1 [OF a] ord, of e]
  have set: "gc_set e ?a = {q. q \<in> ran (bySession (sessions g)) \<and> ?exp (g_sess g q)}"
    using a exp by (simp add: gc_set_def)
  show ?thesis
    unfolding tick gc using a
    by (auto simp: gc_store_def gc_index_def set sess gone_def au_dead_def gc_expired_def ran_def split: option.split)
qed

lemma demoA_reach: "gate_reach demo_cfg demoA"
  unfolding demoA_def using demo5_state by (intro gate_reach.step [OF demo5_reach]) simp

lemma demoA_timeout: "loginTimeout demoA = 10 * second"
  using gate_reach_settings [OF demoA_reach]
  by (simp add: settings_def boot_gate_def ConnectService_def UpdateConfig_def NewGate_def demo_cfg_def
      Let_def second_def)

text \<open>In one state a session is late with its login, in another one a session is long offline.\<close>

theorem gc_tick_outcome_witness:
  "s_State (g_sess (gcLoop (demo_env 20000000000) [1, 2] [2, 1] demoA) 1) = SessionOffline \<and>
   s_State (g_sess (gcLoop (demo_env 60000000000) [1, 2] [2, 1] demo6) 0) = SessionClosed \<and>
   bySession (sessions (gcLoop (demo_env 60000000000) [1, 2] [2, 1] demo6)) 1 = None"
proof -
  have ords: "enumerates [1, 2] (sessions demoA)" "enumerates [2, 1] (sessions demoA)"
    "enumerates [2, 1] (sessions demo6)"
    by (auto simp: enumerates_def demoA_state demo5_state demo6_state)
  have late: "1 \<in> ran (bySession (sessions demoA))" "s_State (g_sess demoA 1) = SessionAuthing"
    "time_sub_zero 20000000000 (s_AuthStart (g_sess demoA 1)) > loginTimeout demoA"
    by (auto simp: demoA_state demo5_state demoA_timeout time_sub_def minDuration_def maxDuration_def second_def
        simp del: One_nat_def intro!: ranI [of _ 2])
  have "s_State (g_sess (gcLoop (demo_env 20000000000) [1, 2] [2, 1] demoA) 1) = SessionOffline"
    using gc_tick_outcome [OF demoA_reach ords(1,2), of "demo_env 20000000000" 1 1] late
    by (simp del: One_nat_def)
  then show ?thesis
    using gc_tick_outcome [OF demo6_reach demo6_enum ords(3), of "demo_env 60000000000" 0 1]
      demo6_expired(1)
    by (simp add: demo6_state ran_def gc_expired_def)
qed

end
