(* ===== verification/GateKick.thy ===== *)
theory GateKick
  imports Scenario
begin

text \<open>
  The kick for unknown messages. Both a login reply and an accepted resume set the gate-wide
  threshold to zero, and no operation ever sets it back, so from the first of either on no
  client is kicked any more.
\<close>

named_theorems kick_simps \<open>operations that leave the kick threshold alone\<close>

lemma kick_conn [kick_simps]:
  "unknownMsgKickCount (fst (conn_Send c env g)) = unknownMsgKickCount g"
  "unknownMsgKickCount (conn_Close c g) = unknownMsgKickCount g"
  "unknownMsgKickCount (markAlive c t g) = unknownMsgKickCount g"
  "unknownMsgKickCount (fst (conn_writeStep w c g)) = unknownMsgKickCount g"
  using conn_Send_same [of g c env] conn_writeStep_same [of g w c]
  by (simp_all add: same_but_conns_def markAlive_def)

lemma kick_new_conn [kick_simps]:
  "unknownMsgKickCount (snd (NewConn e g)) = unknownMsgKickCount g"
  "unknownMsgKickCount (snd (NewWSConn e g)) = unknownMsgKickCount g"
  by (simp_all add: NewConn_def NewWSConn_def NewConnWithTransport_def newTraceID_def Let_def split_def)

lemma kick_send [kick_simps]:
  "unknownMsgKickCount (sendToService e m env g) = unknownMsgKickCount g"
  "unknownMsgKickCount (sendToGame e env g) = unknownMsgKickCount g"
  "unknownMsgKickCount (notifyPlayerOffline e s g) = unknownMsgKickCount g"
  by (simp_all add: sendToGame_def)

lemma kick_sessions [kick_simps]:
  "unknownMsgKickCount (fst (Reply sid m d g)) = unknownMsgKickCount g"
  "unknownMsgKickCount (onSessionOffline e s g) = unknownMsgKickCount g"
  "unknownMsgKickCount (fst (Kick e sid g)) = unknownMsgKickCount g"
  "unknownMsgKickCount (onConnClose e c g) = unknownMsgKickCount g"
  by (simp_all add: Kick_def onConnClose_def split: option.split)

lemma kick_login [kick_simps]:
  "unknownMsgKickCount (snd (createSessionForConn e c g)) = unknownMsgKickCount g"
  "unknownMsgKickCount (snd (allowLogin e s g)) = unknownMsgKickCount g"
  "unknownMsgKickCount (handleDuplicateLogin e s c g) = unknownMsgKickCount g"
  by (simp_all add: createSessionForConn_alt created_def allowLogin_def handleDuplicateLogin_def
      Let_def split_def kick_simps)

lemma kick_login2 [kick_simps]:
  "unknownMsgKickCount (firstLogin e c env g) = unknownMsgKickCount g"
  "unknownMsgKickCount (snd (loginBlock e s c g)) = unknownMsgKickCount g"
  "unknownMsgKickCount (unknownMsg e s g) = unknownMsgKickCount g"
  "unknownMsgKickCount (onHeartbeat e sid g) = unknownMsgKickCount g"
  by (simp_all add: firstLogin_def loginBlock_def unknownMsg_def onHeartbeat_def Let_def split_def
      kick_simps split: SessionState.split option.split)

lemma kick_rejectResume [kick_simps]:
  "unknownMsgKickCount (rejectResume e c why g) = unknownMsgKickCount g"
  by (simp add: rejectResume_def sendResumeRsp_def kick_simps)

lemma kick_fold:
  "(\<And>r g. unknownMsgKickCount (f r g) = unknownMsgKickCount g) \<Longrightarrow>
     unknownMsgKickCount (fold f rs g) = unknownMsgKickCount g"
  by (induction rs arbitrary: g) simp_all

lemma kick_sweeps [kick_simps]:
  "unknownMsgKickCount (checkHeartbeat e ord g) = unknownMsgKickCount g"
  "unknownMsgKickCount (checkAuthingTimeout e ord g) = unknownMsgKickCount g"
  "unknownMsgKickCount (gcSessions e ord g) = unknownMsgKickCount g"
  by (simp_all add: checkHeartbeat_def checkAuthingTimeout_def gcSessions_def Let_def split_def
      kick_fold checkHeartbeat_one_alt checkAuthing_one_alt)

text \<open>The two that do not leave it alone.\<close>

lemma kick_handleResume: "unknownMsgKickCount (handleResume e c env g) \<in> {unknownMsgKickCount g, 0}"
  by (auto simp: handleResume_def kick_simps split: option.split)

lemma kick_onLoginRsp: "unknownMsgKickCount (onLoginRsp e sid p g) \<in> {unknownMsgKickCount g, 0}"
  by (auto simp: onLoginRsp_def Let_def split_def split: option.split)

lemma kick_dispatch: "unknownMsgKickCount (dispatchHandler e so c env g) \<in> {unknownMsgKickCount g, 0}"
proof (cases "RegGet (msg_id env) (gateHandlers g)")
  case (Some h)
  have "unknownMsgKickCount (runHandler e h so c env g) \<in> {unknownMsgKickCount g, 0}"
    using kick_handleResume [of e c env g] by (cases h; cases so) (simp_all add: kick_simps)
  with Some show ?thesis by (simp add: dispatchHandler_def)
qed (simp add: dispatchHandler_def)

lemma kick_route: "unknownMsgKickCount (routeEnvelope e s c env g) \<in> {unknownMsgKickCount g, 0}"
  using kick_dispatch [of e "Some s" c env g]
  by (auto simp: routeEnvelope_def Let_def kick_simps split: option.split TargetType.split)

lemma kick_OnEnvelope: "unknownMsgKickCount (OnEnvelope e c env g) \<in> {unknownMsgKickCount g, 0}"
proof -
  have "unknownMsgKickCount (if go_on then routeEnvelope e s c env g' else g') \<in> {unknownMsgKickCount g, 0}"
    if "unknownMsgKickCount g' = unknownMsgKickCount g" for go_on s g'
    using kick_route [of e s c env g'] that by simp
  then show ?thesis
    using kick_dispatch [of e None c env g] kick_route [of e _ c env g]
    by (auto simp: OnEnvelope_def split_def Let_def kick_simps split: option.split)
qed

lemma kick_step: "unknownMsgKickCount (gate_step e ev g) \<in> {unknownMsgKickCount g, 0}"
proof (cases ev)
  case (Receive c env)
  with kick_OnEnvelope [of e c env "markAlive c (now e) g"] show ?thesis
    by (simp add: ReadLoop_env_def kick_simps)
next
  case (FromService env)
  with kick_onLoginRsp [of e "eSessionId env" "ePayload env" g] show ?thesis
    by (simp add: OnServiceEnvelope_def Let_def kick_simps)
qed (auto simp: kick_simps heartbeatLoop_def gcLoop_def gcTick_def reportStats_def upd_client_def
      Let_def split: option.split)

lemma kick_run: "unknownMsgKickCount g = 0 \<Longrightarrow> unknownMsgKickCount (gate_run tr g) = 0"
proof (induction tr g rule: gate_run.induct)
  case (2 e ev tr g)
  have "unknownMsgKickCount (gate_step e ev g) = 0" using kick_step [of e ev g] 2 by auto
  with 2 show ?case by simp
qed simp

text \<open>
  C23: After one login reply that names a session and parses, the kick for unknown messages
  is off for the whole gate and for good: whatever happens afterwards, a client can send any
  number of unknown messages on any session and its session stays as connected as it was.
\<close>

theorem login_disables_unknown_message_kick:
  assumes "sm_Get (eSessionId env) (sessions g) = Some s" and "msg_id env = MsgLoginRsp"
    and "unmarshalLoginRsp (codec e) (ePayload env) = Some rsp"
  shows "unknownMsgKickCount (gate_run tr (OnServiceEnvelope e env g)) = 0 \<and>
    s_State (g_sess (unknownMsg e' r (gate_run tr (OnServiceEnvelope e env g))) r) =
      s_State (g_sess (gate_run tr (OnServiceEnvelope e env g)) r) \<and>
    s_Conn (g_sess (unknownMsg e' r (gate_run tr (OnServiceEnvelope e env g))) r) =
      s_Conn (g_sess (gate_run tr (OnServiceEnvelope e env g)) r)"
proof -
  have "unknownMsgKickCount (OnServiceEnvelope e env g) = 0"
    using assms onLoginRsp_alt [OF assms(1,3)]
    by (simp add: OnServiceEnvelope_def Let_def kick_simps route_simps)
  then have off: "unknownMsgKickCount (gate_run tr (OnServiceEnvelope e env g)) = 0"
    by (rule kick_run)
  then show ?thesis by (simp add: unknownMsg_def Let_def)
qed

theorem login_disables_unknown_message_kick_witness:
  "unknownMsgKickCount (gate_run [(demo_env 300, AcceptTCP)] demo3) = 0"
  using login_disables_unknown_message_kick [of "login_rsp 1 7" demo2 0 "demo_env 200"
      "\<lparr>lrPlayerId = 7\<rparr>" "[(demo_env 300, AcceptTCP)]"]
  by (simp add: demo3_def sm_Get_def demo2_state)

end
