(* ===== verification/PlayerDb.thy ===== *)
theory PlayerDb
  imports GoStrings Protocol
begin

text \<open>
  The player database (\<open>internal/player_db\<close>) on Redis (\<open>internal/db/redis_tools\<close>). The Redis
  client is a library: the commands the stores use are a parameter of the model, and the
  locale \<open>redis_laws\<close> states what Redis documents about them. JSON encoding of a profile is
  a parameter as well. \<open>player_store\<close> is the contract of the Go interface \<open>Store\<close>, and
  \<open>RedisStore\<close> is shown to implement it over every client that obeys the laws.
\<close>

subsection \<open>Parsing decimal integers\<close>

definition parse_digits :: "string \<Rightarrow> nat option" where
  "parse_digits s =
     (if s \<noteq> [] \<and> list_all (\<lambda>c. 48 \<le> (of_char c :: nat) \<and> (of_char c :: nat) < 58) s
      then Some (undec_nat s) else None)"

text \<open>\<open>strconv.ParseInt\<close> with base 10 and 64 bits.\<close>

definition parse_int64 :: "string \<Rightarrow> int64 option" where
  "parse_int64 s =
     (let (neg, ds) = (case s of c # r \<Rightarrow> (if c = CHR ''-'' then (True, r)
                                           else if c = CHR ''+'' then (False, r) else (False, s))
                       | [] \<Rightarrow> (False, s))
      in case parse_digits ds of
           None \<Rightarrow> None
         | Some n \<Rightarrow>
             (if neg then (if n \<le> 2 ^ 63 then Some (word_of_int (- int n)) else None)
              else (if n < 2 ^ 63 then Some (word_of_int (int n)) else None)))"

lemma parse_digits_dec_nat [simp]: "parse_digits (dec_nat n) = Some n"
  using dec_nat_digits [of _ n] by (auto simp: parse_digits_def list_all_iff undec_dec_nat dec_nat_nonempty
      simp del: undec_nat.simps)

lemma dec_nat_head: "dec_nat n = c # r \<Longrightarrow> c \<noteq> CHR ''-'' \<and> c \<noteq> CHR ''+''"
  using dec_nat_digits [of c n] by auto

lemma parse_dec_int [simp]: "parse_int64 (dec_int (sint n)) = Some n"
proof -
  have b: "- (2 ^ 63) \<le> sint n" "sint n < 2 ^ 63"
    using sint_greater_eq [of n] sint_less [of n] by simp_all
  show ?thesis
  proof (cases "sint n < 0")
    case True
    then show ?thesis using b by (simp add: dec_int_def parse_int64_def Let_def)
  next
    case False
    obtain c r where cr: "dec_nat (nat (sint n)) = c # r" using dec_nat_nonempty by (cases "dec_nat (nat (sint n))") auto
    have "parse_digits (c # r) = Some (nat (sint n))" using parse_digits_dec_nat [of "nat (sint n)"] cr by simp
    with False b dec_nat_head [OF cr] show ?thesis
      by (simp add: dec_int_def parse_int64_def Let_def cr nat_less_iff)
  qed
qed

subsection \<open>Keys\<close>

definition KeyUIDNext :: string where "KeyUIDNext = ''uid:next''"

definition KeyPlayerBase :: "int64 \<Rightarrow> string" where
  "KeyPlayerBase playerID = ''player:'' @ dec_int (sint playerID) @ '':base''"

definition KeyRank :: "string \<Rightarrow> string" where
  "KeyRank rankName = ''rank:'' @ rankName"

definition AccountRoleKey :: "string \<Rightarrow> string" where
  "AccountRoleKey accountID = ''account:'' @ accountID @ '':role''"

definition PlayerProfileKey :: "int64 \<Rightarrow> string" where
  "PlayerProfileKey roleID = ''player:'' @ dec_int (sint roleID) @ '':profile''"

text \<open>No two things the servers store share a key.\<close>

lemma AccountRoleKey_inj [simp]: "AccountRoleKey a = AccountRoleKey b \<longleftrightarrow> a = b"
  by (simp add: AccountRoleKey_def)

lemma PlayerProfileKey_inj [simp]: "PlayerProfileKey a = PlayerProfileKey b \<longleftrightarrow> a = b"
  by (auto simp: PlayerProfileKey_def dest: dec_int_inj intro: signed_word_eqI)

lemma keys_disjoint [simp]:
  "AccountRoleKey a \<noteq> PlayerProfileKey p" "PlayerProfileKey p \<noteq> AccountRoleKey a"
  "AccountRoleKey a \<noteq> KeyUIDNext" "KeyUIDNext \<noteq> AccountRoleKey a"
  "PlayerProfileKey p \<noteq> KeyUIDNext" "KeyUIDNext \<noteq> PlayerProfileKey p"
  by (simp_all add: AccountRoleKey_def PlayerProfileKey_def KeyUIDNext_def)

lemma base_key_disjoint: "KeyPlayerBase a \<noteq> PlayerProfileKey b"
proof
  assume "KeyPlayerBase a = PlayerProfileKey b"
  then have "dec_int (sint a) @ '':base'' = dec_int (sint b) @ '':profile''"
    by (simp add: KeyPlayerBase_def PlayerProfileKey_def)
  then have "last (dec_int (sint a) @ '':base'') = last (dec_int (sint b) @ '':profile'')"
    and "last (butlast (dec_int (sint a) @ '':base'')) = last (butlast (dec_int (sint b) @ '':profile''))"
    by simp_all
  then show False by (simp add: butlast_append)
qed

subsection \<open>Profiles\<close>

record PlayerProfile =
  RoleID :: int64
  AccountID :: string
  NickName :: string
  Level :: int32
  Exp :: int64
  Gold :: int64
  Stamina :: int64

definition NewProfile :: "int64 \<Rightarrow> string \<Rightarrow> PlayerProfile" where
  "NewProfile roleID accountID =
     \<lparr>RoleID = roleID, AccountID = accountID, NickName = ''Player-'' @ dec_int (sint roleID),
      Level = 1, Exp = 0, Gold = 100, Stamina = 100\<rparr>"

record json_codec =
  json_marshal :: "PlayerProfile \<Rightarrow> string option"
  json_unmarshal :: "string \<Rightarrow> PlayerProfile option"

subsection \<open>The store interface\<close>

text \<open>An error of an operation leaves the state it returns, for a failed write may have happened.\<close>

record 'd store =
  st_LoadRoleID :: "string \<Rightarrow> 'd \<Rightarrow> (go_error + int64 option) \<times> 'd"
  st_SaveRoleID :: "string \<Rightarrow> int64 \<Rightarrow> 'd \<Rightarrow> go_error option \<times> 'd"
  st_LoadProfile :: "int64 \<Rightarrow> 'd \<Rightarrow> (go_error + PlayerProfile option) \<times> 'd"
  st_SaveProfile :: "PlayerProfile \<Rightarrow> 'd \<Rightarrow> go_error option \<times> 'd"

locale player_store =
  fixes st :: "'d store"
    and roles :: "'d \<Rightarrow> string \<Rightarrow> int64 option"
    and profiles :: "'d \<Rightarrow> int64 \<Rightarrow> PlayerProfile option"
    and counter :: "'d \<Rightarrow> int64"
  assumes load_role: "st_LoadRoleID st a d = (Inr r, d') \<Longrightarrow>
      r = (if a = '''' then None else roles d a) \<and> roles d' = roles d \<and> profiles d' = profiles d \<and>
      counter d' = counter d"
    and save_role: "st_SaveRoleID st a p d = (None, d') \<Longrightarrow>
      roles d' = (if a = '''' \<or> p = 0 then roles d else (roles d)(a \<mapsto> p)) \<and>
      profiles d' = profiles d \<and> counter d' = counter d"
    and load_profile: "st_LoadProfile st p d = (Inr x, d') \<Longrightarrow>
      x = (if p = 0 then None else profiles d p) \<and> roles d' = roles d \<and> profiles d' = profiles d \<and>
      counter d' = counter d"
    and save_profile: "st_SaveProfile st pr d = (None, d') \<Longrightarrow>
      profiles d' = (if RoleID pr = 0 then profiles d else (profiles d)(RoleID pr \<mapsto> pr)) \<and>
      roles d' = roles d \<and> counter d' = counter d"
begin

text \<open>What was saved is what is loaded.\<close>

lemma role_roundtrip:
  assumes "st_SaveRoleID st a p d = (None, d1)" "st_LoadRoleID st b d1 = (Inr r, d2)"
    "a \<noteq> ''''" "p \<noteq> 0" "b \<noteq> ''''"
  shows "r = (if b = a then Some p else roles d b)"
  using save_role [OF assms(1)] load_role [OF assms(2)] assms(3-5) by simp

lemma profile_roundtrip:
  assumes "st_SaveProfile st x d = (None, d1)" "st_LoadProfile st p d1 = (Inr r, d2)"
    "RoleID x \<noteq> 0" "p \<noteq> 0"
  shows "r = (if p = RoleID x then Some x else profiles d p)"
  using save_profile [OF assms(1)] load_profile [OF assms(2)] assms(3,4) by simp

end

subsection \<open>The Redis commands used\<close>

datatype redis_value = VInt int64 | VBytes string

record 'r redis =
  r_Get :: "string \<Rightarrow> 'r \<Rightarrow> (go_error + string) \<times> 'r"
  r_Set :: "string \<Rightarrow> redis_value \<Rightarrow> duration \<Rightarrow> 'r \<Rightarrow> go_error option \<times> 'r"
  r_Incr :: "string \<Rightarrow> 'r \<Rightarrow> (go_error + int64) \<times> 'r"

definition RedisNil :: go_error where
  "RedisNil = LibError ''redis: nil''"

fun wire_text :: "redis_value \<Rightarrow> string" where
  "wire_text (VInt n) = dec_int (sint n)"
| "wire_text (VBytes s) = s"

text \<open>\<open>RedisDao\<close>, as far as the stores use it.\<close>

definition NextUID :: "'r redis \<Rightarrow> 'r \<Rightarrow> (go_error + int64) \<times> 'r" where
  "NextUID rd db = r_Incr rd KeyUIDNext db"

definition SetWithTTL :: "'r redis \<Rightarrow> string \<Rightarrow> redis_value \<Rightarrow> duration \<Rightarrow> 'r \<Rightarrow> go_error option \<times> 'r" where
  "SetWithTTL rd key v ttl db = r_Set rd key v ttl db"

definition GetString :: "'r redis \<Rightarrow> string \<Rightarrow> 'r \<Rightarrow> (go_error + string) \<times> 'r" where
  "GetString rd key db = r_Get rd key db"

subsection \<open>The store on Redis\<close>

definition LoadRoleID :: "'r redis \<Rightarrow> string \<Rightarrow> 'r \<Rightarrow> (go_error + int64 option) \<times> 'r" where
  "LoadRoleID rd accountID db =
     (if accountID = '''' then (Inr None, db)
      else (case GetString rd (AccountRoleKey accountID) db of
              (Inl err, db) \<Rightarrow> (if err = RedisNil then (Inr None, db) else (Inl err, db))
            | (Inr val, db) \<Rightarrow>
                (case parse_int64 val of
                   None \<Rightarrow> (Inl (LibError (''parse role id: '' @ val)), db)
                 | Some roleID \<Rightarrow> (Inr (Some roleID), db))))"

definition SaveRoleID :: "'r redis \<Rightarrow> string \<Rightarrow> int64 \<Rightarrow> 'r \<Rightarrow> go_error option \<times> 'r" where
  "SaveRoleID rd accountID roleID db =
     (if accountID = '''' \<or> roleID = 0 then (None, db)
      else SetWithTTL rd (AccountRoleKey accountID) (VInt roleID) 0 db)"

definition LoadProfile ::
    "'r redis \<Rightarrow> json_codec \<Rightarrow> int64 \<Rightarrow> 'r \<Rightarrow> (go_error + PlayerProfile option) \<times> 'r" where
  "LoadProfile rd jc roleID db =
     (if roleID = 0 then (Inr None, db)
      else (case GetString rd (PlayerProfileKey roleID) db of
              (Inl err, db) \<Rightarrow> (if err = RedisNil then (Inr None, db) else (Inl err, db))
            | (Inr val, db) \<Rightarrow>
                (case json_unmarshal jc val of
                   None \<Rightarrow> (Inl (LibError ''decode profile''), db)
                 | Some profile \<Rightarrow> (Inr (Some profile), db))))"

definition SaveProfile ::
    "'r redis \<Rightarrow> json_codec \<Rightarrow> PlayerProfile \<Rightarrow> 'r \<Rightarrow> go_error option \<times> 'r" where
  "SaveProfile rd jc profile db =
     (if RoleID profile = 0 then (None, db)
      else (case json_marshal jc profile of
              None \<Rightarrow> (Some (LibError ''encode profile''), db)
            | Some data \<Rightarrow> SetWithTTL rd (PlayerProfileKey (RoleID profile)) (VBytes data) 0 db))"

definition NewRedisStore :: "'r redis \<Rightarrow> json_codec \<Rightarrow> 'r store" where
  "NewRedisStore rd jc =
     \<lparr>st_LoadRoleID = LoadRoleID rd, st_SaveRoleID = SaveRoleID rd,
      st_LoadProfile = LoadProfile rd jc, st_SaveProfile = SaveProfile rd jc\<rparr>"

text \<open>
  What Redis documents: \<open>GET\<close> of a missing key is \<open>redis.Nil\<close>, \<open>SET\<close> without expiry stores
  the text of the value, \<open>INCR\<close> adds one to the decimal integer stored, zero when there is
  none, and fails on overflow. \<open>view\<close> is the string the server holds under each key; the
  commands may return other errors at any time. The JSON codec reads back what it wrote.
\<close>

locale redis_laws =
  fixes rd :: "'r redis"
    and view :: "'r \<Rightarrow> string \<Rightarrow> string option"
    and jc :: json_codec
  assumes get_ok: "r_Get rd k d = (Inr v, d') \<Longrightarrow> view d k = Some v \<and> view d' = view d"
    and get_nil: "r_Get rd k d = (Inl RedisNil, d') \<Longrightarrow> view d k = None \<and> view d' = view d"
    and set_ok: "r_Set rd k rv 0 d = (None, d') \<Longrightarrow> view d' = (view d)(k \<mapsto> wire_text rv)"
    and incr_ok: "r_Incr rd k d = (Inr n, d') \<Longrightarrow>
      view d' = (view d)(k \<mapsto> dec_int (sint n)) \<and>
      (case view d k of
         None \<Rightarrow> n = 1
       | Some s \<Rightarrow> \<exists>m. parse_int64 s = Some m \<and> sint n = sint m + 1)"
    and json_ok: "json_marshal jc pr = Some t \<Longrightarrow> json_unmarshal jc t = Some pr"

definition redis_roles :: "('r \<Rightarrow> string \<Rightarrow> string option) \<Rightarrow> 'r \<Rightarrow> string \<Rightarrow> int64 option" where
  "redis_roles view d a = Option.bind (view d (AccountRoleKey a)) parse_int64"

definition redis_profiles ::
    "('r \<Rightarrow> string \<Rightarrow> string option) \<Rightarrow> json_codec \<Rightarrow> 'r \<Rightarrow> int64 \<Rightarrow> PlayerProfile option" where
  "redis_profiles view jc d p = Option.bind (view d (PlayerProfileKey p)) (json_unmarshal jc)"

definition redis_counter :: "('r \<Rightarrow> string \<Rightarrow> string option) \<Rightarrow> 'r \<Rightarrow> int64" where
  "redis_counter view d =
     (case Option.bind (view d KeyUIDNext) parse_int64 of None \<Rightarrow> 0 | Some n \<Rightarrow> n)"

lemma redis_abs_cong:
  "view d' = view d \<Longrightarrow> redis_roles view d' = redis_roles view d \<and>
     redis_profiles view jc d' = redis_profiles view jc d \<and> redis_counter view d' = redis_counter view d"
  by (simp add: redis_roles_def redis_profiles_def redis_counter_def fun_eq_iff)

sublocale redis_laws \<subseteq> rs: player_store "NewRedisStore rd jc" "redis_roles view"
  "redis_profiles view jc" "redis_counter view"
proof
  show "r = (if a = '''' then None else redis_roles view d a) \<and> redis_roles view d' = redis_roles view d \<and>
      redis_profiles view jc d' = redis_profiles view jc d \<and> redis_counter view d' = redis_counter view d"
    if "st_LoadRoleID (NewRedisStore rd jc) a d = (Inr r, d')" for a d r d'
  proof (cases "a = ''''")
    case True
    with that show ?thesis by (simp add: NewRedisStore_def LoadRoleID_def)
  next
    case False
    obtain x d1 where g: "r_Get rd (AccountRoleKey a) d = (x, d1)" by (cases "r_Get rd (AccountRoleKey a) d")
    show ?thesis
    proof (cases x)
      case (Inl err)
      with that g False have "err = RedisNil" "r = None" "d' = d1"
        by (auto simp: NewRedisStore_def LoadRoleID_def GetString_def split: if_splits)
      moreover from this get_nil [of "AccountRoleKey a" d d1] g Inl
      have v: "view d' = view d" and n: "view d (AccountRoleKey a) = None" by simp_all
      have "redis_roles view d a = None" by (simp add: redis_roles_def n)
      with calculation redis_abs_cong [OF v] False show ?thesis by simp
    next
      case (Inr v)
      with that g False obtain p where "parse_int64 v = Some p" "r = Some p" "d' = d1"
        by (auto simp: NewRedisStore_def LoadRoleID_def GetString_def split: option.splits)
      moreover from this get_ok [of "AccountRoleKey a" d v d1] g Inr
      have vv: "view d' = view d" and n: "view d (AccountRoleKey a) = Some v" by simp_all
      have "redis_roles view d a = r" by (simp add: redis_roles_def n calculation)
      with calculation redis_abs_cong [OF vv] False show ?thesis by simp
    qed
  qed
  show "redis_roles view d' = (if a = '''' \<or> p = 0 then redis_roles view d else (redis_roles view d)(a \<mapsto> p)) \<and>
      redis_profiles view jc d' = redis_profiles view jc d \<and> redis_counter view d' = redis_counter view d"
    if "st_SaveRoleID (NewRedisStore rd jc) a p d = (None, d')" for a p d d'
  proof (cases "a = [] \<or> p = 0")
    case True
    with that show ?thesis by (auto simp: NewRedisStore_def SaveRoleID_def)
  next
    case False
    with that have s: "r_Set rd (AccountRoleKey a) (VInt p) 0 d = (None, d')"
      by (simp add: NewRedisStore_def SaveRoleID_def SetWithTTL_def)
    note v = set_ok [OF s]
    have "redis_roles view d' = (redis_roles view d)(a \<mapsto> p)"
      by (rule ext) (simp add: redis_roles_def v)
    moreover have "redis_profiles view jc d' = redis_profiles view jc d"
      by (rule ext) (simp add: redis_profiles_def v)
    moreover have "redis_counter view d' = redis_counter view d"
      by (simp add: redis_counter_def v)
    ultimately show ?thesis using False by simp
  qed
  show "x = (if p = 0 then None else redis_profiles view jc d p) \<and> redis_roles view d' = redis_roles view d \<and>
      redis_profiles view jc d' = redis_profiles view jc d \<and> redis_counter view d' = redis_counter view d"
    if "st_LoadProfile (NewRedisStore rd jc) p d = (Inr x, d')" for p d x d'
  proof (cases "p = 0")
    case True
    with that show ?thesis by (simp add: NewRedisStore_def LoadProfile_def)
  next
    case False
    obtain y d1 where g: "r_Get rd (PlayerProfileKey p) d = (y, d1)" by (cases "r_Get rd (PlayerProfileKey p) d")
    show ?thesis
    proof (cases y)
      case (Inl err)
      with that g False have "err = RedisNil" "x = None" "d' = d1"
        by (auto simp: NewRedisStore_def LoadProfile_def GetString_def split: if_splits)
      moreover from this get_nil [of "PlayerProfileKey p" d d1] g Inl
      have v: "view d' = view d" and n: "view d (PlayerProfileKey p) = None" by simp_all
      have "redis_profiles view jc d p = None" by (simp add: redis_profiles_def n)
      with calculation redis_abs_cong [OF v] False show ?thesis by simp
    next
      case (Inr v)
      with that g False obtain pr where "json_unmarshal jc v = Some pr" "x = Some pr" "d' = d1"
        by (auto simp: NewRedisStore_def LoadProfile_def GetString_def split: option.splits)
      moreover from this get_ok [of "PlayerProfileKey p" d v d1] g Inr
      have vv: "view d' = view d" and n: "view d (PlayerProfileKey p) = Some v" by simp_all
      have "redis_profiles view jc d p = x" by (simp add: redis_profiles_def n calculation)
      with calculation redis_abs_cong [OF vv] False show ?thesis by simp
    qed
  qed
  show "redis_profiles view jc d' = (if RoleID pr = 0 then redis_profiles view jc d
        else (redis_profiles view jc d)(RoleID pr \<mapsto> pr)) \<and>
      redis_roles view d' = redis_roles view d \<and> redis_counter view d' = redis_counter view d"
    if "st_SaveProfile (NewRedisStore rd jc) pr d = (None, d')" for pr d d'
  proof (cases "RoleID pr = 0")
    case True
    with that show ?thesis by (simp add: NewRedisStore_def SaveProfile_def)
  next
    case False
    with that obtain t where t: "json_marshal jc pr = Some t"
      and s: "r_Set rd (PlayerProfileKey (RoleID pr)) (VBytes t) 0 d = (None, d')"
      by (auto simp: NewRedisStore_def SaveProfile_def SetWithTTL_def split: option.splits)
    note v = set_ok [OF s]
    have "redis_profiles view jc d' = (redis_profiles view jc d)(RoleID pr \<mapsto> pr)"
      by (rule ext) (simp add: redis_profiles_def v json_ok [OF t])
    moreover have "redis_roles view d' = redis_roles view d"
      by (rule ext) (simp add: redis_roles_def v)
    moreover have "redis_counter view d' = redis_counter view d"
      by (simp add: redis_counter_def v)
    ultimately show ?thesis using False by simp
  qed
qed

end
