(* ===== verification/Player.thy ===== *)
theory Player
  imports Chan PlayerDb Link
begin

text \<open>
  A player of the game server (\<open>game/player_module/player.go\<close> and its modules): the profile, the
  life cycle behind compare-and-swap operations, the bounded inbox and the goroutine that handles
  it. The goroutine is a location and a step; a reply channel is named by its reference.
\<close>

subsection \<open>Data\<close>

datatype PlayerState =
    PlayerStateInit | PlayerStateActive | PlayerStateOffline | PlayerStateDestroyed

record PlayerContext =
  pcPlayerID :: int64
  pcSessionID :: int64
  pcGateID :: string

record Message =
  msMsgID :: int
  msEnv :: Envelope
  msReply :: "nat option"

record dispatchResult =
  drEnvelope :: "Envelope option"
  drHandled :: bool
  drErr :: "go_error option"

text \<open>The modules; the flag says whether \<open>Init\<close> has given the module its player.\<close>

datatype PlayerModule = BaseModule bool | ResumeModule bool

text \<open>Where the player's goroutine stands: before the state test, at the receive, or gone.\<close>

datatype loop_loc = LoopTest | LoopRecv | LoopExited

record Player =
  p_PlayerID :: int64
  p_SessionID :: int64
  p_Context :: PlayerContext
  p_Profile :: PlayerProfile
  p_inbox :: "Message chan"
  p_state :: PlayerState
  p_modules :: "PlayerModule list"
  p_loop :: loop_loc

subsection \<open>Modules\<close>

text \<open>The methods of the resume module; those of the base module are the first equations below.\<close>

definition resume_Name :: string where [simp]: "resume_Name = ''resume''"
definition resume_New :: PlayerModule where [simp]: "resume_New = ResumeModule False"
definition resume_Init :: PlayerModule where [simp]: "resume_Init = ResumeModule True"
definition resume_CanHandle :: "int \<Rightarrow> bool" where
  [simp]: "resume_CanHandle msgID \<longleftrightarrow> msgID = MsgPlayerResumeReq"

fun pm_Name :: "PlayerModule \<Rightarrow> string" where
  "pm_Name (BaseModule _) = ''base''"
| "pm_Name (ResumeModule _) = resume_Name"

fun pm_Init :: "PlayerModule \<Rightarrow> PlayerModule" where
  "pm_Init (BaseModule _) = BaseModule True"
| "pm_Init (ResumeModule _) = resume_Init"

fun pm_CanHandle :: "int \<Rightarrow> PlayerModule \<Rightarrow> bool" where
  "pm_CanHandle msgID (BaseModule _) \<longleftrightarrow> msgID = MsgPlayerEnterGameReq \<or> msgID = MsgLoadPlayerDataReq"
| "pm_CanHandle msgID (ResumeModule _) \<longleftrightarrow> resume_CanHandle msgID"

fun pm_OnResume :: "PlayerModule \<Rightarrow> PlayerModule" where
  "pm_OnResume (BaseModule p) = BaseModule p"
| "pm_OnResume (ResumeModule p) = ResumeModule p"

fun pm_OnOffline :: "PlayerModule \<Rightarrow> PlayerModule" where
  "pm_OnOffline (BaseModule p) = BaseModule p"
| "pm_OnOffline (ResumeModule p) = ResumeModule p"

text \<open>
  The registry of modules: the packages register in the order of their import paths, base
  before resume.
\<close>

definition RegisterPlayerModule :: "PlayerModule \<Rightarrow> PlayerModule list \<Rightarrow> PlayerModule list" where
  [simp]: "RegisterPlayerModule f ms = ms @ [f]"

definition registeredModules :: "PlayerModule list" where
  "registeredModules = RegisterPlayerModule resume_New (RegisterPlayerModule (BaseModule False) [])"

definition CreateModules :: "PlayerModule list" where
  "CreateModules = map (\<lambda>f. f) registeredModules"

subsection \<open>Life cycle\<close>

definition NewPlayer :: "int64 \<Rightarrow> int64 \<Rightarrow> PlayerProfile \<Rightarrow> PlayerModule list \<Rightarrow> Player" where
  "NewPlayer playerID sessionID profile modules =
     \<lparr>p_PlayerID = playerID, p_SessionID = sessionID,
      p_Context = \<lparr>pcPlayerID = playerID, pcSessionID = sessionID, pcGateID = ''''\<rparr>,
      p_Profile = profile, p_inbox = make_chan 64, p_state = PlayerStateActive,
      p_modules = map pm_Init modules, p_loop = LoopTest\<rparr>"

definition p_OnResume :: "int64 \<Rightarrow> Player \<Rightarrow> Player" where
  "p_OnResume sessionID p =
     (if p_state p = PlayerStateOffline then
        p\<lparr>p_state := PlayerStateActive, p_SessionID := sessionID,
          p_Context := (p_Context p)\<lparr>pcSessionID := sessionID\<rparr>,
          p_modules := map pm_OnResume (p_modules p)\<rparr>
      else p)"

definition p_OnOffline :: "Player \<Rightarrow> Player" where
  "p_OnOffline p =
     (if p_state p = PlayerStateActive then
        p\<lparr>p_state := PlayerStateOffline, p_modules := map pm_OnOffline (p_modules p)\<rparr>
      else p)"

definition p_Destroy :: "Player \<Rightarrow> Player" where
  "p_Destroy p = (if p_state p = PlayerStateOffline then p\<lparr>p_state := PlayerStateDestroyed\<rparr> else p)"

definition ToPlayerData :: "Player \<Rightarrow> PlayerData" where
  "ToPlayerData p =
     \<lparr>pdRoleId = RoleID (p_Profile p), pdNickname = NickName (p_Profile p),
      pdLevel = Level (p_Profile p), pdExp = Exp (p_Profile p), pdGold = Gold (p_Profile p),
      pdStamina = Stamina (p_Profile p)\<rparr>"

subsection \<open>Posting\<close>

definition Post :: "Message \<Rightarrow> Player \<Rightarrow> Player \<times> go_error option" where
  "Post msg p =
     (if p_state p = PlayerStateDestroyed then (p, Some ErrPlayerDestroyed)
      else if p_state p \<noteq> PlayerStateActive then (p, Some ErrPlayerClosed)
      else (case try_send msg (p_inbox p) of
              Some q \<Rightarrow> (p\<lparr>p_inbox := q\<rparr>, None)
            | None \<Rightarrow> (p, Some ErrPlayerBusy)))"

definition Notify :: "int \<Rightarrow> Envelope \<Rightarrow> Player \<Rightarrow> Player \<times> go_error option" where
  "Notify msgID env p = Post \<lparr>msMsgID = msgID, msEnv = env, msReply = None\<rparr> p"

text \<open>\<open>Dispatch\<close> up to its wait for the reply, and what it makes of the reply.\<close>

definition Dispatch_post :: "nat \<Rightarrow> int \<Rightarrow> Envelope \<Rightarrow> Player \<Rightarrow> Player \<times> go_error option" where
  "Dispatch_post reply msgID env p = Post \<lparr>msMsgID = msgID, msEnv = env, msReply = Some reply\<rparr> p"

definition Dispatch_result :: "dispatchResult \<Rightarrow> go_error + Envelope option" where
  "Dispatch_result res =
     (case drErr res of
        Some e \<Rightarrow> Inl e
      | None \<Rightarrow> (if \<not> drHandled res then Inl ErrUnknownMessage else Inr (drEnvelope res)))"

subsection \<open>Handling\<close>

text \<open>A module's \<open>Handle\<close> either panics, without its player, or returns its three results.\<close>

datatype handle_result = Panicked string | Handled "Envelope option" bool "go_error option"

definition nil_deref :: string where
  "nil_deref = ''runtime error: invalid memory address or nil pointer dereference''"

definition player_rsp :: "int \<Rightarrow> bytes option \<Rightarrow> Envelope \<Rightarrow> Envelope" where
  "player_rsp msgID data env =
     \<lparr>eMsgId = to_int32 msgID, eSessionId = eSessionId env, ePlayerId = ePlayerId env,
      ePayload = or_nil data\<rparr>"

definition resume_Handle :: "bool \<Rightarrow> Envelope \<Rightarrow> Player \<Rightarrow> handle_result \<times> Player" where
  [simp]: "resume_Handle ready env p =
     (if ready then (Handled None True None, p_OnResume (eSessionId env) p)
      else (Panicked nil_deref, p))"

fun pm_Handle :: "pb \<Rightarrow> PlayerModule \<Rightarrow> int \<Rightarrow> Envelope \<Rightarrow> Player \<Rightarrow> handle_result \<times> Player" where
  "pm_Handle pb (BaseModule ready) msgID env p =
     (if msgID = MsgPlayerEnterGameReq then
        (if ready then
           (Handled (Some (player_rsp MsgPlayerEnterGameRsp (marshalPlayerInitRsp pb (ToPlayerData p)) env))
              True None, p)
         else (Panicked nil_deref, p))
      else if msgID = MsgLoadPlayerDataReq then
        (if ready then
           (Handled (Some (player_rsp MsgLoadPlayerDataRsp (marshalLoadPlayerDataRsp pb (ToPlayerData p)) env))
              True None, p)
         else (Panicked nil_deref, p))
      else (Handled None False None, p))"
| "pm_Handle pb (ResumeModule ready) msgID env p = resume_Handle ready env p"

text \<open>
  The loop over the modules in \<open>handle\<close>, on the three variables its deferred function reads:
  a panic of a module is recovered and keeps the response of the module before it.
\<close>

fun run_modules ::
    "pb \<Rightarrow> PlayerModule list \<Rightarrow> Message \<Rightarrow> dispatchResult \<Rightarrow> Player \<Rightarrow> dispatchResult \<times> Player" where
  "run_modules pb [] msg acc p = (acc, p)"
| "run_modules pb (m # ms) msg acc p =
     (if \<not> pm_CanHandle (msMsgID msg) m then run_modules pb ms msg acc p
      else (case pm_Handle pb m (msMsgID msg) (msEnv msg) p of
              (Panicked why, p) \<Rightarrow>
                run_modules pb ms msg
                  (acc\<lparr>drErr := Some (LibError (''module panic: '' @ why)), drHandled := False\<rparr>) p
            | (Handled rsp h err, p) \<Rightarrow>
                (let acc = \<lparr>drEnvelope = rsp, drHandled = h, drErr = err\<rparr>
                 in if h then (acc, p) else run_modules pb ms msg acc p)))"

definition p_handle :: "pb \<Rightarrow> Message \<Rightarrow> Player \<Rightarrow> dispatchResult \<times> Player" where
  "p_handle pb msg p =
     run_modules pb (p_modules p) msg \<lparr>drEnvelope = None, drHandled = False, drErr = None\<rparr> p"

definition destroyed_result :: dispatchResult where
  "destroyed_result = \<lparr>drEnvelope = None, drHandled = False, drErr = Some ErrPlayerDestroyed\<rparr>"

text \<open>The replies of a step: to which channel, and what.\<close>

type_synonym replies = "(nat \<times> dispatchResult) list"

fun drain_replies :: "Message list \<Rightarrow> replies" where
  "drain_replies [] = []"
| "drain_replies (msg # ms) =
     (case msReply msg of None \<Rightarrow> drain_replies ms
      | Some r \<Rightarrow> (r, destroyed_result) # drain_replies ms)"

definition drainAndFail :: "Player \<Rightarrow> Player \<times> replies" where
  "drainAndFail p = (p\<lparr>p_inbox := (p_inbox p)\<lparr>ch_buf := []\<rparr>\<rparr>, drain_replies (ch_buf (p_inbox p)))"

text \<open>One step of the goroutine; at an empty inbox it waits.\<close>

definition loop_step :: "pb \<Rightarrow> Player \<Rightarrow> Player \<times> replies" where
  "loop_step pb p =
     (case p_loop p of
        LoopTest \<Rightarrow>
          (if p_state p = PlayerStateDestroyed then
             (let (p, rs) = drainAndFail p in (p\<lparr>p_loop := LoopExited\<rparr>, rs))
           else (p\<lparr>p_loop := LoopRecv\<rparr>, []))
      | LoopRecv \<Rightarrow>
          (case try_recv (p_inbox p) of
             None \<Rightarrow> (p, [])
           | Some (msg, q) \<Rightarrow>
               (let (res, p) = p_handle pb msg (p\<lparr>p_inbox := q\<rparr>)
                in (p\<lparr>p_loop := LoopTest\<rparr>,
                    case msReply msg of None \<Rightarrow> [] | Some r \<Rightarrow> [(r, res)])))
      | LoopExited \<Rightarrow> (p, []))"

end
