(* ===== verification/Conns.thy ===== *)
theory Conns
  imports Transport
begin

text \<open>
  The two implementations of \<open>transport.Conn\<close>: a TCP connection behind buffered readers and
  writers (\<open>buffered_conn.go\<close>) and a WebSocket (\<open>ws_conn.go\<close>). The locale is the contract of
  that interface: what one side writes, the other side reads, in order.
\<close>

subsection \<open>The interface\<close>

locale envelope_conn =
  fixes put :: "Envelope \<Rightarrow> 'u list \<Rightarrow> 'u list \<times> go_error option"
    and get :: "'u list \<Rightarrow> (go_error + Envelope) \<times> 'u list"
    and fits :: "Envelope \<Rightarrow> bool"
  assumes put_get: "fits env \<Longrightarrow>
      \<exists>f. (\<forall>w. put env w = (w @ f, None)) \<and> (\<forall>rest. get (f @ rest) = (Inr env, rest))"
begin

fun put_all :: "Envelope list \<Rightarrow> 'u list \<Rightarrow> 'u list" where
  "put_all [] w = w"
| "put_all (env # es) w = put_all es (fst (put env w))"

fun get_all :: "nat \<Rightarrow> 'u list \<Rightarrow> (go_error + Envelope) list \<times> 'u list" where
  "get_all 0 w = ([], w)"
| "get_all (Suc n) w =
     (let (r, w') = get w; (rs, w'') = get_all n w' in (r # rs, w''))"

lemma put_all_append: "list_all fits es \<Longrightarrow> \<exists>f. \<forall>w. put_all es w = w @ f"
proof (induction es)
  case (Cons env es)
  then obtain f where f: "\<forall>w. put_all es w = w @ f" by auto
  obtain h where "\<forall>w. put env w = (w @ h, None)" using put_get [of env] Cons.prems by auto
  with f show ?case by (intro exI [of _ "h @ f"]) simp
qed simp

theorem get_all_put_all:
  "list_all fits es \<Longrightarrow> get_all (length es) (put_all es [] @ rest) = (map Inr es, rest)"
proof (induction es)
  case (Cons env es)
  obtain h where h: "\<forall>w. put env w = (w @ h, None)" "\<forall>rest. get (h @ rest) = (Inr env, rest)"
    using put_get [of env] Cons.prems by auto
  obtain f where f: "\<forall>w. put_all es w = w @ f" using put_all_append Cons.prems by auto
  with h(1) have "put_all (env # es) [] = h @ put_all es []" by simp
  with h(2) Cons show ?case by simp
qed simp

end

subsection \<open>The buffered writer\<close>

text \<open>
  \<open>bufio.Writer\<close>: bytes wait in the buffer until it is full or flushed; the first error of
  the connection below sticks, and every later write and flush returns it.
\<close>

record bufwriter =
  bw_size :: nat
  bw_buf :: bytes
  bw_err :: "go_error option"
  bw_conn :: outstream

definition short_write :: "nat \<Rightarrow> outstream \<Rightarrow> nat" where
  "short_write n w = (case ws_script w of Some (k, _) # _ \<Rightarrow> min k n | _ \<Rightarrow> n)"

definition bufio_Flush :: "bufwriter \<Rightarrow> bufwriter" where
  "bufio_Flush b =
     (if bw_err b \<noteq> None \<or> bw_buf b = [] then b
      else (case stream_Write (bw_buf b) (bw_conn b) of
              (w, None) \<Rightarrow> b\<lparr>bw_conn := w, bw_buf := []\<rparr>
            | (w, Some e) \<Rightarrow>
                b\<lparr>bw_conn := w, bw_err := Some e,
                  bw_buf := drop (short_write (length (bw_buf b)) (bw_conn b)) (bw_buf b)\<rparr>))"

lemma bufio_Flush_cases:
  "bw_err (bufio_Flush b) \<noteq> None \<or> bw_buf (bufio_Flush b) = []"
  by (auto simp: bufio_Flush_def split: prod.split option.split)

text \<open>
  A write that does not fit fills the buffer and flushes it, so it goes on with an empty one or
  stops.
\<close>

function bufio_Write :: "bytes \<Rightarrow> bufwriter \<Rightarrow> bufwriter" where
  "bufio_Write p b =
     (if bw_err b \<noteq> None then b
      else if length p \<le> bw_size b - length (bw_buf b) then b\<lparr>bw_buf := bw_buf b @ p\<rparr>
      else if bw_buf b = [] then
        (case stream_Write p (bw_conn b) of
           (w, None) \<Rightarrow> b\<lparr>bw_conn := w\<rparr>
         | (w, Some e) \<Rightarrow> b\<lparr>bw_conn := w, bw_err := Some e\<rparr>)
      else
        (let n = bw_size b - length (bw_buf b)
         in bufio_Write (drop n p) (bufio_Flush (b\<lparr>bw_buf := bw_buf b @ take n p\<rparr>))))"
  by pat_completeness auto

termination
proof (relation "measure (\<lambda>(p, b). if bw_err b \<noteq> None then 0 else if bw_buf b = [] then 1 else 2)")
  show "wf (measure (\<lambda>(p :: bytes, b). if bw_err b \<noteq> None then 0 else if bw_buf b = [] then 1 else (2 :: nat)))"
    by (rule wf_measure)
next
  fix p :: bytes and b :: bufwriter and n :: nat
  assume "\<not> bw_err b \<noteq> None" "bw_buf b \<noteq> []" "n = bw_size b - length (bw_buf b)"
  then show "((drop n p, bufio_Flush (b\<lparr>bw_buf := bw_buf b @ take n p\<rparr>)), p, b)
      \<in> measure (\<lambda>(p, b). if bw_err b \<noteq> None then 0 else if bw_buf b = [] then 1 else 2)"
    using bufio_Flush_cases [of "b\<lparr>bw_buf := bw_buf b @ take n p\<rparr>"] by auto
qed

declare bufio_Write.simps [simp del]

subsection \<open>The TCP connection\<close>

definition defaultBufferSize :: nat where
  "defaultBufferSize = 4 * 1024 * 1024"

record BufferedConn =
  bc_reader :: instream
  bc_writer :: bufwriter
  bc_readTimeout :: duration
  bc_writeTimeout :: duration
  bc_readDeadline :: "time option"
  bc_writeDeadline :: "time option"
  bc_closed :: bool

definition NewBufferedConnWithOptions :: "instream \<Rightarrow> outstream \<Rightarrow> ConnOptions \<Rightarrow> BufferedConn" where
  "NewBufferedConnWithOptions i out opts =
     \<lparr>bc_reader = i,
      bc_writer = \<lparr>bw_size = defaultBufferSize, bw_buf = [], bw_err = None, bw_conn = out\<rparr>,
      bc_readTimeout = ReadTimeout opts, bc_writeTimeout = WriteTimeout opts,
      bc_readDeadline = None, bc_writeDeadline = None, bc_closed = False\<rparr>"

definition NewBufferedConn :: "instream \<Rightarrow> outstream \<Rightarrow> BufferedConn" where
  "NewBufferedConn i out =
     NewBufferedConnWithOptions i out \<lparr>ReadTimeout = 0, WriteTimeout = 0, KeepAlive = 0\<rparr>"

definition bc_ReadEnvelope ::
    "pb \<Rightarrow> uint32 \<Rightarrow> time \<Rightarrow> BufferedConn \<Rightarrow> BufferedConn \<times> (go_error + Envelope)" where
  "bc_ReadEnvelope pb maxSize t c =
     (let c = (if bc_readTimeout c > 0 then c\<lparr>bc_readDeadline := Some (t + bc_readTimeout c)\<rparr> else c);
          (r, i) = readEnvelope pb maxSize (bc_reader c)
      in (c\<lparr>bc_reader := i\<rparr>, r))"

text \<open>\<open>writeEnvelope\<close> on the buffered writer.\<close>

definition bw_writeEnvelope :: "pb \<Rightarrow> Envelope \<Rightarrow> bufwriter \<Rightarrow> bufwriter \<times> go_error option" where
  "bw_writeEnvelope pb env b =
     (case marshalEnvelope pb env of
        None \<Rightarrow> (b, Some proto_error)
      | Some data \<Rightarrow>
          (let b = bufio_Write (put_uint32 (word_of_nat (length data))) b
           in case bw_err b of
                Some e \<Rightarrow> (b, Some e)
              | None \<Rightarrow> (let b = bufio_Write data b in (b, bw_err b))))"

definition bc_WriteEnvelope ::
    "pb \<Rightarrow> time \<Rightarrow> Envelope \<Rightarrow> BufferedConn \<Rightarrow> BufferedConn \<times> go_error option" where
  "bc_WriteEnvelope pb t env c =
     (let c = (if bc_writeTimeout c > 0 then c\<lparr>bc_writeDeadline := Some (t + bc_writeTimeout c)\<rparr> else c)
      in case bw_writeEnvelope pb env (bc_writer c) of
           (b, Some e) \<Rightarrow> (c\<lparr>bc_writer := b\<rparr>, Some e)
         | (b, None) \<Rightarrow> (let b = bufio_Flush b in (c\<lparr>bc_writer := b\<rparr>, bw_err b)))"

definition bc_Close :: "BufferedConn \<Rightarrow> BufferedConn" where
  "bc_Close c = c\<lparr>bc_closed := True\<rparr>"

subsection \<open>Nothing but whole frames, in order\<close>

text \<open>
  A writer stands for the stream \<open>S\<close> it was asked to write: while it has not failed the
  bytes that went out and those in the buffer are \<open>S\<close>; afterwards what went out is a prefix
  of \<open>S\<close> and stays so.
\<close>

definition writes :: "bytes \<Rightarrow> bufwriter \<Rightarrow> bool" where
  "writes S b \<longleftrightarrow>
     (if bw_err b = None then ws_out (bw_conn b) @ bw_buf b = S
      else (\<exists>rest. S = ws_out (bw_conn b) @ rest))"

lemma writes_more: "bw_err b \<noteq> None \<Longrightarrow> writes S b \<Longrightarrow> writes (S @ p) b"
  by (auto simp: writes_def)

lemma stream_Write_out:
  "stream_Write p w = (w', x) \<Longrightarrow>
     (case x of None \<Rightarrow> ws_out w' = ws_out w @ p | Some e \<Rightarrow> \<exists>k. ws_out w' = ws_out w @ take k p)"
  by (auto simp: stream_Write_def split: list.splits option.splits)

lemma writes_Flush:
  assumes "writes S b" shows "writes S (bufio_Flush b)"
proof (cases "bw_err b \<noteq> None \<or> bw_buf b = []")
  case True
  with assms show ?thesis by (auto simp: bufio_Flush_def)
next
  case False
  obtain w x where s: "stream_Write (bw_buf b) (bw_conn b) = (w, x)"
    by (cases "stream_Write (bw_buf b) (bw_conn b)")
  show ?thesis
  proof (cases x)
    case None
    with stream_Write_out [OF s] assms False s show ?thesis by (simp add: bufio_Flush_def writes_def)
  next
    case (Some e)
    with stream_Write_out [OF s] obtain k where "ws_out w = ws_out (bw_conn b) @ take k (bw_buf b)"
      by auto
    moreover have "S = ws_out (bw_conn b) @ bw_buf b" using assms False by (simp add: writes_def)
    ultimately have "S = ws_out w @ drop k (bw_buf b)" by simp
    with s Some False show ?thesis by (auto simp: bufio_Flush_def writes_def)
  qed
qed

lemma writes_Write: "writes S b \<Longrightarrow> writes (S @ p) (bufio_Write p b)"
proof (induction p b arbitrary: S rule: bufio_Write.induct)
  case (1 p b)
  let ?n = "bw_size b - length (bw_buf b)"
  show ?case
  proof (cases "bw_err b \<noteq> None")
    case True
    with 1(2) show ?thesis by (subst bufio_Write.simps) (auto intro: writes_more)
  next
    case ok: False
    show ?thesis
    proof (cases "length p \<le> ?n \<or> bw_buf b = []")
      case True
      obtain w x where s: "stream_Write p (bw_conn b) = (w, x)" by (cases "stream_Write p (bw_conn b)")
      have "S = ws_out (bw_conn b) @ bw_buf b" using 1(2) ok by (simp add: writes_def)
      with stream_Write_out [OF s] ok s show ?thesis
        by (subst bufio_Write.simps) (use True in \<open>auto simp: writes_def split: option.splits\<close>,
            metis append_take_drop_id)
    next
      case False
      let ?b = "b\<lparr>bw_buf := bw_buf b @ take ?n p\<rparr>"
      have "writes (S @ take ?n p) ?b" using 1(2) ok by (simp add: writes_def)
      from 1(1) [OF _ _ _ refl writes_Flush [OF this]] ok False
      have "writes ((S @ take ?n p) @ drop ?n p) (bufio_Write (drop ?n p) (bufio_Flush ?b))" by simp
      then show ?thesis using ok False by (subst bufio_Write.simps) (simp add: Let_def)
    qed
  qed
qed

text \<open>The frames of the envelopes that can be marshalled, one after the other.\<close>

definition frames :: "pb \<Rightarrow> Envelope list \<Rightarrow> bytes" where
  "frames pb es = concat (map frame (List.map_filter (marshalEnvelope pb) es))"

lemma frames_simps [simp]:
  "frames pb [] = []"
  "frames pb (env # es) =
     (case marshalEnvelope pb env of None \<Rightarrow> frames pb es | Some d \<Rightarrow> frame d @ frames pb es)"
  by (simp_all add: frames_def map_filter_simps split: option.split)

lemma writes_bw_writeEnvelope:
  assumes "writes S b"
  shows "writes (S @ frames pb [env]) (fst (bw_writeEnvelope pb env b))"
proof (cases "marshalEnvelope pb env")
  case None
  with assms show ?thesis by (simp add: bw_writeEnvelope_def)
next
  case (Some d)
  let ?h = "put_uint32 (word_of_nat (length d))"
  have h: "writes (S @ ?h) (bufio_Write ?h b)" by (rule writes_Write [OF assms])
  show ?thesis
  proof (cases "bw_err (bufio_Write ?h b)")
    case None
    with Some writes_Write [OF h, of d] show ?thesis
      by (simp add: bw_writeEnvelope_def Let_def frame_def)
  next
    case err: (Some e)
    with Some writes_more [OF _ h, of d] show ?thesis
      by (simp add: bw_writeEnvelope_def Let_def frame_def)
  qed
qed

lemma writes_bc_WriteEnvelope:
  "writes S (bc_writer c) \<Longrightarrow>
     writes (S @ frames pb [env]) (bc_writer (fst (bc_WriteEnvelope pb t env c)))"
  using writes_bw_writeEnvelope [of S "bc_writer c" pb env]
  by (auto simp: bc_WriteEnvelope_def Let_def intro: writes_Flush split: prod.split option.split)

fun bc_WriteAll :: "pb \<Rightarrow> (time \<times> Envelope) list \<Rightarrow> BufferedConn \<Rightarrow> BufferedConn" where
  "bc_WriteAll pb [] c = c"
| "bc_WriteAll pb ((t, env) # es) c = bc_WriteAll pb es (fst (bc_WriteEnvelope pb t env c))"

lemma writes_bc_WriteAll:
  "writes S (bc_writer c) \<Longrightarrow>
     writes (S @ frames pb (map snd es)) (bc_writer (bc_WriteAll pb es c))"
proof (induction pb es c arbitrary: S rule: bc_WriteAll.induct)
  case (2 pb t env es c)
  from 2(1) [OF writes_bc_WriteEnvelope [OF 2(2), of pb env t]]
  show ?case by (simp split: option.splits)
qed simp

subsection \<open>The WebSocket\<close>

text \<open>
  The WebSocket library is a parameter: what \<open>ReadMessage\<close> returned, and \<open>WriteMessage\<close> as
  a function on its state. A text message carries JSON, every other message protobuf.
\<close>

definition TextMessage :: int where "TextMessage = 1"
definition BinaryMessage :: int where "BinaryMessage = 2"

definition json_error :: go_error where
  "json_error = LibError ''protojson''"

text \<open>The library's error for a message above the read limit of a connection.\<close>

definition ErrReadLimit :: go_error where
  "ErrReadLimit = LibError ''websocket: read limit exceeded''"

definition ws_ReadEnvelope :: "pb \<Rightarrow> go_error + int \<times> bytes \<Rightarrow> go_error + Envelope" where
  "ws_ReadEnvelope pb msg =
     (case msg of
        Inl e \<Rightarrow> Inl e
      | Inr (messageType, data) \<Rightarrow>
          (if messageType = TextMessage then
             (case jsonUnmarshalEnvelope pb data of None \<Rightarrow> Inl json_error | Some env \<Rightarrow> Inr env)
           else
             (case unmarshalEnvelope pb data of None \<Rightarrow> Inl proto_error | Some env \<Rightarrow> Inr env)))"

definition ws_WriteEnvelope ::
    "pb \<Rightarrow> bool \<Rightarrow> (int \<times> bytes \<Rightarrow> 'w \<Rightarrow> 'w \<times> go_error option) \<Rightarrow> Envelope \<Rightarrow> 'w
       \<Rightarrow> 'w \<times> go_error option" where
  "ws_WriteEnvelope pb useJSON WriteMessage env w =
     (if useJSON then
        (case jsonMarshalEnvelope pb env of
           None \<Rightarrow> (w, Some json_error) | Some data \<Rightarrow> WriteMessage (TextMessage, data) w)
      else
        (case marshalEnvelope pb env of
           None \<Rightarrow> (w, Some proto_error) | Some data \<Rightarrow> WriteMessage (BinaryMessage, data) w))"

subsection \<open>Both implement the interface\<close>

text \<open>A TCP connection whose writes succeed, from one byte stream to the other.\<close>

definition tcp_put :: "pb \<Rightarrow> Envelope \<Rightarrow> bytes \<Rightarrow> bytes \<times> go_error option" where
  "tcp_put pb env w =
     (let (c, x) = bc_WriteEnvelope pb 0 env
                     (NewBufferedConn \<lparr>st_bytes = [], st_end = EOF\<rparr> \<lparr>ws_out = w, ws_script = []\<rparr>)
      in (ws_out (bw_conn (bc_writer c)), x))"

definition tcp_get :: "pb \<Rightarrow> uint32 \<Rightarrow> bytes \<Rightarrow> (go_error + Envelope) \<times> bytes" where
  "tcp_get pb maxSize w =
     (let (c, r) = bc_ReadEnvelope pb maxSize 0
                     (NewBufferedConn \<lparr>st_bytes = w, st_end = EOF\<rparr> \<lparr>ws_out = [], ws_script = []\<rparr>)
      in (r, st_bytes (bc_reader c)))"

definition tcp_fits :: "pb \<Rightarrow> uint32 \<Rightarrow> Envelope \<Rightarrow> bool" where
  "tcp_fits pb maxSize env =
     (case marshalEnvelope pb env of
        None \<Rightarrow> False
      | Some d \<Rightarrow> length d < 2 ^ 32 \<and> (maxSize = 0 \<or> length d \<le> unat maxSize) \<and>
                  unmarshalEnvelope pb d = Some env)"

lemma bufio_Write_ok:
  assumes "bw_err b = None" "ws_script (bw_conn b) = []"
  shows "bw_err (bufio_Write p b) = None \<and> ws_script (bw_conn (bufio_Write p b)) = []"
  using assms
proof (induction p b rule: bufio_Write.induct)
  case (1 p b)
  have f: "bw_err (bufio_Flush b') = None \<and> ws_script (bw_conn (bufio_Flush b')) = []"
    if "bw_err b' = None" "ws_script (bw_conn b') = []" for b'
    using that by (simp add: bufio_Flush_def stream_Write_def)
  show ?case
    using 1 f by (subst (1 2) bufio_Write.simps) (auto simp: Let_def stream_Write_def)
qed

lemma bufio_Flush_ok:
  "bw_err b = None \<Longrightarrow> ws_script (bw_conn b) = [] \<Longrightarrow>
     bw_err (bufio_Flush b) = None \<and> bw_buf (bufio_Flush b) = []"
  by (simp add: bufio_Flush_def stream_Write_def)

lemma tcp_put_frame:
  assumes m: "marshalEnvelope pb env = Some d"
  shows "tcp_put pb env w = (w @ frame d, None)"
proof -
  let ?c = "NewBufferedConn \<lparr>st_bytes = [], st_end = EOF\<rparr> \<lparr>ws_out = w, ws_script = []\<rparr>"
  let ?h = "put_uint32 (word_of_nat (length d))"
  let ?b1 = "bufio_Write ?h (bc_writer ?c)"
  let ?b2 = "bufio_Write d ?b1"
  have b0: "bw_err (bc_writer ?c) = None" "ws_script (bw_conn (bc_writer ?c)) = []"
    "writes w (bc_writer ?c)"
    by (simp_all add: NewBufferedConn_def NewBufferedConnWithOptions_def writes_def)
  have b1: "bw_err ?b1 = None" "ws_script (bw_conn ?b1) = []" using bufio_Write_ok [OF b0(1,2)] by auto
  have b2: "bw_err ?b2 = None" "ws_script (bw_conn ?b2) = []" using bufio_Write_ok [OF b1] by auto
  have e: "bc_WriteEnvelope pb 0 env ?c = (?c\<lparr>bc_writer := bufio_Flush ?b2\<rparr>, None)"
    using m b1 b2 bufio_Flush_ok [OF b2]
    by (simp add: bc_WriteEnvelope_def bw_writeEnvelope_def Let_def)
      (simp add: NewBufferedConn_def NewBufferedConnWithOptions_def)
  have "writes (w @ frames pb [env]) (bufio_Flush ?b2)"
    using writes_bc_WriteEnvelope [OF b0(3), of pb env 0] e by simp
  then have "ws_out (bw_conn (bufio_Flush ?b2)) = w @ frame d"
    using m bufio_Flush_ok [OF b2] by (simp add: writes_def)
  with e show ?thesis by (simp add: tcp_put_def)
qed

lemma tcp_get_frame:
  assumes "tcp_fits pb maxSize env" and m: "marshalEnvelope pb env = Some d"
  shows "tcp_get pb maxSize (frame d @ rest) = (Inr env, rest)"
  using assms readEnvelope_frame [of d maxSize pb rest EOF]
  by (auto simp: tcp_get_def bc_ReadEnvelope_def NewBufferedConn_def NewBufferedConnWithOptions_def
      tcp_fits_def Let_def)

interpretation tcp: envelope_conn "tcp_put pb" "tcp_get pb maxSize" "tcp_fits pb maxSize" for pb maxSize
proof
  fix env assume f: "tcp_fits pb maxSize env"
  then obtain d where m: "marshalEnvelope pb env = Some d" by (auto simp: tcp_fits_def split: option.splits)
  with tcp_put_frame [OF m] tcp_get_frame [OF f m]
  show "\<exists>fr. (\<forall>w. tcp_put pb env w = (w @ fr, None)) \<and>
      (\<forall>rest. tcp_get pb maxSize (fr @ rest) = (Inr env, rest))"
    by blast
qed

text \<open>
  A WebSocket, from one message sequence to the other, with the read limit of its reader: a
  message above it is never read, nor is anything after it.
\<close>

definition ws_put :: "pb \<Rightarrow> bool \<Rightarrow> Envelope \<Rightarrow> (int \<times> bytes) list \<Rightarrow> (int \<times> bytes) list \<times> go_error option" where
  "ws_put pb useJSON env w = ws_WriteEnvelope pb useJSON (\<lambda>m w. (w @ [m], None)) env w"

fun ws_get :: "pb \<Rightarrow> nat \<Rightarrow> (int \<times> bytes) list \<Rightarrow> (go_error + Envelope) \<times> (int \<times> bytes) list" where
  "ws_get pb limit [] = (ws_ReadEnvelope pb (Inl EOF), [])"
| "ws_get pb limit (m # w) =
     (if limit < length (snd m) then (ws_ReadEnvelope pb (Inl ErrReadLimit), m # w)
      else (ws_ReadEnvelope pb (Inr m), w))"

definition ws_payload :: "pb \<Rightarrow> bool \<Rightarrow> Envelope \<Rightarrow> bytes option" where
  "ws_payload pb useJSON env = (if useJSON then jsonMarshalEnvelope pb env else marshalEnvelope pb env)"

definition ws_parse :: "pb \<Rightarrow> bool \<Rightarrow> bytes \<Rightarrow> Envelope option" where
  "ws_parse pb useJSON d = (if useJSON then jsonUnmarshalEnvelope pb d else unmarshalEnvelope pb d)"

definition ws_fits :: "pb \<Rightarrow> nat \<Rightarrow> bool \<Rightarrow> Envelope \<Rightarrow> bool" where
  "ws_fits pb limit useJSON env =
     (case ws_payload pb useJSON env of
        None \<Rightarrow> False | Some d \<Rightarrow> length d \<le> limit \<and> ws_parse pb useJSON d = Some env)"

definition ws_type :: "bool \<Rightarrow> int" where
  "ws_type useJSON = (if useJSON then TextMessage else BinaryMessage)"

lemma ws_WriteEnvelope_payload:
  "ws_WriteEnvelope pb useJSON W env w =
     (case ws_payload pb useJSON env of
        None \<Rightarrow> (w, Some (if useJSON then json_error else proto_error))
      | Some d \<Rightarrow> W (ws_type useJSON, d) w)"
  by (simp add: ws_WriteEnvelope_def ws_payload_def ws_type_def split: option.split)

lemma ws_ReadEnvelope_parse:
  "ws_parse pb useJSON d = Some env \<Longrightarrow> ws_ReadEnvelope pb (Inr (ws_type useJSON, d)) = Inr env"
  by (auto simp: ws_ReadEnvelope_def ws_parse_def ws_type_def TextMessage_def BinaryMessage_def split: if_splits)

lemma ws_ReadEnvelope_error [simp]: "ws_ReadEnvelope pb (Inl err) = Inl err"
  by (simp add: ws_ReadEnvelope_def)

interpretation ws: envelope_conn "ws_put pb useJSON" "ws_get pb limit" "ws_fits pb limit useJSON"
  for pb limit useJSON
proof
  fix env assume "ws_fits pb limit useJSON env"
  then obtain d where d: "ws_payload pb useJSON env = Some d" "length d \<le> limit" "ws_parse pb useJSON d = Some env"
    by (auto simp: ws_fits_def split: option.splits)
  then show "\<exists>f. (\<forall>w. ws_put pb useJSON env w = (w @ f, None)) \<and>
      (\<forall>rest. ws_get pb limit (f @ rest) = (Inr env, rest))"
    by (intro exI [of _ "[(ws_type useJSON, d)]"])
      (simp add: ws_put_def ws_WriteEnvelope_payload ws_ReadEnvelope_parse)
qed

subsection \<open>Properties\<close>

text \<open>
  C13: A TCP connection never tears the stream: whatever errors the socket reports and
  whenever, the bytes that reached it are a prefix of the frames of the envelopes written,
  in order, and when no error has been reported they are exactly those frames; after the
  first error nothing more is written.
\<close>

theorem tcp_stream_is_frames:
  assumes "bc_WriteAll pb es (NewBufferedConn i \<lparr>ws_out = [], ws_script = script\<rparr>) = c"
  shows "(\<exists>rest. frames pb (map snd es) = ws_out (bw_conn (bc_writer c)) @ rest) \<and>
    (bw_err (bc_writer c) = None \<longrightarrow>
       ws_out (bw_conn (bc_writer c)) @ bw_buf (bc_writer c) = frames pb (map snd es)) \<and>
    (bw_err (bc_writer c) \<noteq> None \<longrightarrow>
       bw_conn (bc_writer (bc_WriteAll pb later c)) = bw_conn (bc_writer c))"
proof -
  have "writes [] (bc_writer (NewBufferedConn i \<lparr>ws_out = [], ws_script = script\<rparr>))"
    by (simp add: writes_def NewBufferedConn_def NewBufferedConnWithOptions_def)
  from writes_bc_WriteAll [OF this, of pb es] have w: "writes (frames pb (map snd es)) (bc_writer c)"
    using assms by simp
  have stuck: "bw_conn (bc_writer (bc_WriteAll pb m k)) = bw_conn (bc_writer k)"
    if "bw_err (bc_writer k) \<noteq> None" for m k
    using that
  proof (induction pb m k rule: bc_WriteAll.induct)
    case (2 pb t env es c)
    have "bufio_Write p (bc_writer c) = bc_writer c" "bufio_Flush (bc_writer c) = bc_writer c" for p
      using 2(2) by (simp_all add: bufio_Write.simps bufio_Flush_def)
    with 2 have "bc_writer (fst (bc_WriteEnvelope pb t env c)) = bc_writer c"
      by (auto simp: bc_WriteEnvelope_def bw_writeEnvelope_def Let_def split: option.splits)
    with 2 show ?case by simp
  qed simp
  have "\<exists>rest. frames pb (map snd es) = ws_out (bw_conn (bc_writer c)) @ rest"
    using w by (cases "bw_err (bc_writer c)") (auto simp: writes_def intro: sym exI)
  with w stuck [of c later] show ?thesis by (simp add: writes_def)
qed

text \<open>A codec that carries payloads only, for the concrete instances below.\<close>

definition payload_pb :: pb where
  "payload_pb =
     \<lparr>marshalEnvelope = (\<lambda>env. Some (ePayload env)),
      unmarshalEnvelope = (\<lambda>d. Some \<lparr>eMsgId = 1, eSessionId = 0, ePlayerId = 0, ePayload = d\<rparr>),
      jsonMarshalEnvelope = (\<lambda>env. Some (rev (ePayload env))),
      jsonUnmarshalEnvelope = (\<lambda>d. Some \<lparr>eMsgId = 1, eSessionId = 0, ePlayerId = 0, ePayload = rev d\<rparr>),
      marshalSessionInit = (\<lambda>_. None), unmarshalResumeReq = (\<lambda>_. None),
      marshalResumeRsp = (\<lambda>_. None), unmarshalLoginReq = (\<lambda>_. None),
      marshalLoginRsp = (\<lambda>_. None), unmarshalLoginRsp = (\<lambda>_. None),
      marshalErrorRsp = (\<lambda>_. None), marshalPlayerInitRsp = (\<lambda>_. None),
      marshalLoadPlayerDataRsp = (\<lambda>_. None)\<rparr>"

abbreviation ping :: "byte \<Rightarrow> Envelope" where
  "ping b \<equiv> \<lparr>eMsgId = 1, eSessionId = 0, ePlayerId = 0, ePayload = [b, 0]\<rparr>"

theorem tcp_stream_is_frames_witness:
  "\<exists>rest. frames payload_pb [ping 5] = [0, 0] @ rest"
proof -
  let ?i = "\<lparr>st_bytes = [], st_end = EOF\<rparr>"
  have out: "ws_out (bw_conn (bc_writer (bc_WriteAll payload_pb [(0, ping 5)]
      (NewBufferedConn ?i \<lparr>ws_out = [], ws_script = [Some (2, EOF)]\<rparr>)))) = [0, 0]"
    by (simp add: NewBufferedConn_def NewBufferedConnWithOptions_def bc_WriteEnvelope_def
        bw_writeEnvelope_def bufio_Write.simps defaultBufferSize_def bufio_Flush_def stream_Write_def
        put_uint32_def short_write_def Let_def numeral_2_eq_2 payload_pb_def)
  show ?thesis
    using tcp_stream_is_frames [of payload_pb "[(0, ping 5)]" ?i "[Some (2, EOF)]" _ "[]", OF refl] out
    by simp
qed

text \<open>
  C14: What one end of a TCP connection writes the other end reads: any sequence of envelopes
  that the codec can carry and whose encodings are within the size limit is read back whole,
  in order, and the bytes that follow are left alone.
\<close>

theorem tcp_roundtrip:
  "list_all (tcp_fits pb maxSize) es \<Longrightarrow>
     tcp.get_all pb maxSize (length es) (tcp.put_all pb es [] @ rest) = (map Inr es, rest)"
  by (rule tcp.get_all_put_all)

theorem tcp_roundtrip_witness:
  "tcp.get_all payload_pb 16 (length [ping 1, ping 2]) (tcp.put_all payload_pb [ping 1, ping 2] [] @ [9]) =
     ([Inr (ping 1), Inr (ping 2)], [9])"
proof -
  have "list_all (tcp_fits payload_pb 16) [ping 1, ping 2]" by (simp add: tcp_fits_def payload_pb_def)
  from tcp_roundtrip [OF this, of "[9]"] show ?thesis by (simp only: list.map)
qed

end
