(* ===== verification/GameServer.thy ===== *)
theory GameServer
  imports Player Conns
begin

text \<open>
  The player manager (\<open>game/player_module/player_manager.go\<close>) and the game server
  (\<open>game/server.go\<close>). Players and reply channels are shared by reference between goroutines, so
  they live in stores indexed by references; each connection from a service has a location, for
  its handler waits for the player's goroutine between a request and its response.
\<close>

subsection \<open>State\<close>

record 'd PlayerManager =
  pm_players :: "int64 \<Rightarrow> nat option"
  pm_sessions :: "int64 \<Rightarrow> int64 option"
  pm_store :: "'d store"

text \<open>
  A connection's handler reads; is about to enter a player it did not find, whose profile it has
  loaded; waits on a reply channel; or has found a player and stands between two of the critical
  sections of \<open>GetOrCreate\<close> and \<open>Dispatch\<close> or of \<open>MarkOffline\<close>. The flag tells whether it will write
  the response back, which it does not for a resume request.
\<close>

datatype handler_point =
    AtResume Envelope bool | AtBind Envelope bool | AtDispatch Envelope bool
  | AtSave | AtOffline | AtUnbind

datatype conn_loc =
    ConnReading | ConnCreating Envelope int64 PlayerProfile bool | ConnAt handler_point nat
  | ConnWaiting nat bool | ConnEnded

record game_conn =
  gc_conn :: BufferedConn
  gc_loc :: conn_loc

record 'd game =
  gm_players :: "'d PlayerManager"
  gm_connOptions :: ConnOptions
  gm_persistInterval :: duration
  gm_db :: 'd
  gm_heap :: "nat \<Rightarrow> Player"
  gm_heapNext :: nat
  gm_replies :: "nat \<Rightarrow> dispatchResult chan"
  gm_replyNext :: nat
  gm_conns :: "nat \<Rightarrow> game_conn"
  gm_connNext :: nat

definition NewPlayerManager :: "'d store \<Rightarrow> 'd PlayerManager" where
  "NewPlayerManager st = \<lparr>pm_players = Map.empty, pm_sessions = Map.empty, pm_store = st\<rparr>"

definition blank_player :: Player where
  "blank_player = NewPlayer 0 0 (NewProfile 0 '''') []"

definition blank_conn :: game_conn where
  "blank_conn =
     \<lparr>gc_conn = NewBufferedConn \<lparr>st_bytes = [], st_end = EOF\<rparr> \<lparr>ws_out = [], ws_script = []\<rparr>,
      gc_loc = ConnEnded\<rparr>"

definition NewGameServer :: "'d store \<Rightarrow> ConnOptions \<Rightarrow> duration \<Rightarrow> 'd \<Rightarrow> 'd game" where
  "NewGameServer st opts interval db =
     \<lparr>gm_players = NewPlayerManager st, gm_connOptions = opts, gm_persistInterval = interval,
      gm_db = db, gm_heap = (\<lambda>_. blank_player), gm_heapNext = 0,
      gm_replies = (\<lambda>_. make_chan 1), gm_replyNext = 0, gm_conns = (\<lambda>_. blank_conn),
      gm_connNext = 0\<rparr>"

abbreviation players_of :: "'d game \<Rightarrow> int64 \<Rightarrow> nat option" where
  "players_of gm \<equiv> pm_players (gm_players gm)"

abbreviation sessions_of :: "'d game \<Rightarrow> int64 \<Rightarrow> int64 option" where
  "sessions_of gm \<equiv> pm_sessions (gm_players gm)"

definition upd_player :: "nat \<Rightarrow> (Player \<Rightarrow> Player) \<Rightarrow> 'd game \<Rightarrow> 'd game" where
  "upd_player r f gm = gm\<lparr>gm_heap := (gm_heap gm)(r := f (gm_heap gm r))\<rparr>"

definition set_session :: "int64 \<Rightarrow> int64 option \<Rightarrow> 'd game \<Rightarrow> 'd game" where
  "set_session sid pid gm =
     gm\<lparr>gm_players := (gm_players gm)\<lparr>pm_sessions := (sessions_of gm)(sid := pid)\<rparr>\<rparr>"

subsection \<open>The player manager\<close>

text \<open>
  \<open>GetOrCreate\<close> when the player is not in memory: it loads the profile, or saves a new one, and
  then enters a new player, without looking again whether there is one by now.
\<close>

definition install_player :: "int64 \<Rightarrow> int64 \<Rightarrow> PlayerProfile \<Rightarrow> 'd game \<Rightarrow> nat \<times> 'd game" where
  "install_player sessionID playerID profile gm =
     (let r = gm_heapNext gm;
          gm = gm\<lparr>gm_heap := (gm_heap gm)(r := NewPlayer playerID sessionID profile CreateModules),
                  gm_heapNext := Suc r,
                  gm_players := (gm_players gm)\<lparr>pm_players := (players_of gm)(playerID \<mapsto> r)\<rparr>\<rparr>
      in (r, set_session sessionID (Some playerID) gm))"

definition load_profile :: "int64 \<Rightarrow> 'd game \<Rightarrow> (go_error + PlayerProfile) \<times> 'd game" where
  "load_profile playerID gm =
     (case st_LoadProfile (pm_store (gm_players gm)) playerID (gm_db gm) of
        (Inl err, db) \<Rightarrow> (Inl err, gm\<lparr>gm_db := db\<rparr>)
      | (Inr (Some profile), db) \<Rightarrow> (Inr profile, gm\<lparr>gm_db := db\<rparr>)
      | (Inr None, db) \<Rightarrow>
          (case st_SaveProfile (pm_store (gm_players gm)) (NewProfile playerID '''') db of
             (Some err, db) \<Rightarrow> (Inl err, gm\<lparr>gm_db := db\<rparr>)
           | (None, db) \<Rightarrow> (Inr (NewProfile playerID ''''), gm\<lparr>gm_db := db\<rparr>)))"

definition create_player :: "int64 \<Rightarrow> int64 \<Rightarrow> 'd game \<Rightarrow> (go_error + nat) \<times> 'd game" where
  "create_player sessionID playerID gm =
     (case load_profile playerID gm of
        (Inl err, gm) \<Rightarrow> (Inl err, gm)
      | (Inr profile, gm) \<Rightarrow>
          (let (r, gm) = install_player sessionID playerID profile gm in (Inr r, gm)))"

definition GetOrCreate :: "int64 \<Rightarrow> int64 \<Rightarrow> 'd game \<Rightarrow> (go_error + nat) \<times> 'd game" where
  "GetOrCreate sessionID playerID gm =
     (case players_of gm playerID of
        Some r \<Rightarrow>
          (let gm = upd_player r (\<lambda>p. p_OnResume sessionID (p\<lparr>p_SessionID := sessionID\<rparr>)) gm
           in (Inr r, set_session sessionID (Some (p_PlayerID (gm_heap gm r))) gm))
      | None \<Rightarrow> create_player sessionID playerID gm)"

definition MarkOffline :: "int64 \<Rightarrow> 'd game \<Rightarrow> 'd game" where
  "MarkOffline playerID gm =
     (case players_of gm playerID of
        None \<Rightarrow> gm
      | Some r \<Rightarrow>
          (let db = snd (st_SaveProfile (pm_store (gm_players gm)) (p_Profile (gm_heap gm r)) (gm_db gm));
               gm = upd_player r p_OnOffline (gm\<lparr>gm_db := db\<rparr>)
           in set_session (p_SessionID (gm_heap gm r)) None gm))"

definition DestroyPlayer :: "int64 \<Rightarrow> 'd game \<Rightarrow> 'd game" where
  "DestroyPlayer playerID gm =
     (let found = players_of gm playerID;
          gm = gm\<lparr>gm_players := (gm_players gm)\<lparr>pm_players := (players_of gm)(playerID := None)\<rparr>\<rparr>
      in case found of None \<Rightarrow> gm | Some r \<Rightarrow> upd_player r p_Destroy gm)"

text \<open>A missing session reads as player 0, the zero value of the map.\<close>

definition GetBySessionID :: "int64 \<Rightarrow> 'd game \<Rightarrow> nat option" where
  "GetBySessionID sessionID gm =
     players_of gm (case sessions_of gm sessionID of None \<Rightarrow> 0 | Some playerID \<Rightarrow> playerID)"

text \<open>\<open>SaveAll\<close> visits the players of the map in some order \<open>ord\<close>.\<close>

definition save_one :: "int64 \<Rightarrow> 'd game \<Rightarrow> 'd game" where
  "save_one playerID gm =
     (case players_of gm playerID of
        None \<Rightarrow> gm
      | Some r \<Rightarrow>
          gm\<lparr>gm_db := snd (st_SaveProfile (pm_store (gm_players gm)) (p_Profile (gm_heap gm r)) (gm_db gm))\<rparr>)"

definition SaveAll :: "int64 list \<Rightarrow> 'd game \<Rightarrow> 'd game" where
  "SaveAll ord gm = fold save_one ord gm"

subsection \<open>The server\<close>

definition acceptService :: "instream \<Rightarrow> outstream \<Rightarrow> 'd game \<Rightarrow> nat \<times> 'd game" where
  "acceptService i out gm =
     (let k = gm_connNext gm;
          c = \<lparr>gc_conn = NewBufferedConnWithOptions i out (gm_connOptions gm), gc_loc = ConnReading\<rparr>
      in (k, gm\<lparr>gm_conns := (gm_conns gm)(k := c), gm_connNext := Suc k\<rparr>))"

definition set_loc :: "nat \<Rightarrow> conn_loc \<Rightarrow> 'd game \<Rightarrow> 'd game" where
  "set_loc k l gm = gm\<lparr>gm_conns := (gm_conns gm)(k := (gm_conns gm k)\<lparr>gc_loc := l\<rparr>)\<rparr>"

definition resolvePlayer :: "Envelope \<Rightarrow> 'd game \<Rightarrow> int64" where
  "resolvePlayer env gm =
     (if ePlayerId env = 0 \<and> eSessionId env \<noteq> 0 then
        (case GetBySessionID (eSessionId env) gm of
           Some r \<Rightarrow> p_PlayerID (gm_heap gm r)
         | None \<Rightarrow> ePlayerId env)
      else ePlayerId env)"

text \<open>\<open>player.Dispatch\<close> up to its wait: a fresh reply channel, and the handler waits on it.\<close>

definition dispatch_to :: "nat \<Rightarrow> bool \<Rightarrow> Envelope \<Rightarrow> nat \<Rightarrow> 'd game \<Rightarrow> 'd game" where
  "dispatch_to k answer env r gm =
     (let reply = gm_replyNext gm;
          gm = gm\<lparr>gm_replies := (gm_replies gm)(reply := make_chan 1), gm_replyNext := Suc reply\<rparr>;
          (p, err) = Dispatch_post reply (msg_id env) env (gm_heap gm r);
          gm = gm\<lparr>gm_heap := (gm_heap gm)(r := p)\<rparr>
      in if err = None then set_loc k (ConnWaiting reply answer) gm else gm)"

text \<open>One envelope read by \<open>handleConn\<close>.\<close>

definition handleConn_env :: "nat \<Rightarrow> Envelope \<Rightarrow> 'd game \<Rightarrow> 'd game" where
  "handleConn_env k env gm =
     (let playerID = resolvePlayer env gm
      in if msg_id env = MsgPlayerOfflineNotify then
           (if playerID \<noteq> 0 then MarkOffline playerID gm else gm)
         else if msg_id env = MsgPlayerResumeReq then
           (if playerID = 0 then gm
            else (case GetOrCreate (eSessionId env) playerID gm of
                    (Inl err, gm) \<Rightarrow> gm
                  | (Inr r, gm) \<Rightarrow> dispatch_to k False env r gm))
         else
           (case GetOrCreate (eSessionId env) playerID gm of
              (Inl err, gm) \<Rightarrow> gm
            | (Inr r, gm) \<Rightarrow> dispatch_to k True env r gm))"

text \<open>
  The same in two steps, between which other goroutines run: when the player is not in memory,
  the handler first loads its profile and then enters the player and hands it the envelope.
\<close>

definition handleConn_begin :: "nat \<Rightarrow> Envelope \<Rightarrow> 'd game \<Rightarrow> 'd game" where
  "handleConn_begin k env gm =
     (let playerID = resolvePlayer env gm; answer = (msg_id env \<noteq> MsgPlayerResumeReq)
      in if msg_id env = MsgPlayerOfflineNotify \<or> players_of gm playerID \<noteq> None \<or>
            (\<not> answer \<and> playerID = 0)
         then handleConn_env k env gm
         else (case load_profile playerID gm of
                 (Inl err, gm) \<Rightarrow> gm
               | (Inr profile, gm) \<Rightarrow> set_loc k (ConnCreating env playerID profile answer) gm))"

definition handleConn_create :: "nat \<Rightarrow> 'd game \<Rightarrow> 'd game" where
  "handleConn_create k gm =
     (case gc_loc (gm_conns gm k) of
        ConnCreating env playerID profile answer \<Rightarrow>
          (let (r, gm) = install_player (eSessionId env) playerID profile gm
           in dispatch_to k answer env r (set_loc k ConnReading gm))
      | _ \<Rightarrow> gm)"

text \<open>
  The handler in its finest steps. It first looks the player up. When the player is in memory it
  holds a reference to it from then on and goes on with one step for each access to what other
  goroutines share: for an offline notice the save, the change of state and the removal of the
  session; otherwise the change of session and state, the entry of the session and the post.
\<close>

definition handleConn_take :: "nat \<Rightarrow> Envelope \<Rightarrow> 'd game \<Rightarrow> 'd game" where
  "handleConn_take k env gm =
     (let playerID = resolvePlayer env gm; answer = (msg_id env \<noteq> MsgPlayerResumeReq)
      in case players_of gm playerID of
           None \<Rightarrow> handleConn_begin k env gm
         | Some r \<Rightarrow>
             (if msg_id env = MsgPlayerOfflineNotify then
                (if playerID \<noteq> 0 then set_loc k (ConnAt AtSave r) gm else gm)
              else if \<not> answer \<and> playerID = 0 then gm
              else set_loc k (ConnAt (AtResume env answer) r) gm))"

definition found_resume :: "int64 \<Rightarrow> nat \<Rightarrow> 'd game \<Rightarrow> 'd game" where
  "found_resume sessionID r gm =
     upd_player r (\<lambda>p. p_OnResume sessionID (p\<lparr>p_SessionID := sessionID\<rparr>)) gm"

definition found_bind :: "int64 \<Rightarrow> nat \<Rightarrow> 'd game \<Rightarrow> 'd game" where
  "found_bind sessionID r gm = set_session sessionID (Some (p_PlayerID (gm_heap gm r))) gm"

definition offline_save :: "nat \<Rightarrow> 'd game \<Rightarrow> 'd game" where
  "offline_save r gm =
     gm\<lparr>gm_db := snd (st_SaveProfile (pm_store (gm_players gm)) (p_Profile (gm_heap gm r)) (gm_db gm))\<rparr>"

definition offline_unbind :: "nat \<Rightarrow> 'd game \<Rightarrow> 'd game" where
  "offline_unbind r gm = set_session (p_SessionID (gm_heap gm r)) None gm"

declare found_resume_def [simp] found_bind_def [simp] offline_save_def [simp] offline_unbind_def [simp]

fun handler_next :: "nat \<Rightarrow> handler_point \<Rightarrow> nat \<Rightarrow> 'd game \<Rightarrow> 'd game" where
  "handler_next k (AtResume env answer) r gm =
     set_loc k (ConnAt (AtBind env answer) r) (found_resume (eSessionId env) r gm)"
| "handler_next k (AtBind env answer) r gm =
     set_loc k (ConnAt (AtDispatch env answer) r) (found_bind (eSessionId env) r gm)"
| "handler_next k (AtDispatch env answer) r gm = dispatch_to k answer env r (set_loc k ConnReading gm)"
| "handler_next k AtSave r gm = set_loc k (ConnAt AtOffline r) (offline_save r gm)"
| "handler_next k AtOffline r gm = set_loc k (ConnAt AtUnbind r) (upd_player r p_OnOffline gm)"
| "handler_next k AtUnbind r gm = set_loc k ConnReading (offline_unbind r gm)"

definition handleConn_next :: "nat \<Rightarrow> 'd game \<Rightarrow> 'd game" where
  "handleConn_next k gm =
     (case gc_loc (gm_conns gm k) of ConnAt pt r \<Rightarrow> handler_next k pt r gm | _ \<Rightarrow> gm)"

text \<open>The end of the wait: the reply has come, or five seconds have passed.\<close>

definition handleConn_reply :: "pb \<Rightarrow> time \<Rightarrow> nat \<Rightarrow> 'd game \<Rightarrow> 'd game" where
  "handleConn_reply pb t k gm =
     (case gc_loc (gm_conns gm k) of
        ConnWaiting reply answer \<Rightarrow>
          (case try_recv (gm_replies gm reply) of
             None \<Rightarrow> gm
           | Some (res, ch) \<Rightarrow>
               (let gm = set_loc k ConnReading (gm\<lparr>gm_replies := (gm_replies gm)(reply := ch)\<rparr>)
                in case Dispatch_result res of
                     Inl err \<Rightarrow> gm
                   | Inr None \<Rightarrow> gm
                   | Inr (Some rsp) \<Rightarrow>
                       (if answer then
                          gm\<lparr>gm_conns := (gm_conns gm)(k := (gm_conns gm k)
                               \<lparr>gc_conn := fst (bc_WriteEnvelope pb t rsp (gc_conn (gm_conns gm k)))\<rparr>)\<rparr>
                        else gm)))
      | _ \<Rightarrow> gm)"

definition handleConn_timeout :: "nat \<Rightarrow> 'd game \<Rightarrow> 'd game" where
  "handleConn_timeout k gm =
     (case gc_loc (gm_conns gm k) of ConnWaiting reply answer \<Rightarrow> set_loc k ConnReading gm | _ \<Rightarrow> gm)"

definition handleConn_end :: "nat \<Rightarrow> 'd game \<Rightarrow> 'd game" where
  "handleConn_end k gm =
     gm\<lparr>gm_conns := (gm_conns gm)(k :=
          \<lparr>gc_conn = bc_Close (gc_conn (gm_conns gm k)), gc_loc = ConnEnded\<rparr>)\<rparr>"

text \<open>One step of a player's goroutine, its replies put into their channels.\<close>

definition send_reply :: "nat \<times> dispatchResult \<Rightarrow> 'd game \<Rightarrow> 'd game" where
  "send_reply rr gm =
     (case try_send (snd rr) (gm_replies gm (fst rr)) of
        Some ch \<Rightarrow> gm\<lparr>gm_replies := (gm_replies gm)(fst rr := ch)\<rparr>
      | None \<Rightarrow> gm)"

definition player_loop :: "pb \<Rightarrow> nat \<Rightarrow> 'd game \<Rightarrow> 'd game" where
  "player_loop pb r gm =
     (let (p, rs) = loop_step pb (gm_heap gm r)
      in fold send_reply rs (gm\<lparr>gm_heap := (gm_heap gm)(r := p)\<rparr>))"

definition persistLoop :: "int64 list \<Rightarrow> 'd game \<Rightarrow> 'd game" where
  "persistLoop ord gm = (if gm_persistInterval gm > 0 then SaveAll ord gm else gm)"

text \<open>The game server as \<open>cmd/game/main.go\<close> starts it.\<close>

definition boot_game :: "'r redis \<Rightarrow> json_codec \<Rightarrow> ConnOptions \<Rightarrow> 'r \<Rightarrow> 'r game" where
  "boot_game rd jc opts db = NewGameServer (NewRedisStore rd jc) opts (30 * second) db"

subsection \<open>Steps\<close>

datatype game_event =
    SvcConnect instream outstream
  | SvcEnvelope nat Envelope
  | SvcBegins nat Envelope
  | SvcCreates nat
  | SvcTakes nat Envelope
  | SvcNext nat
  | SvcReply nat
  | SvcTimeout nat
  | SvcEnds nat
  | PlayerStep nat
  | PersistTick "int64 list"
  | Destroy int64

fun game_step :: "pb \<Rightarrow> time \<Rightarrow> game_event \<Rightarrow> 'd game \<Rightarrow> 'd game" where
  "game_step pb t (SvcConnect i out) gm = snd (acceptService i out gm)"
| "game_step pb t (SvcEnvelope k env) gm = handleConn_env k env gm"
| "game_step pb t (SvcBegins k env) gm = handleConn_begin k env gm"
| "game_step pb t (SvcCreates k) gm = handleConn_create k gm"
| "game_step pb t (SvcTakes k env) gm = handleConn_take k env gm"
| "game_step pb t (SvcNext k) gm = handleConn_next k gm"
| "game_step pb t (SvcReply k) gm = handleConn_reply pb t k gm"
| "game_step pb t (SvcTimeout k) gm = handleConn_timeout k gm"
| "game_step pb t (SvcEnds k) gm = handleConn_end k gm"
| "game_step pb t (PlayerStep r) gm = player_loop pb r gm"
| "game_step pb t (PersistTick ord) gm = persistLoop ord gm"
| "game_step pb t (Destroy playerID) gm = DestroyPlayer playerID gm"

text \<open>A handler reads only while it does not wait, and ends only while it reads.\<close>

fun game_enabled :: "game_event \<Rightarrow> 'd game \<Rightarrow> bool" where
  "game_enabled (SvcEnvelope k env) gm \<longleftrightarrow> k < gm_connNext gm \<and> gc_loc (gm_conns gm k) = ConnReading"
| "game_enabled (SvcBegins k env) gm \<longleftrightarrow> k < gm_connNext gm \<and> gc_loc (gm_conns gm k) = ConnReading"
| "game_enabled (SvcCreates k) gm \<longleftrightarrow> k < gm_connNext gm"
| "game_enabled (SvcTakes k env) gm \<longleftrightarrow> k < gm_connNext gm \<and> gc_loc (gm_conns gm k) = ConnReading"
| "game_enabled (SvcNext k) gm \<longleftrightarrow> k < gm_connNext gm"
| "game_enabled (SvcEnds k) gm \<longleftrightarrow> k < gm_connNext gm \<and> gc_loc (gm_conns gm k) = ConnReading"
| "game_enabled (PlayerStep r) gm \<longleftrightarrow> r < gm_heapNext gm"
| "game_enabled _ gm \<longleftrightarrow> True"

inductive game_reach :: "'d store \<Rightarrow> ConnOptions \<Rightarrow> duration \<Rightarrow> 'd \<Rightarrow> 'd game \<Rightarrow> bool"
  for st opts interval db where
  boot: "game_reach st opts interval db (NewGameServer st opts interval db)"
| step: "game_reach st opts interval db gm \<Longrightarrow> game_enabled ev gm \<Longrightarrow>
    game_reach st opts interval db (game_step pb t ev gm)"

end
