(* ===== verification/PlayerFacts.thy ===== *)
theory PlayerFacts
  imports GameServer
begin

text \<open>
  What the operations of a player keep and change: a player's modules always have their player,
  the life cycle has four edges, the inbox is an ordered link, and the goroutine answers each
  message it takes exactly once.
\<close>

subsection \<open>The life cycle\<close>

text \<open>The states in the order of their numbers (\<open>iota\<close>).\<close>

fun state_code :: "PlayerState \<Rightarrow> int32" where
  "state_code PlayerStateInit = 0"
| "state_code PlayerStateActive = 1"
| "state_code PlayerStateOffline = 2"
| "state_code PlayerStateDestroyed = 3"

lemma state_code_inj [simp]: "state_code a = state_code b \<longleftrightarrow> a = b"
  by (cases a; cases b) auto

instantiation PlayerState :: linorder
begin

definition less_eq_PlayerState :: "PlayerState \<Rightarrow> PlayerState \<Rightarrow> bool" where
  "less_eq_PlayerState a b \<longleftrightarrow> state_code a \<le> state_code b"

definition less_PlayerState :: "PlayerState \<Rightarrow> PlayerState \<Rightarrow> bool" where
  "less_PlayerState a b \<longleftrightarrow> state_code a < state_code b"

instance
  by standard (auto simp: less_eq_PlayerState_def less_PlayerState_def less_le)

end

lemma destroyed_greatest [simp]: "s \<le> PlayerStateDestroyed"
  by (cases s) (simp_all add: less_eq_PlayerState_def)

inductive state_edge :: "PlayerState \<Rightarrow> PlayerState \<Rightarrow> bool" where
  stay: "state_edge s s"
| offline: "state_edge PlayerStateActive PlayerStateOffline"
| resume: "state_edge PlayerStateOffline PlayerStateActive"
| destroy: "state_edge PlayerStateOffline PlayerStateDestroyed"

code_pred state_edge .

inductive_simps state_edge_destroyed: "state_edge PlayerStateDestroyed s"
inductive_simps state_edge_to_init: "state_edge s PlayerStateInit"
inductive_cases state_edgeE: "state_edge s s'"

lemma state_edge_iff:
  "state_edge s s' \<longleftrightarrow> s = s' \<or> s = PlayerStateActive \<and> s' = PlayerStateOffline \<or>
     s = PlayerStateOffline \<and> s' = PlayerStateActive \<or> s = PlayerStateOffline \<and> s' = PlayerStateDestroyed"
  by (auto elim: state_edgeE intro: state_edge.intros)

lemma edge_OnResume: "state_edge (p_state p) (p_state (p_OnResume sid p))"
  by (auto simp: p_OnResume_def intro: state_edge.intros)

lemma edge_OnOffline: "state_edge (p_state p) (p_state (p_OnOffline p))"
  by (auto simp: p_OnOffline_def intro: state_edge.intros)

lemma edge_Destroy: "state_edge (p_state p) (p_state (p_Destroy p))"
  by (auto simp: p_Destroy_def intro: state_edge.intros)

lemma Post_state [frame_simps]:
  "p_state (fst (Post m p)) = p_state p" "p_PlayerID (fst (Post m p)) = p_PlayerID p"
  "p_SessionID (fst (Post m p)) = p_SessionID p" "p_Profile (fst (Post m p)) = p_Profile p"
  "p_modules (fst (Post m p)) = p_modules p" "p_loop (fst (Post m p)) = p_loop p"
  "p_Context (fst (Post m p)) = p_Context p"
  by (auto simp: Post_def split: option.splits)

lemma pm_hooks [simp]: "pm_OnResume m = m" "pm_OnOffline m = m"
  by (cases m; simp)+

lemma map_pm_hooks [simp]: "map pm_OnResume ms = ms" "map pm_OnOffline ms = ms"
  by (simp_all add: map_idI)

lemma life_frames [frame_simps]:
  "p_PlayerID (p_OnResume sid p) = p_PlayerID p" "p_Profile (p_OnResume sid p) = p_Profile p"
  "p_modules (p_OnResume sid p) = p_modules p" "p_inbox (p_OnResume sid p) = p_inbox p"
  "p_loop (p_OnResume sid p) = p_loop p"
  "p_PlayerID (p_OnOffline p) = p_PlayerID p" "p_Profile (p_OnOffline p) = p_Profile p"
  "p_modules (p_OnOffline p) = p_modules p" "p_inbox (p_OnOffline p) = p_inbox p"
  "p_SessionID (p_OnOffline p) = p_SessionID p" "p_loop (p_OnOffline p) = p_loop p"
  "p_PlayerID (p_Destroy p) = p_PlayerID p" "p_Profile (p_Destroy p) = p_Profile p"
  "p_modules (p_Destroy p) = p_modules p" "p_inbox (p_Destroy p) = p_inbox p"
  "p_loop (p_Destroy p) = p_loop p"
  by (simp_all add: p_OnResume_def p_OnOffline_def p_Destroy_def)

subsection \<open>Handling one message\<close>

definition ready_modules :: "PlayerModule list" where
  "ready_modules = [BaseModule True, ResumeModule True]"

lemma modules_ready [simp]: "p_modules (NewPlayer pid sid pr CreateModules) = ready_modules"
  by (simp add: NewPlayer_def CreateModules_def registeredModules_def ready_modules_def)

text \<open>With all modules ready no module panics, and each id has one outcome.\<close>

definition answer_of :: "pb \<Rightarrow> Message \<Rightarrow> Player \<Rightarrow> dispatchResult" where
  "answer_of pb msg p =
     (if msMsgID msg = MsgPlayerEnterGameReq then
        \<lparr>drEnvelope = Some (player_rsp MsgPlayerEnterGameRsp (marshalPlayerInitRsp pb (ToPlayerData p)) (msEnv msg)),
         drHandled = True, drErr = None\<rparr>
      else if msMsgID msg = MsgLoadPlayerDataReq then
        \<lparr>drEnvelope = Some (player_rsp MsgLoadPlayerDataRsp (marshalLoadPlayerDataRsp pb (ToPlayerData p)) (msEnv msg)),
         drHandled = True, drErr = None\<rparr>
      else \<lparr>drEnvelope = None, drHandled = msMsgID msg = MsgPlayerResumeReq, drErr = None\<rparr>)"

lemma p_handle_ready:
  "p_modules p = ready_modules \<Longrightarrow>
     p_handle pb msg p =
       (answer_of pb msg p,
        if msMsgID msg = MsgPlayerResumeReq then p_OnResume (eSessionId (msEnv msg)) p else p)"
  by (simp add: p_handle_def ready_modules_def answer_of_def route_simps Let_def)

lemma answer_of_inbox [simp]: "answer_of pb msg (p\<lparr>p_inbox := q\<rparr>) = answer_of pb msg p"
  by (simp add: answer_of_def ToPlayerData_def)

lemma answer_of_cong: "p_Profile p = p_Profile p' \<Longrightarrow> answer_of pb msg p = answer_of pb msg p'"
  by (simp add: answer_of_def ToPlayerData_def)

subsection \<open>The goroutine\<close>

definition refs :: "Player \<Rightarrow> nat list" where
  "refs p = List.map_filter msReply (ch_buf (p_inbox p))"

lemma drain_replies_refs: "map fst (drain_replies ms) = List.map_filter msReply ms"
  by (induction ms) (auto simp: List.map_filter_simps split: option.splits)

lemma drain_replies_results: "x \<in> set (drain_replies ms) \<Longrightarrow> snd x = destroyed_result"
  by (induction ms) (auto split: option.splits)

text \<open>The cases of a step of the goroutine.\<close>

lemma loop_step_cases [consumes 1, case_names drain test idle take]:
  assumes m: "p_modules p = ready_modules"
    and "p_loop p = LoopTest \<Longrightarrow> p_state p = PlayerStateDestroyed \<Longrightarrow>
      loop_step pb p = (p\<lparr>p_inbox := (p_inbox p)\<lparr>ch_buf := []\<rparr>, p_loop := LoopExited\<rparr>,
        drain_replies (ch_buf (p_inbox p))) \<Longrightarrow> P"
    and "p_loop p = LoopTest \<Longrightarrow> p_state p \<noteq> PlayerStateDestroyed \<Longrightarrow>
      loop_step pb p = (p\<lparr>p_loop := LoopRecv\<rparr>, []) \<Longrightarrow> P"
    and "p_loop p \<noteq> LoopTest \<Longrightarrow> p_loop p = LoopExited \<or> ch_buf (p_inbox p) = [] \<Longrightarrow>
      loop_step pb p = (p, []) \<Longrightarrow> P"
    and "\<And>msg ms. p_loop p = LoopRecv \<Longrightarrow> ch_buf (p_inbox p) = msg # ms \<Longrightarrow>
      loop_step pb p =
        ((if msMsgID msg = MsgPlayerResumeReq then p_OnResume (eSessionId (msEnv msg)) else (\<lambda>p. p))
           (p\<lparr>p_inbox := (p_inbox p)\<lparr>ch_buf := ms\<rparr>, p_loop := LoopTest\<rparr>),
         case msReply msg of None \<Rightarrow> [] | Some r \<Rightarrow> [(r, answer_of pb msg p)]) \<Longrightarrow> P"
  shows P
proof (cases "p_loop p")
  case LoopTest
  with assms(2,3) show P
    by (cases "p_state p = PlayerStateDestroyed") (simp_all add: loop_step_def drainAndFail_def)
next
  case LoopRecv
  show P
  proof (cases "ch_buf (p_inbox p)")
    case Nil
    with LoopRecv assms(4) show P by (simp add: loop_step_def try_recv_def)
  next
    case (Cons msg ms)
    show P
      by (rule assms(5) [OF LoopRecv Cons])
        (simp add: loop_step_def LoopRecv try_recv_def Cons p_handle_ready m Let_def p_OnResume_def
          split: option.splits)
  qed
next
  case LoopExited
  with assms(4) show P by (simp add: loop_step_def)
qed

lemma loop_step_frame:
  assumes "p_modules p = ready_modules"
  shows "p_PlayerID (fst (loop_step pb p)) = p_PlayerID p"
    "p_Profile (fst (loop_step pb p)) = p_Profile p"
    "p_modules (fst (loop_step pb p)) = ready_modules"
    "ch_cap (p_inbox (fst (loop_step pb p))) = ch_cap (p_inbox p)"
  using assms by (cases rule: loop_step_cases [of p pb]; simp add: frame_simps)+

lemma loop_step_edge:
  "p_modules p = ready_modules \<Longrightarrow> state_edge (p_state p) (p_state (fst (loop_step pb p)))"
  by (cases rule: loop_step_cases [of p pb])
    (auto intro: state_edge.intros simp: p_OnResume_def)

text \<open>What leaves the inbox is answered, once, in order.\<close>

lemma loop_step_refs:
  "p_modules p = ready_modules \<Longrightarrow>
     map fst (snd (loop_step pb p)) @ refs (fst (loop_step pb p)) = refs p"
  by (cases rule: loop_step_cases [of p pb])
    (auto simp: refs_def drain_replies_refs List.map_filter_simps frame_simps split: option.splits)

lemma loop_step_shrinks:
  "p_modules p = ready_modules \<Longrightarrow>
     length (ch_buf (p_inbox (fst (loop_step pb p)))) \<le> length (ch_buf (p_inbox p))"
  by (cases rule: loop_step_cases [of p pb]) (auto simp: frame_simps)

subsection \<open>The inbox\<close>

lemma Post_cases:
  "Post msg p =
     (if p_state p = PlayerStateActive \<and> length (ch_buf (p_inbox p)) < ch_cap (p_inbox p)
      then (p\<lparr>p_inbox := (p_inbox p)\<lparr>ch_buf := ch_buf (p_inbox p) @ [msg]\<rparr>\<rparr>, None)
      else (p, Some (if p_state p = PlayerStateDestroyed then ErrPlayerDestroyed
                     else if p_state p \<noteq> PlayerStateActive then ErrPlayerClosed else ErrPlayerBusy)))"
  by (simp add: Post_def try_send_def)

interpretation pin: ordered_link "\<lambda>env p. Post \<lparr>msMsgID = msg_id env, msEnv = env, msReply = reply\<rparr> p"
    "\<lambda>p. map msEnv (ch_buf (p_inbox p))" for reply
  by unfold_locales (auto simp: Post_cases intro: exI [of _ 0] split: if_splits)

definition player_wf :: "Player \<Rightarrow> bool" where
  "player_wf p \<longleftrightarrow> p_modules p = ready_modules \<and> p_state p \<noteq> PlayerStateInit \<and>
     ch_cap (p_inbox p) = 64 \<and> length (ch_buf (p_inbox p)) \<le> 64 \<and>
     (p_loop p = LoopExited \<longrightarrow> p_state p = PlayerStateDestroyed \<and> ch_buf (p_inbox p) = [])"

lemma wf_NewPlayer: "player_wf (NewPlayer pid sid pr CreateModules)"
  by (simp add: player_wf_def) (simp add: NewPlayer_def)

lemma wf_ops:
  assumes "player_wf p"
  shows "player_wf (p_OnResume sid p)" "player_wf (p_OnOffline p)" "player_wf (p_Destroy p)"
    "player_wf (fst (Post msg p))" "player_wf (p\<lparr>p_SessionID := sid\<rparr>)"
  using assms by (auto simp: player_wf_def p_OnResume_def p_OnOffline_def p_Destroy_def Post_cases)

lemma wf_loop_step: "player_wf p \<Longrightarrow> player_wf (fst (loop_step pb p))"
proof -
  assume wf: "player_wf p"
  then have m: "p_modules p = ready_modules" by (simp add: player_wf_def)
  then show ?thesis
  proof (cases rule: loop_step_cases [of p pb])
    case (take msg ms)
    with wf show ?thesis by (auto simp: player_wf_def p_OnResume_def)
  qed (use wf in \<open>simp_all add: player_wf_def\<close>)
qed

end
