(* ===== verification/GameInv.thy ===== *)
theory GameInv
  imports PlayerFacts
begin

text \<open>
  The invariant of the game server and its preservation by every step: the players of the map
  are alive and filed under their own id, every reply channel has at most one message that will
  answer it, and a handler that waits is waited for by exactly one queued message or has its
  answer.
\<close>

definition heap_ok :: "'d game \<Rightarrow> bool" where
  "heap_ok gm \<longleftrightarrow> (\<forall>r < gm_heapNext gm. player_wf (gm_heap gm r))"

definition index_ok :: "'d game \<Rightarrow> bool" where
  "index_ok gm \<longleftrightarrow> (\<forall>pid r. players_of gm pid = Some r \<longrightarrow>
     r < gm_heapNext gm \<and> p_PlayerID (gm_heap gm r) = pid \<and>
     p_state (gm_heap gm r) \<noteq> PlayerStateDestroyed)"

definition queued :: "nat \<Rightarrow> 'd game \<Rightarrow> bool" where
  "queued x gm \<longleftrightarrow> (\<exists>r < gm_heapNext gm. x \<in> set (refs (gm_heap gm r)))"

definition replies_ok :: "'d game \<Rightarrow> bool" where
  "replies_ok gm \<longleftrightarrow>
     (\<forall>r < gm_heapNext gm. distinct (refs (gm_heap gm r))) \<and>
     (\<forall>r < gm_heapNext gm. \<forall>s < gm_heapNext gm. r \<noteq> s \<longrightarrow>
        set (refs (gm_heap gm r)) \<inter> set (refs (gm_heap gm s)) = {}) \<and>
     (\<forall>x. queued x gm \<longrightarrow> x < gm_replyNext gm \<and> gm_replies gm x = make_chan 1)"

definition waits_ok :: "'d game \<Rightarrow> bool" where
  "waits_ok gm \<longleftrightarrow> (\<forall>k x b. gc_loc (gm_conns gm k) = ConnWaiting x b \<longrightarrow>
     k < gm_connNext gm \<and> x < gm_replyNext gm \<and>
     (queued x gm \<or> ch_buf (gm_replies gm x) \<noteq> []) \<and>
     (\<forall>k' b'. gc_loc (gm_conns gm k') = ConnWaiting x b' \<longrightarrow> k' = k))"

text \<open>The player a handler holds exists.\<close>

definition holds_ok :: "'d game \<Rightarrow> bool" where
  "holds_ok gm \<longleftrightarrow> (\<forall>k pt r. gc_loc (gm_conns gm k) = ConnAt pt r \<longrightarrow> r < gm_heapNext gm)"

definition game_inv :: "'d game \<Rightarrow> bool" where
  "game_inv gm \<longleftrightarrow> heap_ok gm \<and> index_ok gm \<and> replies_ok gm \<and> waits_ok gm \<and> holds_ok gm"

lemmas game_inv_parts = game_inv_def heap_ok_def index_ok_def replies_ok_def waits_ok_def holds_ok_def
  queued_def

lemma game_inv_boot: "game_inv (NewGameServer st opts interval db)"
  by (simp add: game_inv_parts NewGameServer_def NewPlayerManager_def blank_conn_def)

text \<open>Nothing the invariant reads has changed.\<close>

definition same_game :: "'d game \<Rightarrow> 'd game \<Rightarrow> bool" where
  "same_game gm gm' \<longleftrightarrow> gm_heap gm' = gm_heap gm \<and> gm_heapNext gm' = gm_heapNext gm \<and>
     players_of gm' = players_of gm \<and> gm_replies gm' = gm_replies gm \<and>
     gm_replyNext gm' = gm_replyNext gm \<and> (\<lambda>k. gc_loc (gm_conns gm' k)) = (\<lambda>k. gc_loc (gm_conns gm k)) \<and>
     gm_connNext gm' = gm_connNext gm"

lemma game_inv_same:
  assumes "game_inv gm" "same_game gm gm'"
  shows "game_inv gm'"
proof -
  have "gc_loc (gm_conns gm' k) = gc_loc (gm_conns gm k)" for k
    using assms(2) by (simp add: same_game_def fun_eq_iff)
  with assms show ?thesis unfolding game_inv_parts same_game_def by simp
qed

lemma same_set_session [simp]: "same_game gm (set_session sid pid gm)"
  by (simp add: same_game_def set_session_def)

lemma same_db [simp]: "same_game gm (gm\<lparr>gm_db := db\<rparr>)"
  by (simp add: same_game_def)

lemma same_trans: "same_game gm gm' \<Longrightarrow> same_game gm' gm'' \<Longrightarrow> same_game gm gm''"
  by (simp add: same_game_def)

lemma same_save_one [simp]: "same_game gm (save_one pid gm)"
  by (simp add: same_game_def save_one_def split: option.split)

lemma same_SaveAll [simp]: "same_game gm (SaveAll ord gm)"
  unfolding SaveAll_def
proof (induction ord arbitrary: gm)
  case (Cons pid ord)
  then show ?case using same_trans [OF same_save_one, of pid gm] by simp
qed (simp add: same_game_def)

lemma set_session_simps [simp]:
  "gm_heap (set_session sid pid gm) = gm_heap gm" "gm_heapNext (set_session sid pid gm) = gm_heapNext gm"
  "players_of (set_session sid pid gm) = players_of gm" "gm_replies (set_session sid pid gm) = gm_replies gm"
  "gm_replyNext (set_session sid pid gm) = gm_replyNext gm" "gm_conns (set_session sid pid gm) = gm_conns gm"
  "gm_connNext (set_session sid pid gm) = gm_connNext gm" "gm_db (set_session sid pid gm) = gm_db gm"
  "pm_store (gm_players (set_session sid pid gm)) = pm_store (gm_players gm)"
  "sessions_of (set_session sid pid gm) = (sessions_of gm)(sid := pid)"
  by (simp_all add: set_session_def)

lemma upd_player_simps [simp]:
  "gm_heap (upd_player r f gm) = (gm_heap gm)(r := f (gm_heap gm r))"
  "gm_heapNext (upd_player r f gm) = gm_heapNext gm" "gm_players (upd_player r f gm) = gm_players gm"
  "gm_replies (upd_player r f gm) = gm_replies gm" "gm_replyNext (upd_player r f gm) = gm_replyNext gm"
  "gm_conns (upd_player r f gm) = gm_conns gm" "gm_connNext (upd_player r f gm) = gm_connNext gm"
  "gm_db (upd_player r f gm) = gm_db gm"
  by (simp_all add: upd_player_def)

lemma set_loc_simps [simp]:
  "gm_heap (set_loc k l gm) = gm_heap gm" "gm_heapNext (set_loc k l gm) = gm_heapNext gm"
  "gm_players (set_loc k l gm) = gm_players gm" "gm_replies (set_loc k l gm) = gm_replies gm"
  "gm_replyNext (set_loc k l gm) = gm_replyNext gm" "gm_connNext (set_loc k l gm) = gm_connNext gm"
  "gm_db (set_loc k l gm) = gm_db gm"
  "gm_conns (set_loc k l gm) = (gm_conns gm)(k := (gm_conns gm k)\<lparr>gc_loc := l\<rparr>)"
  by (simp_all add: set_loc_def)

subsection \<open>Changing one player\<close>

text \<open>A change of one player that touches neither its inbox nor its identity.\<close>

lemma game_inv_upd_player:
  assumes inv: "game_inv gm" and wf: "player_wf (gm_heap gm r) \<Longrightarrow> player_wf (f (gm_heap gm r))"
    and "p_inbox (f (gm_heap gm r)) = p_inbox (gm_heap gm r)"
    and id: "p_PlayerID (f (gm_heap gm r)) = p_PlayerID (gm_heap gm r)"
    and st: "\<And>pid. players_of gm pid = Some r \<Longrightarrow> p_state (f (gm_heap gm r)) \<noteq> PlayerStateDestroyed"
  shows "game_inv (upd_player r f gm)"
proof -
  have refs: "refs (((gm_heap gm)(r := f (gm_heap gm r))) s) = refs (gm_heap gm s)" for s
    using assms(3) by (simp add: refs_def)
  have q: "queued x (upd_player r f gm) = queued x gm" for x
    by (simp add: queued_def refs del: fun_upd_apply)
  have "heap_ok (upd_player r f gm)" using inv wf by (simp add: game_inv_def heap_ok_def)
  moreover have "index_ok (upd_player r f gm)"
    using inv id st by (auto simp: game_inv_def index_ok_def)
  moreover have "replies_ok (upd_player r f gm)"
    using inv by (simp add: game_inv_def replies_ok_def refs q del: fun_upd_apply)
  moreover have "waits_ok (upd_player r f gm)"
    using inv by (simp add: game_inv_def waits_ok_def q)
  moreover have "holds_ok (upd_player r f gm)"
    using inv by (simp add: game_inv_def holds_ok_def)
  ultimately show ?thesis by (simp add: game_inv_def)
qed

lemma game_invD:
  assumes "game_inv gm"
  shows "players_of gm pid = Some r \<Longrightarrow> r < gm_heapNext gm"
    "players_of gm pid = Some r \<Longrightarrow> p_PlayerID (gm_heap gm r) = pid"
    "players_of gm pid = Some r \<Longrightarrow> p_state (gm_heap gm r) \<noteq> PlayerStateDestroyed"
    "r < gm_heapNext gm \<Longrightarrow> player_wf (gm_heap gm r)"
  using assms by (auto simp: game_inv_def heap_ok_def index_ok_def)

lemma game_inv_MarkOffline: "game_inv gm \<Longrightarrow> game_inv (MarkOffline pid gm)"
proof (cases "players_of gm pid")
  case (Some r)
  assume inv: "game_inv gm"
  have "game_inv (upd_player r p_OnOffline (gm\<lparr>gm_db := db\<rparr>))" for db
  proof (rule game_inv_upd_player)
    show "game_inv (gm\<lparr>gm_db := db\<rparr>)" by (rule game_inv_same [OF inv same_db])
  qed (use game_invD [OF inv] wf_ops in \<open>auto simp: frame_simps p_OnOffline_def\<close>)
  then show ?thesis unfolding MarkOffline_def Some option.case Let_def
    by (rule game_inv_same [OF _ same_set_session])
qed (simp add: MarkOffline_def)

lemma game_inv_DestroyPlayer: "game_inv gm \<Longrightarrow> game_inv (DestroyPlayer pid gm)"
proof (cases "players_of gm pid")
  case (Some r)
  assume inv: "game_inv gm"
  let ?g = "gm\<lparr>gm_players := (gm_players gm)\<lparr>pm_players := (players_of gm)(pid := None)\<rparr>\<rparr>"
  have g: "game_inv ?g" using inv by (simp add: game_inv_parts)
  have no: "players_of ?g q \<noteq> Some r" for q
    using game_invD(2) [OF inv Some] game_invD(2) [OF inv, of q r] by auto
  have "game_inv (upd_player r p_Destroy ?g)"
    by (rule game_inv_upd_player [OF g])
      (use no wf_ops in \<open>auto simp: frame_simps\<close>)
  then show ?thesis by (simp add: DestroyPlayer_def Some Let_def)
qed (simp add: DestroyPlayer_def game_inv_parts)

subsection \<open>Creating a player\<close>

lemma install_player_simps [simp]:
  "fst (install_player sid pid pr gm) = gm_heapNext gm"
  "gm_heap (snd (install_player sid pid pr gm)) =
     (gm_heap gm)(gm_heapNext gm := NewPlayer pid sid pr CreateModules)"
  "gm_heapNext (snd (install_player sid pid pr gm)) = Suc (gm_heapNext gm)"
  "players_of (snd (install_player sid pid pr gm)) = (players_of gm)(pid \<mapsto> gm_heapNext gm)"
  "sessions_of (snd (install_player sid pid pr gm)) = (sessions_of gm)(sid \<mapsto> pid)"
  "pm_store (gm_players (snd (install_player sid pid pr gm))) = pm_store (gm_players gm)"
  "gm_replies (snd (install_player sid pid pr gm)) = gm_replies gm"
  "gm_replyNext (snd (install_player sid pid pr gm)) = gm_replyNext gm"
  "gm_conns (snd (install_player sid pid pr gm)) = gm_conns gm"
  "gm_connNext (snd (install_player sid pid pr gm)) = gm_connNext gm"
  "gm_db (snd (install_player sid pid pr gm)) = gm_db gm"
  by (simp_all add: install_player_def Let_def)

lemma refs_NewPlayer [simp]: "refs (NewPlayer pid sid pr ms) = []"
  by (simp add: refs_def NewPlayer_def List.map_filter_simps)

lemma NewPlayer_simps [simp]:
  "p_PlayerID (NewPlayer pid sid pr ms) = pid" "p_SessionID (NewPlayer pid sid pr ms) = sid"
  "p_state (NewPlayer pid sid pr ms) = PlayerStateActive" "p_Profile (NewPlayer pid sid pr ms) = pr"
  "p_loop (NewPlayer pid sid pr ms) = LoopTest" "p_inbox (NewPlayer pid sid pr ms) = make_chan 64"
  by (simp_all add: NewPlayer_def)

lemma game_inv_install:
  assumes inv: "game_inv gm"
  shows "game_inv (snd (install_player sid pid pr gm))"
proof -
  let ?g = "snd (install_player sid pid pr gm)"
  have q: "queued x ?g = queued x gm" for x
    unfolding queued_def by (auto simp: less_Suc_eq; metis less_irrefl)
  have "heap_ok ?g" using inv wf_NewPlayer by (simp add: game_inv_def heap_ok_def less_Suc_eq)
  moreover have "index_ok ?g" using inv by (fastforce simp: game_inv_def index_ok_def)
  moreover have "replies_ok ?g"
    using inv q by (auto simp: game_inv_def replies_ok_def less_Suc_eq)
  moreover have "waits_ok ?g" using inv by (simp add: game_inv_def waits_ok_def q)
  moreover have "holds_ok ?g" using inv by (auto simp: game_inv_def holds_ok_def less_Suc_eq)
  ultimately show ?thesis by (simp add: game_inv_def)
qed

lemma load_profile_cases:
  obtains (fails) err db where "load_profile pid gm = (Inl err, gm\<lparr>gm_db := db\<rparr>)"
  | (loaded) pr db where "load_profile pid gm = (Inr pr, gm\<lparr>gm_db := db\<rparr>)"
      "pr = NewProfile pid '''' \<or> st_LoadProfile (pm_store (gm_players gm)) pid (gm_db gm) = (Inr (Some pr), db)"
proof -
  let ?st = "pm_store (gm_players gm)"
  obtain l db where l: "st_LoadProfile ?st pid (gm_db gm) = (l, db)" by force
  show thesis
  proof (cases l)
    case (Inl err)
    with l fails show ?thesis by (simp add: load_profile_def)
  next
    case (Inr x)
    show ?thesis
    proof (cases x)
      case (Some pr)
      with l Inr loaded [of pr db] show ?thesis by (simp add: load_profile_def)
    next
      case None
      obtain w db' where w: "st_SaveProfile ?st (NewProfile pid '''') db = (w, db')" by force
      with l Inr None fails loaded [of "NewProfile pid ''''" db'] show ?thesis
        by (cases w) (simp_all add: load_profile_def)
    qed
  qed
qed

lemma create_player_cases:
  obtains (fails) err db where "create_player sid pid gm = (Inl err, gm\<lparr>gm_db := db\<rparr>)"
  | (created) pr db where
      "create_player sid pid gm = (Inr (gm_heapNext gm), snd (install_player sid pid pr (gm\<lparr>gm_db := db\<rparr>)))"
      "pr = NewProfile pid '''' \<or> st_LoadProfile (pm_store (gm_players gm)) pid (gm_db gm) = (Inr (Some pr), db)"
  by (rule load_profile_cases [of pid gm]) (auto simp: create_player_def case_prod_beta intro: that)

lemma OnResume_alive:
  "p_state (p_OnResume sid p) = PlayerStateDestroyed \<longleftrightarrow> p_state p = PlayerStateDestroyed"
  by (simp add: p_OnResume_def)

text \<open>What \<open>GetOrCreate\<close> does to the invariant, and the player it returns.\<close>

lemma game_inv_GetOrCreate:
  assumes inv: "game_inv gm" and g: "GetOrCreate sid pid gm = (res, gm')"
  shows "game_inv gm'" "res = Inr r \<Longrightarrow> players_of gm' pid = Some r"
    "gm_conns gm' = gm_conns gm" "gm_connNext gm' = gm_connNext gm"
proof -
  have *: "game_inv gm' \<and> (\<forall>r. res = Inr r \<longrightarrow> players_of gm' pid = Some r) \<and>
    gm_conns gm' = gm_conns gm \<and> gm_connNext gm' = gm_connNext gm"
  proof (cases "players_of gm pid")
    case (Some r)
    let ?f = "\<lambda>p. p_OnResume sid (p\<lparr>p_SessionID := sid\<rparr>)"
    have "game_inv (upd_player r ?f gm)"
      by (rule game_inv_upd_player [OF inv])
        (use game_invD(1-3) [OF inv Some] game_invD(4) [OF inv] in
          \<open>auto simp: frame_simps OnResume_alive wf_ops\<close>)
    then have "game_inv (set_session sid x (upd_player r ?f gm))" for x by (rule game_inv_same) simp
    with g Some show ?thesis by (auto simp: GetOrCreate_def Let_def)
  next
    case None
    show ?thesis
    proof (rule create_player_cases [of sid pid gm])
      fix err db assume "create_player sid pid gm = (Inl err, gm\<lparr>gm_db := db\<rparr>)"
      with g None inv show ?thesis by (auto simp: GetOrCreate_def intro: game_inv_same)
    next
      fix pr db assume c: "create_player sid pid gm =
          (Inr (gm_heapNext gm), snd (install_player sid pid pr (gm\<lparr>gm_db := db\<rparr>)))"
      have "game_inv (gm\<lparr>gm_db := db\<rparr>)" by (rule game_inv_same [OF inv]) simp
      from game_inv_install [OF this] c g None show ?thesis by (auto simp: GetOrCreate_def)
    qed
  qed
  then show "game_inv gm'" "res = Inr r \<Longrightarrow> players_of gm' pid = Some r"
    "gm_conns gm' = gm_conns gm" "gm_connNext gm' = gm_connNext gm" by blast+
qed

subsection \<open>Requests and replies\<close>

lemma same_conn [simp]:
  "gc_loc (c k) = gc_loc (gm_conns gm k) \<Longrightarrow> (\<And>j. j \<noteq> k \<Longrightarrow> c j = gm_conns gm j) \<Longrightarrow>
     same_game gm (gm\<lparr>gm_conns := c\<rparr>)"
  by (auto simp: same_game_def fun_eq_iff) metis

text \<open>A handler that stops waiting.\<close>

lemma game_inv_unwait:
  "game_inv gm \<Longrightarrow> (\<forall>x b. l \<noteq> ConnWaiting x b) \<Longrightarrow> (\<forall>pt r. l = ConnAt pt r \<longrightarrow> r < gm_heapNext gm) \<Longrightarrow>
     game_inv (set_loc k l gm)"
  by (simp add: game_inv_parts)

text \<open>A reply channel that nobody waits on and no message will answer can change.\<close>

lemma game_inv_reply_chan:
  assumes inv: "game_inv gm" and "\<not> queued x gm"
    and "\<And>k b. gc_loc (gm_conns gm k) \<noteq> ConnWaiting x b"
  shows "game_inv (gm\<lparr>gm_replies := (gm_replies gm)(x := ch)\<rparr>)"
proof -
  have q: "queued y (gm\<lparr>gm_replies := c\<rparr>) = queued y gm" for y c by (simp add: queued_def)
  show ?thesis using assms
    by (auto simp: game_inv_def heap_ok_def index_ok_def replies_ok_def waits_ok_def holds_ok_def q)
qed

lemma game_inv_handleConn_timeout: "game_inv gm \<Longrightarrow> game_inv (handleConn_timeout k gm)"
  by (simp add: handleConn_timeout_def game_inv_unwait split: conn_loc.split)

lemma game_inv_handleConn_end:
  "game_inv gm \<Longrightarrow> game_inv (handleConn_end k gm)"
proof -
  assume "game_inv gm"
  then have "game_inv (set_loc k ConnEnded gm)" by (simp add: game_inv_unwait)
  then show ?thesis
    by (rule game_inv_same) (simp add: same_game_def handleConn_end_def fun_eq_iff)
qed

lemma game_inv_acceptService:
  "game_inv gm \<Longrightarrow> game_inv (snd (acceptService i out gm))"
  by (auto simp: game_inv_parts acceptService_def Let_def less_Suc_eq)

lemma game_inv_handleConn_reply:
  assumes inv: "game_inv gm"
  shows "game_inv (handleConn_reply pb t k gm)"
proof (cases "gc_loc (gm_conns gm k)")
  case (ConnWaiting x answer)
  show ?thesis
  proof (cases "try_recv (gm_replies gm x)")
    case None
    with inv ConnWaiting show ?thesis by (simp add: handleConn_reply_def)
  next
    case (Some rc)
    then obtain res ch where rc: "try_recv (gm_replies gm x) = Some (res, ch)" by (cases rc) auto
    then have ne: "ch_buf (gm_replies gm x) \<noteq> []" by (auto simp: try_recv_def split: list.splits)
    let ?u = "set_loc k ConnReading gm"
    have u: "game_inv ?u" by (simp add: game_inv_unwait [OF inv])
    have nq: "\<not> queued x gm" using inv ne by (auto simp: game_inv_def replies_ok_def)
    then have "\<not> queued x ?u" by (simp add: queued_def)
    moreover have "gc_loc (gm_conns ?u j) \<noteq> ConnWaiting x b" for j b
      using inv ConnWaiting by (auto simp: game_inv_def waits_ok_def)
    ultimately have "game_inv (?u\<lparr>gm_replies := (gm_replies ?u)(x := ch)\<rparr>)"
      by (rule game_inv_reply_chan [OF u])
    moreover have "?u\<lparr>gm_replies := (gm_replies ?u)(x := ch)\<rparr> =
        set_loc k ConnReading (gm\<lparr>gm_replies := (gm_replies gm)(x := ch)\<rparr>)"
      by (simp add: set_loc_def)
    ultimately have g: "game_inv (set_loc k ConnReading (gm\<lparr>gm_replies := (gm_replies gm)(x := ch)\<rparr>))"
      by simp
    show ?thesis
      using ConnWaiting rc
      by (auto simp: handleConn_reply_def Let_def split: sum.split option.split
          intro!: g game_inv_same [OF g same_conn])
  qed
qed (simp_all add: handleConn_reply_def inv)

subsection \<open>A request is queued\<close>

lemma refs_append:
  "refs (p\<lparr>p_inbox := (p_inbox p)\<lparr>ch_buf := ch_buf (p_inbox p) @ [msg]\<rparr>\<rparr>) =
     refs p @ (case msReply msg of None \<Rightarrow> [] | Some x \<Rightarrow> [x])"
  by (simp add: refs_def List.map_filter_def split: option.split)

lemma dispatch_to_cases:
  "dispatch_to k answer env r gm =
     (let x = gm_replyNext gm;
          g = gm\<lparr>gm_replies := (gm_replies gm)(x := make_chan 1), gm_replyNext := Suc x\<rparr>;
          (p, err) = Post \<lparr>msMsgID = msg_id env, msEnv = env, msReply = Some x\<rparr> (gm_heap gm r)
      in if err = None then set_loc k (ConnWaiting x answer) (upd_player r (\<lambda>_. p) g) else g)"
proof (cases "Post \<lparr>msMsgID = msg_id env, msEnv = env, msReply = Some (gm_replyNext gm)\<rparr> (gm_heap gm r)")
  case (Pair p err)
  have "p = gm_heap gm r" if "err \<noteq> None"
    using Pair that by (auto simp: Post_cases split: if_splits)
  with Pair show ?thesis
    by (simp add: dispatch_to_def Dispatch_post_def Let_def upd_player_def)
qed

lemma queued_upd_player:
  "queued x (upd_player r f gm) \<longleftrightarrow> (r < gm_heapNext gm \<and> x \<in> set (refs (f (gm_heap gm r)))) \<or>
     (\<exists>s < gm_heapNext gm. s \<noteq> r \<and> x \<in> set (refs (gm_heap gm s)))"
  by (auto simp: queued_def split: if_splits)

lemma game_inv_fresh_reply:
  assumes inv: "game_inv gm"
  shows "game_inv (gm\<lparr>gm_replies := (gm_replies gm)(gm_replyNext gm := make_chan 1),
                      gm_replyNext := Suc (gm_replyNext gm)\<rparr>)" (is "game_inv ?g")
proof -
  have q: "queued y ?g = queued y gm" for y by (simp add: queued_def)
  have "replies_ok ?g" using inv unfolding game_inv_def replies_ok_def q by auto
  moreover have "waits_ok ?g" using inv unfolding game_inv_def waits_ok_def q by fastforce
  ultimately show ?thesis using inv by (simp add: game_inv_def heap_ok_def index_ok_def holds_ok_def)
qed

text \<open>A message with a fresh reply channel enters an inbox, and its sender waits.\<close>

lemma game_inv_enqueue:
  assumes inv: "game_inv gm" and r: "r < gm_heapNext gm"
    and k: "k < gm_connNext gm" "gc_loc (gm_conns gm k) = ConnReading"
    and x: "x < gm_replyNext gm" "\<not> queued x gm" "gm_replies gm x = make_chan 1"
      "\<And>j b. gc_loc (gm_conns gm j) \<noteq> ConnWaiting x b"
    and p: "Post \<lparr>msMsgID = m, msEnv = env, msReply = Some x\<rparr> (gm_heap gm r) = (p, None)"
  shows "game_inv (set_loc k (ConnWaiting x answer) (upd_player r (\<lambda>_. p) gm))" (is "game_inv ?g")
proof -
  have refs: "refs p = refs (gm_heap gm r) @ [x]"
    and id: "p_PlayerID p = p_PlayerID (gm_heap gm r)" "p_state p = p_state (gm_heap gm r)"
    using p by (auto simp: Post_cases refs_append split: if_splits)
  have wf: "player_wf p"
    using wf_ops(4) [OF game_invD(4) [OF inv r], of "\<lparr>msMsgID = m, msEnv = env, msReply = Some x\<rparr>"] p by simp
  have q: "queued y ?g \<longleftrightarrow> queued y gm \<or> y = x" for y
    using r refs queued_upd_player [of y r "\<lambda>_. p" gm] by (auto simp: queued_def)
  have nx: "x \<notin> set (refs (gm_heap gm s))" if "s < gm_heapNext gm" for s
    using x(2) that by (auto simp: queued_def)
  have "heap_ok ?g" using inv wf by (simp add: game_inv_def heap_ok_def)
  moreover have "index_ok ?g" using inv id by (auto simp: game_inv_def index_ok_def)
  moreover have "replies_ok ?g"
    using inv nx x q refs by (auto simp: game_inv_def replies_ok_def)
  moreover have "waits_ok ?g"
  proof -
    have w: "waits_ok gm" using inv by (simp add: game_inv_def)
    have loc: "gc_loc (gm_conns ?g j) = (if j = k then ConnWaiting x answer else gc_loc (gm_conns gm j))" for j
      by simp
    show ?thesis
      unfolding waits_ok_def q loc using w [unfolded waits_ok_def] k x
      by (auto split: if_splits)
  qed
  moreover have "holds_ok ?g" using inv by (simp add: game_inv_def holds_ok_def)
  ultimately show ?thesis by (simp add: game_inv_def)
qed

lemma game_inv_dispatch_to:
  assumes inv: "game_inv gm" and r: "r < gm_heapNext gm"
    and k: "k < gm_connNext gm" "gc_loc (gm_conns gm k) = ConnReading"
  shows "game_inv (dispatch_to k answer env r gm)"
proof -
  let ?x = "gm_replyNext gm"
  let ?g = "gm\<lparr>gm_replies := (gm_replies gm)(?x := make_chan 1), gm_replyNext := Suc ?x\<rparr>"
  let ?m = "\<lparr>msMsgID = msg_id env, msEnv = env, msReply = Some ?x\<rparr>"
  have g: "game_inv ?g" by (rule game_inv_fresh_reply [OF inv])
  obtain p err where p: "Post ?m (gm_heap gm r) = (p, err)" by force
  have nq: "\<not> queued ?x ?g" using inv by (auto simp: game_inv_def replies_ok_def queued_def)
  have nw: "gc_loc (gm_conns gm j) \<noteq> ConnWaiting ?x b" for j b
    using inv by (auto simp: game_inv_def waits_ok_def)
  show ?thesis
  proof (cases err)
    case None
    have "game_inv (set_loc k (ConnWaiting ?x answer) (upd_player r (\<lambda>_. p) ?g))"
      by (rule game_inv_enqueue [OF g, where m = "msg_id env" and env = env])
        (use r k p None nq nw in auto)
    with p None show ?thesis by (simp add: dispatch_to_cases Let_def)
  next
    case (Some e)
    with p g show ?thesis by (simp add: dispatch_to_cases Let_def)
  qed
qed

lemma game_inv_handleConn_env:
  assumes inv: "game_inv gm" and k: "k < gm_connNext gm" "gc_loc (gm_conns gm k) = ConnReading"
  shows "game_inv (handleConn_env k env gm)"
proof -
  have "game_inv (case GetOrCreate sid pid gm of (Inl err, gm) \<Rightarrow> gm | (Inr r, gm) \<Rightarrow> dispatch_to k a env r gm)"
    for sid pid a
  proof (cases "GetOrCreate sid pid gm")
    case (Pair res gm')
    note * = game_inv_GetOrCreate [OF inv Pair]
    show ?thesis
    proof (cases res)
      case (Inl e)
      with Pair * show ?thesis by simp
    next
      case (Inr r)
      have "r < gm_heapNext gm'" using game_invD(1) [OF *(1) *(2) [OF Inr]] .
      from game_inv_dispatch_to [OF *(1) this] *(3,4) k Pair Inr show ?thesis by simp
    qed
  qed
  with inv game_inv_MarkOffline [OF inv] show ?thesis by (simp add: handleConn_env_def Let_def)
qed

text \<open>The two steps of a handler that has to enter the player.\<close>

lemma handleConn_begin_cases:
  obtains (whole) "handleConn_begin k env gm = handleConn_env k env gm"
  | (fails) db where "handleConn_begin k env gm = gm\<lparr>gm_db := db\<rparr>"
  | (creating) pid pr a db where "players_of gm pid = None" "pid = resolvePlayer env gm"
      "handleConn_begin k env gm = set_loc k (ConnCreating env pid pr a) (gm\<lparr>gm_db := db\<rparr>)"
proof (cases "msg_id env = MsgPlayerOfflineNotify \<or> players_of gm (resolvePlayer env gm) \<noteq> None \<or>
    (msg_id env = MsgPlayerResumeReq \<and> resolvePlayer env gm = 0)")
  case True
  then show thesis by (intro whole) (auto simp: handleConn_begin_def Let_def)
next
  case False
  note c = this
  let ?p = "resolvePlayer env gm"
  show thesis
  proof (cases rule: load_profile_cases [of ?p gm])
    case (fails err db)
    with c show thesis by (intro that(2) [of db]) (auto simp: handleConn_begin_def Let_def)
  next
    case (loaded pr db)
    with c show thesis
      by (intro that(3) [of ?p pr "msg_id env \<noteq> MsgPlayerResumeReq" db]) (auto simp: handleConn_begin_def Let_def)
  qed
qed

lemma game_inv_handleConn_begin:
  assumes inv: "game_inv gm" and k: "k < gm_connNext gm" "gc_loc (gm_conns gm k) = ConnReading"
  shows "game_inv (handleConn_begin k env gm)"
proof (cases rule: handleConn_begin_cases [of k env gm])
  case whole
  then show ?thesis by (simp add: game_inv_handleConn_env [OF inv k])
next
  case (fails db)
  then show ?thesis by (simp add: game_inv_same [OF inv])
next
  case (creating pid pr a db)
  have "game_inv (gm\<lparr>gm_db := db\<rparr>)" by (rule game_inv_same [OF inv]) simp
  then show ?thesis unfolding creating(3) by (simp add: game_inv_unwait)
qed

lemma game_inv_handleConn_create:
  assumes inv: "game_inv gm" and k: "k < gm_connNext gm"
  shows "game_inv (handleConn_create k gm)"
proof (cases "gc_loc (gm_conns gm k)")
  case (ConnCreating env pid pr a)
  let ?g = "snd (install_player (eSessionId env) pid pr gm)"
  have "game_inv (set_loc k ConnReading ?g)"
    by (simp add: game_inv_unwait [OF game_inv_install [OF inv]])
  then have "game_inv (dispatch_to k a env (gm_heapNext gm) (set_loc k ConnReading ?g))"
    by (rule game_inv_dispatch_to) (use k in simp_all)
  with ConnCreating show ?thesis by (simp add: handleConn_create_def case_prod_beta)
qed (simp_all add: handleConn_create_def inv)

text \<open>Without anything in between the two steps are the whole.\<close>

lemma set_loc_again: "set_loc k l (set_loc k l' gm) = set_loc k l gm"
  by (simp add: set_loc_def)

lemma set_loc_same: "gc_loc (gm_conns gm k) = l \<Longrightarrow> set_loc k l gm = gm"
  by (auto simp: set_loc_def)

lemma install_set_loc:
  "install_player sid pid pr (set_loc k l gm) =
     (fst (install_player sid pid pr gm), set_loc k l (snd (install_player sid pid pr gm)))"
  by (simp add: install_player_def set_loc_def set_session_def Let_def)

lemma handleConn_env_loc:
  assumes "gc_loc (gm_conns gm k) = ConnReading"
  shows "handleConn_create k (handleConn_env k env gm) = handleConn_env k env gm"
    and "handleConn_next k (handleConn_env k env gm) = handleConn_env k env gm"
proof -
  have d: "gc_loc (gm_conns (dispatch_to k a env r g) k) \<in> {ConnReading} \<union> range (case_prod ConnWaiting)"
    if "gc_loc (gm_conns g k) = ConnReading" for a r and g :: "'a game"
    using that by (force simp: dispatch_to_cases Let_def split: prod.split)
  have conns: "gm_conns (snd (GetOrCreate sid pid gm)) = gm_conns gm" for sid pid
  proof (cases "players_of gm pid")
    case None
    show ?thesis
      by (rule create_player_cases [of sid pid gm]) (use None in \<open>auto simp: GetOrCreate_def\<close>)
  qed (simp add: GetOrCreate_def Let_def)
  have "gc_loc (gm_conns (case GetOrCreate sid pid gm of (Inl err, g) \<Rightarrow> g | (Inr r, g) \<Rightarrow> dispatch_to k a env r g) k)
      \<in> {ConnReading} \<union> range (case_prod ConnWaiting)" for sid pid a
  proof (cases "GetOrCreate sid pid gm")
    case (Pair res g)
    then have "gc_loc (gm_conns g k) = ConnReading" using conns [of sid pid] assms by simp
    with Pair d [of g a] show ?thesis by (cases res) simp_all
  qed
  moreover have "gm_conns (MarkOffline pid gm) = gm_conns gm" for pid
    by (simp add: MarkOffline_def Let_def split: option.split)
  ultimately have "gc_loc (gm_conns (handleConn_env k env gm) k) \<in> {ConnReading} \<union> range (case_prod ConnWaiting)"
    using assms by (simp add: handleConn_env_def Let_def)
  then show "handleConn_create k (handleConn_env k env gm) = handleConn_env k env gm"
    "handleConn_next k (handleConn_env k env gm) = handleConn_env k env gm"
    by (auto simp: handleConn_create_def handleConn_next_def)
qed

lemma handleConn_two_steps:
  assumes "gc_loc (gm_conns gm k) = ConnReading"
  shows "handleConn_create k (handleConn_begin k env gm) = handleConn_env k env gm"
proof (cases "msg_id env = MsgPlayerOfflineNotify \<or> players_of gm (resolvePlayer env gm) \<noteq> None \<or>
    (msg_id env = MsgPlayerResumeReq \<and> resolvePlayer env gm = 0)")
  case True
  then have "handleConn_begin k env gm = handleConn_env k env gm" by (auto simp: handleConn_begin_def Let_def)
  then show ?thesis by (simp add: handleConn_env_loc(1) [OF assms])
next
  case False
  then have none: "players_of gm (resolvePlayer env gm) = None" by simp
  show ?thesis
  proof (cases rule: load_profile_cases [of "resolvePlayer env gm" gm])
    case (fails err db)
    with False none assms show ?thesis
      by (auto simp: handleConn_begin_def handleConn_env_def handleConn_create_def Let_def GetOrCreate_def
          create_player_def)
  next
    case (loaded pr db)
    with False none assms show ?thesis
      by (auto simp: handleConn_begin_def handleConn_env_def handleConn_create_def Let_def GetOrCreate_def
          create_player_def case_prod_beta install_set_loc set_loc_again set_loc_same)
  qed
qed

subsection \<open>The finest steps\<close>

lemma handleConn_take_cases:
  obtains (begins) "handleConn_take k env gm = handleConn_begin k env gm"
  | (stays) "handleConn_take k env gm = gm"
  | (takes) pt r where "players_of gm (resolvePlayer env gm) = Some r"
      "handleConn_take k env gm = set_loc k (ConnAt pt r) gm"
proof (cases "players_of gm (resolvePlayer env gm)")
  case None
  then show thesis by (intro begins) (simp add: handleConn_take_def Let_def)
next
  case (Some r)
  then show thesis using stays takes
    by (cases "msg_id env = MsgPlayerOfflineNotify"; cases "resolvePlayer env gm = 0";
        cases "msg_id env = MsgPlayerResumeReq") (simp_all add: handleConn_take_def Let_def)
qed

lemma game_inv_handleConn_take:
  assumes inv: "game_inv gm" and k: "k < gm_connNext gm" "gc_loc (gm_conns gm k) = ConnReading"
  shows "game_inv (handleConn_take k env gm)"
proof (cases rule: handleConn_take_cases [of k env gm])
  case begins
  then show ?thesis by (simp add: game_inv_handleConn_begin [OF inv k])
next
  case stays
  with inv show ?thesis by simp
next
  case (takes pt r)
  then show ?thesis using game_invD(1) [OF inv takes(1)] by (simp add: game_inv_unwait [OF inv])
qed

lemma holdsD: "game_inv gm \<Longrightarrow> gc_loc (gm_conns gm k) = ConnAt pt r \<Longrightarrow> r < gm_heapNext gm"
  by (auto simp: game_inv_def holds_ok_def)

lemma game_inv_resume:
  assumes inv: "game_inv gm"
  shows "game_inv (upd_player r (\<lambda>p. p_OnResume sid (p\<lparr>p_SessionID := x\<rparr>)) gm)"
  by (rule game_inv_upd_player [OF inv])
    (use game_invD(3) [OF inv] in \<open>auto simp: frame_simps OnResume_alive wf_ops\<close>)

lemma game_inv_offline:
  assumes inv: "game_inv gm"
  shows "game_inv (upd_player r p_OnOffline gm)"
  by (rule game_inv_upd_player [OF inv])
    (use game_invD(3) [OF inv] wf_ops in \<open>auto simp: frame_simps p_OnOffline_def\<close>)

lemma game_inv_handleConn_next:
  assumes inv: "game_inv gm" and k: "k < gm_connNext gm"
  shows "game_inv (handleConn_next k gm)"
proof (cases "gc_loc (gm_conns gm k)")
  case (ConnAt pt r)
  note r = holdsD [OF inv ConnAt]
  have "game_inv (handler_next k pt r gm)"
  proof (cases pt)
    case (AtResume env a)
    then show ?thesis using r by (simp add: game_inv_unwait [OF game_inv_resume [OF inv]])
  next
    case (AtBind env a)
    then show ?thesis using r by (simp add: game_inv_unwait [OF game_inv_same [OF inv same_set_session]])
  next
    case (AtDispatch env a)
    have "game_inv (set_loc k ConnReading gm)" by (simp add: game_inv_unwait [OF inv])
    then have "game_inv (dispatch_to k a env r (set_loc k ConnReading gm))"
      by (rule game_inv_dispatch_to) (use k r in simp_all)
    with AtDispatch show ?thesis by simp
  next
    case AtSave
    then show ?thesis using r by (simp add: game_inv_unwait [OF game_inv_same [OF inv same_db]])
  next
    case AtOffline
    then show ?thesis using r by (simp add: game_inv_unwait [OF game_inv_offline [OF inv]])
  next
    case AtUnbind
    then show ?thesis by (simp add: game_inv_unwait [OF game_inv_same [OF inv same_set_session]])
  qed
  with ConnAt show ?thesis by (simp add: handleConn_next_def)
qed (simp_all add: handleConn_next_def inv)

lemma loc_last:
  "set_session sid x (set_loc k l gm) = set_loc k l (set_session sid x gm)"
  "upd_player r f (set_loc k l gm) = set_loc k l (upd_player r f gm)"
  "(set_loc k l gm)\<lparr>gm_db := db\<rparr> = set_loc k l (gm\<lparr>gm_db := db\<rparr>)"
  by (simp_all add: set_session_def set_loc_def upd_player_def)

lemma next_at:
  "handleConn_next k (set_loc k (ConnAt (AtResume env a) r) gm) =
     set_loc k (ConnAt (AtBind env a) r) (found_resume (eSessionId env) r gm)"
  "handleConn_next k (set_loc k (ConnAt (AtBind env a) r) gm) =
     set_loc k (ConnAt (AtDispatch env a) r) (found_bind (eSessionId env) r gm)"
  "handleConn_next k (set_loc k (ConnAt (AtDispatch env a) r) gm) = dispatch_to k a env r (set_loc k ConnReading gm)"
  "handleConn_next k (set_loc k (ConnAt AtSave r) gm) = set_loc k (ConnAt AtOffline r) (offline_save r gm)"
  "handleConn_next k (set_loc k (ConnAt AtOffline r) gm) = set_loc k (ConnAt AtUnbind r) (upd_player r p_OnOffline gm)"
  "handleConn_next k (set_loc k (ConnAt AtUnbind r) gm) = set_loc k ConnReading (offline_unbind r gm)"
  "handleConn_create k (set_loc k (ConnAt pt r) gm) = set_loc k (ConnAt pt r) gm"
  by (simp_all add: handleConn_next_def handleConn_create_def loc_last set_loc_again)

lemma next_reading:
  "gc_loc (gm_conns gm k) = ConnReading \<Longrightarrow> handleConn_next k gm = gm"
  "gc_loc (gm_conns gm k) = ConnReading \<Longrightarrow> handleConn_create k gm = gm"
  by (simp_all add: handleConn_next_def handleConn_create_def)

text \<open>
  With nothing in between the finest steps are the handler as a whole: what it does after the
  lookup is at most one creation or three steps.
\<close>

lemma handleConn_finest_steps:
  assumes "gc_loc (gm_conns gm k) = ConnReading"
  shows "handleConn_next k (handleConn_next k (handleConn_next k
      (handleConn_create k (handleConn_take k env gm)))) = handleConn_env k env gm"
proof (cases "players_of gm (resolvePlayer env gm)")
  case None
  then have "handleConn_create k (handleConn_take k env gm) = handleConn_env k env gm"
    by (simp add: handleConn_take_def Let_def handleConn_two_steps [OF assms])
  then show ?thesis by (simp add: handleConn_env_loc(2) [OF assms])
next
  case (Some r)
  let ?p = "resolvePlayer env gm" and ?a = "msg_id env \<noteq> MsgPlayerResumeReq"
  show ?thesis
  proof (cases "msg_id env = MsgPlayerOfflineNotify")
    case True
    let ?g = "offline_unbind r (upd_player r p_OnOffline (offline_save r gm))"
    have r: "set_loc k ConnReading ?g = ?g" using assms by (intro set_loc_same) simp
    show ?thesis
    proof (cases "?p = 0")
      case True
      with \<open>msg_id env = MsgPlayerOfflineNotify\<close> Some have "handleConn_take k env gm = gm"
        "handleConn_env k env gm = gm" by (simp_all add: handleConn_take_def handleConn_env_def Let_def)
      with next_reading [OF assms] show ?thesis by simp
    next
      case False
      with True Some have "handleConn_take k env gm = set_loc k (ConnAt AtSave r) gm"
        "handleConn_env k env gm = ?g"
        by (simp_all add: handleConn_take_def handleConn_env_def MarkOffline_def Let_def)
      then show ?thesis by (simp only: next_at r)
    qed
  next
    case False
    let ?g = "found_bind (eSessionId env) r (found_resume (eSessionId env) r gm)"
    have r: "set_loc k ConnReading ?g = ?g" using assms by (intro set_loc_same) simp
    show ?thesis
    proof (cases "\<not> ?a \<and> ?p = 0")
      case True
      with False Some have "handleConn_take k env gm = gm" "handleConn_env k env gm = gm"
        by (simp_all add: handleConn_take_def handleConn_env_def Let_def)
      with next_reading [OF assms] show ?thesis by simp
    next
      case norm: False
      with False Some have "handleConn_take k env gm = set_loc k (ConnAt (AtResume env ?a) r) gm"
        by (auto simp: handleConn_take_def Let_def)
      moreover have "GetOrCreate (eSessionId env) ?p gm = (Inr r, ?g)"
        using Some by (simp add: GetOrCreate_def Let_def)
      then have "handleConn_env k env gm = dispatch_to k ?a env r ?g"
        using norm False by (auto simp: handleConn_env_def Let_def)
      ultimately show ?thesis by (simp only: next_at r)
    qed
  qed
qed

subsection \<open>A reply is sent\<close>

lemma send_replies:
  "distinct (map fst rs) \<Longrightarrow> (\<forall>x \<in> fst ` set rs. gm_replies gm x = make_chan 1) \<Longrightarrow>
     fold send_reply rs gm = gm\<lparr>gm_replies := (\<lambda>x. case map_of rs x of
        None \<Rightarrow> gm_replies gm x | Some res \<Rightarrow> \<lparr>ch_cap = 1, ch_buf = [res]\<rparr>)\<rparr>"
proof (induction rs arbitrary: gm)
  case (Cons rr rs)
  obtain x res where rr: "rr = (x, res)" by (cases rr)
  with Cons.prems have s: "send_reply rr gm =
      gm\<lparr>gm_replies := (gm_replies gm)(x := \<lparr>ch_cap = 1, ch_buf = [res]\<rparr>)\<rparr>"
    by (simp add: send_reply_def try_send_def make_chan_def)
  have nx: "map_of rs x = None" using Cons.prems rr by (simp add: map_of_eq_None_iff)
  have "fold send_reply rs (send_reply rr gm) = (send_reply rr gm)\<lparr>gm_replies := (\<lambda>y. case map_of rs y of
        None \<Rightarrow> gm_replies (send_reply rr gm) y | Some res \<Rightarrow> \<lparr>ch_cap = 1, ch_buf = [res]\<rparr>)\<rparr>"
    by (rule Cons.IH) (use Cons.prems rr s in auto)
  also have "\<dots> = gm\<lparr>gm_replies := (\<lambda>y. case map_of (rr # rs) y of
        None \<Rightarrow> gm_replies gm y | Some res \<Rightarrow> \<lparr>ch_cap = 1, ch_buf = [res]\<rparr>)\<rparr>"
    unfolding s by (simp, rule arg_cong [where f = "\<lambda>f. gm\<lparr>gm_replies := f\<rparr>"])
      (auto simp: fun_eq_iff rr nx split: option.split)
  finally show ?case by simp
qed simp

lemma player_loop_eq:
  assumes inv: "game_inv gm" and r: "r < gm_heapNext gm"
    and l: "loop_step pb (gm_heap gm r) = (p, rs)"
  shows "player_loop pb r gm = (upd_player r (\<lambda>_. p) gm)\<lparr>gm_replies := (\<lambda>x. case map_of rs x of
        None \<Rightarrow> gm_replies gm x | Some res \<Rightarrow> \<lparr>ch_cap = 1, ch_buf = [res]\<rparr>)\<rparr>"
    and "map fst rs @ refs p = refs (gm_heap gm r)"
proof -
  have m: "p_modules (gm_heap gm r) = ready_modules"
    using game_invD(4) [OF inv r] by (simp add: player_wf_def)
  show split: "map fst rs @ refs p = refs (gm_heap gm r)" using loop_step_refs [OF m, of pb] l by simp
  have d: "distinct (map fst rs)"
    using inv r split by (metis distinct_append game_inv_def replies_ok_def)
  have c: "\<forall>x \<in> fst ` set rs. gm_replies (upd_player r (\<lambda>_. p) gm) x = make_chan 1"
  proof
    fix x assume "x \<in> fst ` set rs"
    then have "x \<in> set (refs (gm_heap gm r))" using split by (metis Un_iff list.set_map set_append)
    with r have "queued x gm" by (auto simp: queued_def)
    with inv show "gm_replies (upd_player r (\<lambda>_. p) gm) x = make_chan 1"
      by (simp add: game_inv_def replies_ok_def)
  qed
  have "player_loop pb r gm = fold send_reply rs (upd_player r (\<lambda>_. p) gm)"
    using l by (simp add: player_loop_def upd_player_def)
  with send_replies [OF d c] show "player_loop pb r gm = (upd_player r (\<lambda>_. p) gm)\<lparr>gm_replies :=
      (\<lambda>x. case map_of rs x of None \<Rightarrow> gm_replies gm x | Some res \<Rightarrow> \<lparr>ch_cap = 1, ch_buf = [res]\<rparr>)\<rparr>"
    unfolding upd_player_simps by simp
qed

lemma game_inv_player_loop:
  assumes inv: "game_inv gm" and r: "r < gm_heapNext gm"
  shows "game_inv (player_loop pb r gm)"
proof -
  obtain p rs where l: "loop_step pb (gm_heap gm r) = (p, rs)" by force
  note eq = player_loop_eq [OF inv r l]
  let ?g = "player_loop pb r gm"
  have wf0: "player_wf (gm_heap gm r)" by (rule game_invD(4) [OF inv r])
  then have m: "p_modules (gm_heap gm r) = ready_modules" by (simp add: player_wf_def)
  have wf: "player_wf p" using wf_loop_step [OF wf0, of pb] l by simp
  have id: "p_PlayerID p = p_PlayerID (gm_heap gm r)" using loop_step_frame(1) [OF m, of pb] l by simp
  have st: "p_state (gm_heap gm r) \<noteq> PlayerStateDestroyed \<Longrightarrow> p_state p \<noteq> PlayerStateDestroyed"
  proof (cases rule: loop_step_cases [OF m, of pb])
    case (4 msg ms)
    with l show "p_state (gm_heap gm r) \<noteq> PlayerStateDestroyed \<Longrightarrow> p_state p \<noteq> PlayerStateDestroyed"
      by (auto simp: OnResume_alive split: if_splits)
  qed (use l in auto)
  have sub: "set (refs p) \<subseteq> set (refs (gm_heap gm r))" using eq(2) by (metis Un_upper2 set_append)
  have d: "distinct (map fst rs @ refs p)" using inv r eq(2) by (simp add: game_inv_def replies_ok_def)
  have q: "queued y ?g \<longleftrightarrow> queued y gm \<and> y \<notin> fst ` set rs" for y
  proof -
    have u: "set (refs (gm_heap gm r)) = fst ` set rs \<union> set (refs p)"
      using eq(2) by (metis list.set_map set_append)
    have dj: "fst ` set rs \<inter> set (refs p) = {}" using d by auto
    have o: "s \<noteq> r \<Longrightarrow> s < gm_heapNext gm \<Longrightarrow> set (refs (gm_heap gm s)) \<inter> set (refs (gm_heap gm r)) = {}" for s
      using inv r by (simp add: game_inv_def replies_ok_def)
    have g: "queued y ?g \<longleftrightarrow> y \<in> set (refs p) \<or> (\<exists>s < gm_heapNext gm. s \<noteq> r \<and> y \<in> set (refs (gm_heap gm s)))"
      using r queued_upd_player [of y r "\<lambda>_. p" gm] unfolding eq(1) by (simp add: queued_def)
    show ?thesis
    proof (cases "y \<in> set (refs (gm_heap gm r))")
      case True
      then have "\<not> (\<exists>s < gm_heapNext gm. s \<noteq> r \<and> y \<in> set (refs (gm_heap gm s)))" using o by blast
      moreover have "queued y gm" using True r by (auto simp: queued_def)
      ultimately show ?thesis using g u dj True by blast
    next
      case False
      then have "queued y gm \<longleftrightarrow> (\<exists>s < gm_heapNext gm. s \<noteq> r \<and> y \<in> set (refs (gm_heap gm s)))"
        unfolding queued_def by metis
      then show ?thesis using g u False by blast
    qed
  qed
  have nm: "map_of rs y = None \<longleftrightarrow> y \<notin> fst ` set rs" for y by (simp add: map_of_eq_None_iff)
  have "heap_ok ?g" using inv wf by (simp add: eq(1) game_inv_def heap_ok_def)
  moreover have "index_ok ?g" using inv id st by (auto simp: eq(1) game_inv_def index_ok_def)
  moreover have "replies_ok ?g"
    unfolding replies_ok_def
  proof (intro conjI allI impI)
    show "distinct (refs (gm_heap ?g s))" if "s < gm_heapNext ?g" for s
      using that inv d by (auto simp: eq(1) game_inv_def replies_ok_def)
    show "set (refs (gm_heap ?g s)) \<inter> set (refs (gm_heap ?g s')) = {}"
      if "s < gm_heapNext ?g" "s' < gm_heapNext ?g" "s \<noteq> s'" for s s'
      using that inv sub r by (auto simp: eq(1) game_inv_def replies_ok_def; blast)
    show "y < gm_replyNext ?g" "gm_replies ?g y = make_chan 1" if "queued y ?g" for y
      using that [unfolded q] inv nm [of y] by (auto simp: eq(1) game_inv_def replies_ok_def)
  qed
  moreover have "waits_ok ?g"
    unfolding waits_ok_def
  proof (intro allI impI)
    fix k x b assume "gc_loc (gm_conns ?g k) = ConnWaiting x b"
    then have "gc_loc (gm_conns gm k) = ConnWaiting x b" by (simp add: eq(1))
    moreover have "waits_ok gm" using inv by (simp add: game_inv_def)
    ultimately have w: "k < gm_connNext gm" "x < gm_replyNext gm" "queued x gm \<or> ch_buf (gm_replies gm x) \<noteq> []"
      "\<forall>k' b'. gc_loc (gm_conns gm k') = ConnWaiting x b' \<longrightarrow> k' = k" unfolding waits_ok_def by blast+
    have "queued x ?g \<or> ch_buf (gm_replies ?g x) \<noteq> []"
    proof (cases "map_of rs x")
      case None
      with w(3) nm [of x] q [of x] show ?thesis by (simp add: eq(1))
    next
      case (Some res)
      then show ?thesis by (simp add: eq(1))
    qed
    with w show "k < gm_connNext ?g \<and> x < gm_replyNext ?g \<and> (queued x ?g \<or> ch_buf (gm_replies ?g x) \<noteq> []) \<and>
        (\<forall>k' b'. gc_loc (gm_conns ?g k') = ConnWaiting x b' \<longrightarrow> k' = k)" by (simp add: eq(1))
  qed
  moreover have "holds_ok ?g" using inv by (simp add: eq(1) game_inv_def holds_ok_def)
  ultimately show ?thesis by (simp add: game_inv_def)
qed

subsection \<open>Every step keeps the invariant\<close>

lemma game_inv_step:
  assumes inv: "game_inv gm" and en: "game_enabled ev gm"
  shows "game_inv (game_step pb t ev gm)"
proof (cases ev)
  case (PersistTick ord)
  then show ?thesis by (simp add: persistLoop_def inv game_inv_same [OF inv same_SaveAll])
qed (use en in \<open>simp_all add: inv game_inv_acceptService game_inv_handleConn_env game_inv_handleConn_begin
    game_inv_handleConn_create game_inv_handleConn_take game_inv_handleConn_next game_inv_handleConn_reply
    game_inv_handleConn_timeout game_inv_handleConn_end game_inv_player_loop game_inv_DestroyPlayer\<close>)

lemma game_reach_inv: "game_reach st opts interval db gm \<Longrightarrow> game_inv gm"
  by (induction rule: game_reach.induct) (simp_all add: game_inv_boot game_inv_step)

end
