(* ===== verification/LoginService.thy ===== *)
theory LoginService
  imports PlayerDb
begin

text \<open>
  The login service (\<open>modules/login/service.go\<close>): which role an account plays. The locale
  adds the id generator to the store; from its laws follow the facts a login rests on. A
  reference implementation of the Redis commands in memory interprets both locales.
\<close>

record 'd LoginService =
  uidGen :: "('d \<Rightarrow> (go_error + int64) \<times> 'd) option"
  loginStore :: "'d store option"

definition NewLoginService ::
    "('d \<Rightarrow> (go_error + int64) \<times> 'd) option \<Rightarrow> 'd store option \<Rightarrow> 'd LoginService" where
  "NewLoginService g st = \<lparr>uidGen = g, loginStore = st\<rparr>"

definition svc_NextUID :: "'d LoginService \<Rightarrow> 'd \<Rightarrow> (go_error + int64) \<times> 'd" where
  "svc_NextUID s d = (case uidGen s of None \<Rightarrow> (Inr 0, d) | Some g \<Rightarrow> g d)"

text \<open>The second half of \<open>ResolveRoleID\<close>: the account has no role yet.\<close>

definition createRole ::
    "'d LoginService \<Rightarrow> 'd store \<Rightarrow> string \<Rightarrow> 'd \<Rightarrow> (go_error + int64 \<times> bool) \<times> 'd" where
  "createRole s st accountID d =
     (case svc_NextUID s d of
        (Inl err, d) \<Rightarrow> (Inl err, d)
      | (Inr roleID, d) \<Rightarrow>
          (case st_SaveRoleID st accountID roleID d of
             (Some err, d) \<Rightarrow> (Inl err, d)
           | (None, d) \<Rightarrow>
               (case st_SaveProfile st (NewProfile roleID accountID) d of
                  (Some err, d) \<Rightarrow> (Inl err, d)
                | (None, d) \<Rightarrow> (Inr (roleID, False), d))))"

definition ResolveRoleID ::
    "'d LoginService \<Rightarrow> string \<Rightarrow> 'd \<Rightarrow> (go_error + int64 \<times> bool) \<times> 'd" where
  "ResolveRoleID s accountID d =
     (case loginStore s of
        None \<Rightarrow>
          (case svc_NextUID s d of
             (Inl err, d) \<Rightarrow> (Inl err, d) | (Inr roleID, d) \<Rightarrow> (Inr (roleID, False), d))
      | Some st \<Rightarrow>
          (case st_LoadRoleID st accountID d of
             (Inl err, d) \<Rightarrow> (Inl err, d)
           | (Inr (Some roleID), d) \<Rightarrow> (Inr (roleID, True), d)
           | (Inr None, d) \<Rightarrow> createRole s st accountID d))"

subsection \<open>What a login relies on\<close>

text \<open>Every role in the database was handed out by the generator, and to one account only.\<close>

definition role_table_ok :: "(string \<Rightarrow> int64 option) \<Rightarrow> int64 \<Rightarrow> bool" where
  "role_table_ok rs n \<longleftrightarrow> 0 \<le> sint n \<and>
     (\<forall>a p. rs a = Some p \<longrightarrow> 0 < sint p \<and> sint p \<le> sint n) \<and>
     (\<forall>a b p. rs a = Some p \<longrightarrow> rs b = Some p \<longrightarrow> a = b)"

locale role_service = player_store +
  fixes uid :: "'a \<Rightarrow> (go_error + int64) \<times> 'a"
  assumes uid_ok: "uid d = (Inr n, d') \<Longrightarrow>
      sint n = sint (counter d) + 1 \<and> counter d' = n \<and> roles d' = roles d \<and> profiles d' = profiles d"
begin

abbreviation roles_ok :: "'a \<Rightarrow> bool" where
  "roles_ok d \<equiv> role_table_ok (roles d) (counter d)"

lemma createRole_ok:
  assumes r: "createRole (NewLoginService (Some uid) (Some st)) st a d = (Inr (p, x), d')"
    and a: "a \<noteq> ''''" and c: "0 \<le> sint (counter d)"
  shows "\<not> x" "sint p = sint (counter d) + 1" "counter d' = p" "roles d' = (roles d)(a \<mapsto> p)"
    "profiles d' = (profiles d)(p \<mapsto> NewProfile p a)"
proof -
  from r obtain d1 d2 where u: "uid d = (Inr p, d1)" and s: "st_SaveRoleID st a p d1 = (None, d2)"
    and f: "st_SaveProfile st (NewProfile p a) d2 = (None, d')" and "\<not> x"
    by (auto simp: createRole_def svc_NextUID_def NewLoginService_def split: prod.splits sum.splits option.splits)
  note u = uid_ok [OF u] and s = save_role [OF s] and f = save_profile [OF f]
  have "p \<noteq> 0" using u c by auto
  with u s f a \<open>\<not> x\<close> show "\<not> x" "sint p = sint (counter d) + 1" "counter d' = p"
    "roles d' = (roles d)(a \<mapsto> p)" "profiles d' = (profiles d)(p \<mapsto> NewProfile p a)"
    by (auto simp: NewProfile_def)
qed

lemma createRole_roles_ok:
  assumes r: "createRole (NewLoginService (Some uid) (Some st)) st a d = (Inr (p, x), d')"
    and a: "a \<noteq> ''''" and ok: "roles_ok d"
  shows "roles_ok d'"
proof -
  have c: "0 \<le> sint (counter d)" using ok by (simp add: role_table_ok_def)
  note k = createRole_ok [OF r a c]
  have less: "roles d b = Some q \<Longrightarrow> 0 < sint q \<and> sint q < sint p" for b q
    using ok k(2) by (fastforce simp: role_table_ok_def)
  show ?thesis unfolding role_table_ok_def
  proof (intro conjI allI impI)
    show "0 \<le> sint (counter d')" using c k(2,3) by simp
    show "0 < sint q" "sint q \<le> sint (counter d')" if "roles d' b = Some q" for b q
      using that less [of b q] c k(2-4) by (auto split: if_splits)
    show "b = b'" if "roles d' b = Some q" "roles d' b' = Some q" for b b' q
      using that less [of b q] less [of b' q] ok k(4) by (auto simp: role_table_ok_def split: if_splits)
  qed
qed

theorem resolve_ok:
  assumes r: "ResolveRoleID (NewLoginService (Some uid) (Some st)) a d = (Inr (p, existed), d')"
    and a: "a \<noteq> ''''" and ok: "roles_ok d"
  shows "roles_ok d'" "roles d' a = Some p" "\<And>b. b \<noteq> a \<Longrightarrow> roles d' b = roles d b"
    "existed \<longleftrightarrow> roles d a \<noteq> None" "roles d a \<noteq> None \<Longrightarrow> roles d a = Some p"
    "\<not> existed \<Longrightarrow> profiles d' p = Some (NewProfile p a)"
proof -
  obtain l d1 where l: "st_LoadRoleID st a d = (l, d1)" by (cases "st_LoadRoleID st a d")
  have rest: "roles_ok d' \<and> roles d' a = Some p \<and> (\<forall>b. b \<noteq> a \<longrightarrow> roles d' b = roles d b) \<and>
      existed = (roles d a \<noteq> None) \<and> (roles d a \<noteq> None \<longrightarrow> roles d a = Some p) \<and>
      (\<not> existed \<longrightarrow> profiles d' p = Some (NewProfile p a))"
  proof (cases l)
    case (Inl e)
    with r l show ?thesis by (simp add: ResolveRoleID_def NewLoginService_def)
  next
    case (Inr x)
    note lr = load_role [OF l [unfolded Inr]]
    have ok1: "roles_ok d1" using ok lr by (simp add: role_table_ok_def)
    show ?thesis
    proof (cases x)
      case (Some q)
      with r l Inr have "q = p" "existed" "d1 = d'" by (auto simp: ResolveRoleID_def NewLoginService_def)
      moreover from this lr Some a have "roles d a = Some p" by auto
      ultimately show ?thesis using lr ok1 by simp
    next
      case None
      with r l Inr have c: "createRole (NewLoginService (Some uid) (Some st)) st a d1 = (Inr (p, existed), d')"
        by (simp add: ResolveRoleID_def NewLoginService_def)
      have "0 \<le> sint (counter d1)" using ok1 by (simp add: role_table_ok_def)
      from createRole_ok [OF c a this] createRole_roles_ok [OF c a ok1] lr None a show ?thesis by simp
    qed
  qed
  then show "roles_ok d'" "roles d' a = Some p" "existed \<longleftrightarrow> roles d a \<noteq> None"
    "roles d a \<noteq> None \<Longrightarrow> roles d a = Some p" "\<not> existed \<Longrightarrow> profiles d' p = Some (NewProfile p a)"
    by auto
  show "\<And>b. b \<noteq> a \<Longrightarrow> roles d' b = roles d b" using rest by blast
qed

text \<open>Two first logins of one account whose lookups both come before either write.\<close>

theorem resolve_race:
  assumes "st_LoadRoleID st a d = (Inr None, d1)" "st_LoadRoleID st a d1 = (Inr None, d2)"
    and "createRole (NewLoginService (Some uid) (Some st)) st a d2 = (Inr (p, x), d3)"
    and "createRole (NewLoginService (Some uid) (Some st)) st a d3 = (Inr (q, y), d4)"
    and "a \<noteq> ''''" and "0 \<le> sint (counter d)"
  shows "p \<noteq> q" "roles d4 a = Some q" "profiles d4 p = Some (NewProfile p a)"
proof -
  have c2: "0 \<le> sint (counter d2)" using load_role [OF assms(1)] load_role [OF assms(2)] assms(6) by simp
  note k1 = createRole_ok [OF assms(3,5) c2]
  have c3: "0 \<le> sint (counter d3)" using k1 c2 by simp
  note k2 = createRole_ok [OF assms(4,5) c3]
  show ne: "p \<noteq> q" using k1 k2 by auto
  show "roles d4 a = Some q" using k2 by simp
  show "profiles d4 p = Some (NewProfile p a)" using k1 k2 ne by simp
qed

end

text \<open>Redis gives the id generator too: \<open>INCR\<close> of one key.\<close>

sublocale redis_laws \<subseteq> rs: role_service "NewRedisStore rd jc" "redis_roles view"
  "redis_profiles view jc" "redis_counter view" "NextUID rd"
proof
  fix d n d' assume "NextUID rd d = (Inr n, d')"
  then have i: "r_Incr rd KeyUIDNext d = (Inr n, d')" by (simp add: NextUID_def)
  note v = incr_ok [OF i]
  have "redis_roles view d' = redis_roles view d"
    by (rule ext) (simp add: redis_roles_def v)
  moreover have "redis_profiles view jc d' = redis_profiles view jc d"
    by (rule ext) (simp add: redis_profiles_def v)
  moreover have "redis_counter view d' = n" by (simp add: redis_counter_def v)
  moreover have "sint n = sint (redis_counter view d) + 1"
    using v by (auto simp: redis_counter_def split: option.splits)
  ultimately show "sint n = sint (redis_counter view d) + 1 \<and> redis_counter view d' = n \<and>
      redis_roles view d' = redis_roles view d \<and> redis_profiles view jc d' = redis_profiles view jc d"
    by simp
qed

subsection \<open>A reference Redis\<close>

text \<open>The commands on a map in memory that never fails except as documented.\<close>

definition mem_redis :: "(string \<Rightarrow> string option) redis" where
  "mem_redis =
     \<lparr>r_Get = (\<lambda>k d. (case d k of None \<Rightarrow> Inl RedisNil | Some s \<Rightarrow> Inr s, d)),
      r_Set = (\<lambda>k v ttl d. (None, d(k \<mapsto> wire_text v))),
      r_Incr = (\<lambda>k d.
         (case (case d k of None \<Rightarrow> Some 0 | Some s \<Rightarrow> parse_int64 s) of
            None \<Rightarrow> (Inl (LibError ''ERR value is not an integer or out of range''), d)
          | Some m \<Rightarrow>
              (if sint m = 2 ^ 63 - 1
               then (Inl (LibError ''ERR increment or decrement would overflow''), d)
               else (Inr (m + 1), d(k \<mapsto> dec_int (sint (m + 1)))))))\<rparr>"

text \<open>
  A text form of a profile that can be read back: each field behind its length. It stands for
  the JSON text, whose exact form nothing in the servers depends on.
\<close>

definition net_field :: "string \<Rightarrow> string" where
  "net_field s = dec_nat (length s) @ CHR '':'' # s"

definition net_parse :: "string \<Rightarrow> (string \<times> string) option" where
  "net_parse s =
     (let ds = takeWhile (\<lambda>c. c \<noteq> CHR '':'') s; r = drop (Suc (length ds)) s
      in case parse_digits ds of
           None \<Rightarrow> None
         | Some n \<Rightarrow> if n \<le> length r then Some (take n r, drop n r) else None)"

fun net_parse_n :: "nat \<Rightarrow> string \<Rightarrow> string list option" where
  "net_parse_n 0 s = (if s = [] then Some [] else None)"
| "net_parse_n (Suc n) s =
     (case net_parse s of
        None \<Rightarrow> None
      | Some (f, r) \<Rightarrow> (case net_parse_n n r of None \<Rightarrow> None | Some fs \<Rightarrow> Some (f # fs)))"

lemma dec_nat_no_colon: "CHR '':'' \<notin> set (dec_nat n)"
  by (auto dest: dec_nat_digits)

lemma net_parse_field [simp]: "net_parse (net_field s @ r) = Some (s, r)"
proof -
  have t: "takeWhile (\<lambda>c. c \<noteq> CHR '':'') (net_field s @ r) = dec_nat (length s)"
    using dec_nat_no_colon [of "length s"]
    by (simp add: net_field_def takeWhile_append2 takeWhile_tail) (metis takeWhile_append2 append_Nil2 takeWhile_cong takeWhile_eq_all_conv)
  have d: "drop (Suc (length (dec_nat (length s)))) (net_field s @ r) = s @ r"
    by (simp add: net_field_def)
  show ?thesis unfolding net_parse_def Let_def t d by simp
qed

lemma net_parse_fields: "net_parse_n (length fs) (concat (map net_field fs)) = Some fs"
  by (induction fs) simp_all

definition profile_text :: json_codec where
  "profile_text =
     \<lparr>json_marshal = (\<lambda>p. Some (concat (map net_field
        [dec_int (sint (RoleID p)), AccountID p, NickName p, dec_int (sint (scast (Level p) :: int64)),
         dec_int (sint (Exp p)), dec_int (sint (Gold p)), dec_int (sint (Stamina p))]))),
      json_unmarshal = (\<lambda>t.
        (case net_parse_n 7 t of
           Some [i, a, n, l, x, g, s] \<Rightarrow>
             (case (parse_int64 i, parse_int64 l, parse_int64 x, parse_int64 g, parse_int64 s) of
                (Some i, Some l, Some x, Some g, Some s) \<Rightarrow>
                  Some \<lparr>RoleID = i, AccountID = a, NickName = n, Level = ucast l, Exp = x, Gold = g,
                        Stamina = s\<rparr>
              | _ \<Rightarrow> None)
         | _ \<Rightarrow> None))\<rparr>"

lemma profile_text_roundtrip: "json_marshal profile_text p = Some t \<Longrightarrow> json_unmarshal profile_text t = Some p"
proof -
  let ?fs = "[dec_int (sint (RoleID p)), AccountID p, NickName p, dec_int (sint (scast (Level p) :: int64)),
         dec_int (sint (Exp p)), dec_int (sint (Gold p)), dec_int (sint (Stamina p))]"
  assume "json_marshal profile_text p = Some t"
  then have t: "t = concat (map net_field ?fs)" by (simp add: profile_text_def)
  have "length ?fs = 7" by simp
  then have "net_parse_n 7 t = Some ?fs" using net_parse_fields [of ?fs] by (simp only: t)
  moreover have "ucast (scast (Level p) :: int64) = Level p"
    by (rule bit_word_eqI) (simp add: bit_simps)
  ultimately show ?thesis by (simp add: profile_text_def parse_dec_int del: net_parse_n.simps)
qed

interpretation mem: redis_laws mem_redis "\<lambda>d. d" profile_text
proof
  show "json_unmarshal profile_text t = Some pr" if "json_marshal profile_text pr = Some t" for pr t
    by (rule profile_text_roundtrip [OF that])
next
  fix k d n d' assume "r_Incr mem_redis k d = (Inr n, d')"
  then obtain m where m: "(case d k of None \<Rightarrow> Some 0 | Some s \<Rightarrow> parse_int64 s) = Some m"
    and "sint m \<noteq> 2 ^ 63 - 1" and n: "n = m + 1" "d' = d(k \<mapsto> dec_int (sint (m + 1)))"
    by (auto simp: mem_redis_def split: option.splits if_splits)
  then have "sint m + 1 < 2 ^ 63" "- (2 ^ 63) \<le> sint m"
    using sint_less [of m] sint_greater_eq [of m] by simp_all
  then have "sint (m + 1) = sint m + 1"
    by (simp add: sint_word_ariths signed_take_bit_int_eq_self)
  with m n show "d' = d(k \<mapsto> dec_int (sint n)) \<and>
      (case d k of None \<Rightarrow> n = 1 | Some s \<Rightarrow> \<exists>m. parse_int64 s = Some m \<and> sint n = sint m + 1)"
    by (auto split: option.splits)
qed (auto simp: mem_redis_def split: option.splits)

subsection \<open>Properties\<close>

text \<open>The login service as \<open>cmd/service/main.go\<close> builds it.\<close>

definition redis_login_service :: "'r redis \<Rightarrow> json_codec \<Rightarrow> 'r LoginService" where
  "redis_login_service rd jc = NewLoginService (Some (NextUID rd)) (Some (NewRedisStore rd jc))"

context redis_laws
begin

lemma resolve_one:
  assumes "role_table_ok (redis_roles view d) (redis_counter view d)"
    and r: "ResolveRoleID (redis_login_service rd jc) a d = (Inr (p, x), d')" and "a \<noteq> []"
  shows "redis_roles view d' a = Some p"
  using rs.resolve_ok(2) [OF r [unfolded redis_login_service_def] assms(3,1)] .

lemma resolve_two:
  assumes ok: "role_table_ok (redis_roles view d) (redis_counter view d)"
    and r1: "ResolveRoleID (redis_login_service rd jc) a d = (Inr (p, x), d1)"
    and r2: "ResolveRoleID (redis_login_service rd jc) b d1 = (Inr (q, y), d2)"
    and ne: "a \<noteq> []" "b \<noteq> []"
  shows "(p = q \<longleftrightarrow> a = b) \<and> role_table_ok (redis_roles view d2) (redis_counter view d2) \<and>
    redis_roles view d2 a = Some p \<and> redis_roles view d2 b = Some q"
proof -
  note f1 = rs.resolve_ok [OF r1 [unfolded redis_login_service_def] ne(1) ok]
  note f2 = rs.resolve_ok [OF r2 [unfolded redis_login_service_def] ne(2) f1(1)]
  have "redis_roles view d2 a = Some p"
  proof (cases "a = b")
    case True
    then show ?thesis using f1(2) f2(2,5) by simp
  next
    case False
    then show ?thesis using f1(2) f2(3) [of a] by simp
  qed
  with f2(1,2) show ?thesis by (auto simp: role_table_ok_def)
qed

lemma resolve_race:
  assumes "LoadRoleID rd a d = (Inr None, d1)" "LoadRoleID rd a d1 = (Inr None, d2)"
    and "createRole (redis_login_service rd jc) (NewRedisStore rd jc) a d2 = (Inr (p, x), d3)"
    and "createRole (redis_login_service rd jc) (NewRedisStore rd jc) a d3 = (Inr (q, y), d4)"
    and "a \<noteq> []" and "0 \<le> sint (redis_counter view d)"
  shows "p \<noteq> q" "redis_roles view d4 a = Some q"
    "redis_profiles view jc d4 p = Some (NewProfile p a)"
  using rs.resolve_race [of a d d1 d2 p x d3 q y d4] assms
  by (simp_all add: redis_login_service_def NewRedisStore_def)

end

text \<open>
  C24: An account keeps its role and no two accounts share one: when two logins succeed one
  after the other, they get the same role exactly if they name the same account, and the
  table of roles stays well formed. This holds over every Redis client that obeys the
  documented laws, whatever errors it returned before.
\<close>

theorem login_role_stable_and_unique:
  assumes "redis_laws rd view jc"
    and "role_table_ok (redis_roles view d) (redis_counter view d)"
    and "ResolveRoleID (redis_login_service rd jc) a d = (Inr (p, x), d1)"
    and "ResolveRoleID (redis_login_service rd jc) b d1 = (Inr (q, y), d2)"
    and "a \<noteq> ''''" and "b \<noteq> ''''"
  shows "(p = q \<longleftrightarrow> a = b) \<and> role_table_ok (redis_roles view d2) (redis_counter view d2) \<and>
    redis_roles view d2 a = Some p \<and> redis_roles view d2 b = Some q"
  by (rule redis_laws.resolve_two [OF assms])

lemma mem_login:
  "ResolveRoleID (redis_login_service mem_redis profile_text) ''ann'' Map.empty =
     (Inr (1, False), [KeyUIDNext \<mapsto> dec_int 1, AccountRoleKey ''ann'' \<mapsto> dec_int 1,
        PlayerProfileKey 1 \<mapsto> the (json_marshal profile_text (NewProfile 1 ''ann''))])"
  by (simp add: ResolveRoleID_def redis_login_service_def NewLoginService_def NewRedisStore_def
      LoadRoleID_def createRole_def svc_NextUID_def NextUID_def SaveRoleID_def SaveProfile_def
      SetWithTTL_def GetString_def mem_redis_def RedisNil_def NewProfile_def profile_text_def)

theorem login_role_stable_and_unique_witness:
  "\<exists>d2 q. ResolveRoleID (redis_login_service mem_redis profile_text) ''ann''
      (snd (ResolveRoleID (redis_login_service mem_redis profile_text) ''ann'' Map.empty)) = (Inr q, d2) \<and>
    fst q = 1"
proof -
  let ?s = "redis_login_service mem_redis profile_text"
  let ?d1 = "snd (ResolveRoleID ?s ''ann'' Map.empty)"
  have one: "ResolveRoleID ?s ''ann'' Map.empty = (Inr (1, False), ?d1)" by (simp add: mem_login)
  have "parse_int64 (dec_int 1) = Some 1" using parse_dec_int [of 1] by simp
  then have two: "ResolveRoleID ?s ''ann'' ?d1 = (Inr (1, True), ?d1)"
    unfolding mem_login
    by (simp add: ResolveRoleID_def redis_login_service_def NewLoginService_def NewRedisStore_def
        LoadRoleID_def GetString_def mem_redis_def)
  have ok: "role_table_ok (redis_roles (\<lambda>d. d) Map.empty) (redis_counter (\<lambda>d. d) Map.empty)"
    by (simp add: role_table_ok_def redis_roles_def redis_counter_def)
  from login_role_stable_and_unique [OF mem.redis_laws_axioms ok one two] two
  show ?thesis by auto
qed

text \<open>
  C25: Two concurrent first logins of one account can give it two roles. When both look the
  account up before either has stored a role, both succeed with different roles; the
  account ends up with the second, and the role the first login was given stays behind with
  a profile that no account leads to.
\<close>

theorem concurrent_first_logins_split_account:
  assumes "redis_laws rd view jc" and "0 \<le> sint (redis_counter view d)" and "a \<noteq> ''''"
    and "LoadRoleID rd a d = (Inr None, d1)" and "LoadRoleID rd a d1 = (Inr None, d2)"
    and "createRole (redis_login_service rd jc) (NewRedisStore rd jc) a d2 = (Inr (p, x), d3)"
    and "createRole (redis_login_service rd jc) (NewRedisStore rd jc) a d3 = (Inr (q, y), d4)"
  shows "p \<noteq> q \<and> redis_roles view d4 a = Some q \<and>
    redis_profiles view jc d4 p = Some (NewProfile p a)"
  using redis_laws.resolve_race [OF assms(1,4-7,3,2)] by simp

theorem concurrent_first_logins_split_account_witness:
  "\<exists>d3 d4 p q x y.
     createRole (redis_login_service mem_redis profile_text) (NewRedisStore mem_redis profile_text)
       ''ann'' Map.empty = (Inr (p, x), d3) \<and>
     createRole (redis_login_service mem_redis profile_text) (NewRedisStore mem_redis profile_text)
       ''ann'' d3 = (Inr (q, y), d4) \<and> p \<noteq> q"
proof -
  let ?s = "redis_login_service mem_redis profile_text" and ?st = "NewRedisStore mem_redis profile_text"
  have l: "LoadRoleID mem_redis ''ann'' Map.empty = (Inr None, Map.empty)"
    by (simp add: LoadRoleID_def GetString_def mem_redis_def)
  have one: "createRole ?s ?st ''ann'' Map.empty =
      (Inr (1, False), snd (ResolveRoleID ?s ''ann'' Map.empty))"
    using mem_login l by (simp add: ResolveRoleID_def redis_login_service_def NewLoginService_def NewRedisStore_def)
  have p1: "parse_int64 (dec_int 1) = Some 1" using parse_dec_int [of 1] by simp
  obtain d4 where two: "createRole ?s ?st ''ann'' (snd (ResolveRoleID ?s ''ann'' Map.empty)) = (Inr (2, False), d4)"
    unfolding mem_login
    by (simp add: createRole_def redis_login_service_def NewLoginService_def NewRedisStore_def svc_NextUID_def
        NextUID_def SaveRoleID_def SaveProfile_def SetWithTTL_def mem_redis_def p1 profile_text_def NewProfile_def)
  have c: "0 \<le> sint (redis_counter (\<lambda>d. d) Map.empty)" by (simp add: redis_counter_def)
  have "''ann'' \<noteq> ''''" by simp
  from concurrent_first_logins_split_account [OF mem.redis_laws_axioms c this l l one two] one two
  show ?thesis by blast
qed

end
