(* ===== verification/GameScenario.thy ===== *)
theory GameScenario
  imports GameInv LoginService
begin

text \<open>
  A store in memory that obeys the contract of \<open>Store\<close>, and a run of the game server on it:
  the service connects, player 7 enters from session 1, is answered, goes offline and is
  destroyed.
\<close>

type_synonym mem_db = "(string \<Rightarrow> int64 option) \<times> (int64 \<Rightarrow> PlayerProfile option)"

definition mem_store :: "mem_db store" where
  "mem_store =
     \<lparr>st_LoadRoleID = (\<lambda>a d. (Inr (if a = '''' then None else fst d a), d)),
      st_SaveRoleID = (\<lambda>a p d. (None, if a = '''' \<or> p = 0 then d else ((fst d)(a \<mapsto> p), snd d))),
      st_LoadProfile = (\<lambda>p d. (Inr (if p = 0 then None else snd d p), d)),
      st_SaveProfile = (\<lambda>pr d. (None, if RoleID pr = 0 then d else (fst d, (snd d)(RoleID pr \<mapsto> pr))))\<rparr>"

interpretation ms: player_store mem_store fst snd "\<lambda>_. 0"
  by unfold_locales (auto simp: mem_store_def)

lemma mem_store_simps [simp]:
  "st_LoadProfile mem_store p d = (Inr (if p = 0 then None else snd d p), d)"
  "st_SaveProfile mem_store pr d = (None, if RoleID pr = 0 then d else (fst d, (snd d)(RoleID pr \<mapsto> pr)))"
  by (simp_all add: mem_store_def)

definition demo_opts :: ConnOptions where
  "demo_opts = \<lparr>ReadTimeout = 0, WriteTimeout = 0, KeepAlive = 0\<rparr>"

definition game_pb :: pb where
  "game_pb =
     \<lparr>marshalEnvelope = (\<lambda>env. Some (ePayload env)), unmarshalEnvelope = (\<lambda>_. None),
      jsonMarshalEnvelope = (\<lambda>_. None), jsonUnmarshalEnvelope = (\<lambda>_. None),
      marshalSessionInit = (\<lambda>_. None), unmarshalResumeReq = (\<lambda>_. None),
      marshalResumeRsp = (\<lambda>_. None), unmarshalLoginReq = (\<lambda>_. None),
      marshalLoginRsp = (\<lambda>_. None), unmarshalLoginRsp = (\<lambda>_. None),
      marshalErrorRsp = (\<lambda>_. None), marshalPlayerInitRsp = (\<lambda>_. Some [5]),
      marshalLoadPlayerDataRsp = (\<lambda>_. Some [6])\<rparr>"

definition game_msg :: "int \<Rightarrow> int64 \<Rightarrow> int64 \<Rightarrow> Envelope" where
  "game_msg m sid pid = \<lparr>eMsgId = to_int32 m, eSessionId = sid, ePlayerId = pid, ePayload = []\<rparr>"

lemma game_msg_simps [simp]:
  "msg_id (game_msg MsgPlayerEnterGameReq sid pid) = MsgPlayerEnterGameReq"
  "msg_id (game_msg MsgPlayerOfflineNotify sid pid) = MsgPlayerOfflineNotify"
  "msg_id (game_msg MsgPlayerResumeReq sid pid) = MsgPlayerResumeReq"
  "eSessionId (game_msg m sid pid) = sid" "ePlayerId (game_msg m sid pid) = pid"
  by (simp_all add: game_msg_def route_simps)

lemma game_ids [simp]:
  "MsgPlayerEnterGameReq \<noteq> MsgPlayerOfflineNotify" "MsgPlayerEnterGameReq \<noteq> MsgPlayerResumeReq"
  "MsgPlayerEnterGameReq \<noteq> MsgLoadPlayerDataReq"
  "MsgPlayerResumeReq \<noteq> MsgPlayerOfflineNotify"
  by (simp_all add: route_simps)

abbreviation game_boot :: "mem_db game" where
  "game_boot \<equiv> NewGameServer mem_store demo_opts (30 * second) (Map.empty, Map.empty)"

abbreviation reaches :: "mem_db game \<Rightarrow> bool" where
  "reaches \<equiv> game_reach mem_store demo_opts (30 * second) (Map.empty, Map.empty)"

definition idle_in :: instream where "idle_in = \<lparr>st_bytes = [], st_end = EOF\<rparr>"
definition idle_out :: outstream where "idle_out = \<lparr>ws_out = [], ws_script = []\<rparr>"

definition game1 :: "mem_db game" where
  "game1 = game_step game_pb 0 (SvcConnect idle_in idle_out) game_boot"
definition game2 :: "mem_db game" where
  "game2 = game_step game_pb 0 (SvcEnvelope 0 (game_msg MsgPlayerEnterGameReq 1 7)) game1"
definition game2' :: "mem_db game" where
  "game2' = game_step game_pb 0 (PlayerStep 0) game2"
definition game3 :: "mem_db game" where
  "game3 = game_step game_pb 0 (PlayerStep 0) game2'"
definition game4 :: "mem_db game" where
  "game4 = game_step game_pb 0 (SvcReply 0) game3"
definition game5 :: "mem_db game" where
  "game5 = game_step game_pb 0 (SvcEnvelope 0 (game_msg MsgPlayerOfflineNotify 1 7))
     (game_step game_pb 0 (PlayerStep 0) game4)"
definition game6 :: "mem_db game" where
  "game6 = game_step game_pb 0 (Destroy 7) game5"

lemma game1_state:
  "gm_conns game1 0 = \<lparr>gc_conn = NewBufferedConnWithOptions idle_in idle_out demo_opts, gc_loc = ConnReading\<rparr>"
  "gm_connNext game1 = 1" "players_of game1 = Map.empty" "sessions_of game1 = Map.empty"
  "pm_store (gm_players game1) = mem_store" "gm_db game1 = (Map.empty, Map.empty)" "gm_heapNext game1 = 0"
  "gm_replyNext game1 = 0" "gm_replies game1 x = make_chan 1"
  by (simp_all add: game1_def acceptService_def Let_def NewGameServer_def NewPlayerManager_def)

lemma game1_reach: "reaches game1"
  unfolding game1_def by (intro game_reach.intros) simp

definition enter7 :: Message where
  "enter7 = \<lparr>msMsgID = MsgPlayerEnterGameReq, msEnv = game_msg MsgPlayerEnterGameReq 1 7, msReply = Some 0\<rparr>"

definition player7 :: Player where
  "player7 = NewPlayer 7 1 (NewProfile 7 '''') CreateModules"

lemma NewProfile_RoleID [simp]: "RoleID (NewProfile p a) = p"
  by (simp add: NewProfile_def)

lemma game2_state:
  "gm_heap game2 0 = player7\<lparr>p_inbox := \<lparr>ch_cap = 64, ch_buf = [enter7]\<rparr>\<rparr>"
  "gm_heapNext game2 = 1" "players_of game2 = [7 \<mapsto> 0]" "sessions_of game2 = [1 \<mapsto> 7]"
  "pm_store (gm_players game2) = mem_store" "gm_db game2 = (Map.empty, [7 \<mapsto> NewProfile 7 ''''])"
  "gm_conns game2 0 = (gm_conns game1 0)\<lparr>gc_loc := ConnWaiting 0 True\<rparr>" "gm_connNext game2 = 1"
  "gm_replyNext game2 = 1" "gm_replies game2 0 = make_chan 1"
proof -
  have "GetOrCreate 1 7 game1 = (Inr 0,
      snd (install_player 1 7 (NewProfile 7 '''') (game1\<lparr>gm_db := (Map.empty, [7 \<mapsto> NewProfile 7 ''''])\<rparr>)))"
    by (simp add: GetOrCreate_def create_player_def load_profile_def game1_state case_prod_beta)
  then have g: "game2 = dispatch_to 0 True (game_msg MsgPlayerEnterGameReq 1 7) 0
      (snd (install_player 1 7 (NewProfile 7 '''') (game1\<lparr>gm_db := (Map.empty, [7 \<mapsto> NewProfile 7 ''''])\<rparr>)))"
    by (simp add: game2_def handleConn_env_def resolvePlayer_def)
  show "gm_heap game2 0 = player7\<lparr>p_inbox := \<lparr>ch_cap = 64, ch_buf = [enter7]\<rparr>\<rparr>"
  "gm_heapNext game2 = 1" "players_of game2 = [7 \<mapsto> 0]" "sessions_of game2 = [1 \<mapsto> 7]"
  "pm_store (gm_players game2) = mem_store" "gm_db game2 = (Map.empty, [7 \<mapsto> NewProfile 7 ''''])"
  "gm_conns game2 0 = (gm_conns game1 0)\<lparr>gc_loc := ConnWaiting 0 True\<rparr>" "gm_connNext game2 = 1"
  "gm_replyNext game2 = 1" "gm_replies game2 0 = make_chan 1"
    by (simp_all add: g dispatch_to_cases Post_cases game1_state Let_def enter7_def player7_def make_chan_def)
qed

lemma game2_reach: "reaches game2"
  unfolding game2_def by (intro game_reach.step [OF game1_reach]) (simp add: game1_state)

text \<open>The goroutine takes the request and answers it.\<close>

lemma player7_simps [simp]:
  "p_loop player7 = LoopTest" "p_state player7 = PlayerStateActive" "p_modules player7 = ready_modules"
  "p_PlayerID player7 = 7" "p_SessionID player7 = 1" "p_Profile player7 = NewProfile 7 ''''"
  "p_inbox player7 = make_chan 64"
  by (simp_all add: player7_def)

definition answer7 :: dispatchResult where
  "answer7 = answer_of game_pb enter7 player7"

lemma game3_state:
  "gm_heap game3 0 = player7" "gm_heapNext game3 = 1" "gm_players game3 = gm_players game2"
  "gm_conns game3 = gm_conns game2" "gm_connNext game3 = 1" "gm_replyNext game3 = 1"
  "gm_replies game3 0 = \<lparr>ch_cap = 1, ch_buf = [answer7]\<rparr>" "gm_db game3 = gm_db game2"
proof -
  let ?p = "player7\<lparr>p_inbox := \<lparr>ch_cap = 64, ch_buf = [enter7]\<rparr>\<rparr>"
  have "loop_step game_pb ?p = (?p\<lparr>p_loop := LoopRecv\<rparr>, [])" by (simp add: loop_step_def)
  then have a: "game2' = upd_player 0 (\<lambda>p. p\<lparr>p_loop := LoopRecv\<rparr>) game2"
    by (simp add: game2'_def player_loop_def game2_state upd_player_def)
  have f: "p_loop (?p\<lparr>p_loop := LoopRecv\<rparr>) = LoopRecv"
    "try_recv (p_inbox (?p\<lparr>p_loop := LoopRecv\<rparr>)) = Some (enter7, make_chan 64)"
    by (simp_all add: try_recv_def make_chan_def)
  have "p_handle game_pb enter7 (?p\<lparr>p_loop := LoopRecv, p_inbox := make_chan 64\<rparr>) =
      (answer7, player7\<lparr>p_loop := LoopRecv\<rparr>)"
    using p_handle_ready [of "?p\<lparr>p_loop := LoopRecv, p_inbox := make_chan 64\<rparr>" game_pb enter7]
      answer_of_cong [of "?p\<lparr>p_loop := LoopRecv, p_inbox := make_chan 64\<rparr>" player7 game_pb enter7]
    by (simp add: answer7_def enter7_def)
  then have "loop_step game_pb (?p\<lparr>p_loop := LoopRecv\<rparr>) = (player7, [(0, answer7)])"
    using f by (simp add: loop_step_def enter7_def)
  then have g: "game3 = send_reply (0, answer7) (upd_player 0 (\<lambda>_. player7) game2)"
    by (simp add: game3_def a player_loop_def upd_player_def game2_state)
  show "gm_heap game3 0 = player7" "gm_heapNext game3 = 1" "gm_players game3 = gm_players game2"
    "gm_conns game3 = gm_conns game2" "gm_connNext game3 = 1" "gm_replyNext game3 = 1"
    "gm_replies game3 0 = \<lparr>ch_cap = 1, ch_buf = [answer7]\<rparr>" "gm_db game3 = gm_db game2"
    by (simp_all add: g send_reply_def try_send_def game2_state make_chan_def)
qed

lemma game3_reach: "reaches game3"
  unfolding game3_def game2'_def
  by (intro game_reach.step game2_reach) (simp_all add: player_loop_def game2_state loop_step_def)

lemma game4_state:
  "gm_heap game4 0 = player7" "gm_heapNext game4 = 1" "gm_players game4 = gm_players game2"
  "gc_loc (gm_conns game4 0) = ConnReading" "gm_connNext game4 = 1" "gm_db game4 = gm_db game2"
  by (simp_all add: game4_def handleConn_reply_def game3_state game2_state try_recv_def Let_def
      Dispatch_result_def answer7_def answer_of_def enter7_def)

lemma game4_reach: "reaches game4"
  unfolding game4_def by (intro game_reach.step [OF game3_reach]) simp

lemma game5_state:
  "gm_heap game5 0 = player7\<lparr>p_loop := LoopRecv, p_state := PlayerStateOffline\<rparr>" "gm_heapNext game5 = 1"
  "players_of game5 = [7 \<mapsto> 0]" "sessions_of game5 = Map.empty"
  "gc_loc (gm_conns game5 0) = ConnReading" "gm_connNext game5 = 1"
  "pm_store (gm_players game5) = mem_store" "gm_db game5 = gm_db game2"
proof -
  have a: "game_step game_pb 0 (PlayerStep 0) game4 = upd_player 0 (\<lambda>p. p\<lparr>p_loop := LoopRecv\<rparr>) game4"
    by (simp add: player_loop_def game4_state upd_player_def loop_step_def)
  show "gm_heap game5 0 = player7\<lparr>p_loop := LoopRecv, p_state := PlayerStateOffline\<rparr>" "gm_heapNext game5 = 1"
    "players_of game5 = [7 \<mapsto> 0]" "sessions_of game5 = Map.empty"
    "gc_loc (gm_conns game5 0) = ConnReading" "gm_connNext game5 = 1"
    "pm_store (gm_players game5) = mem_store" "gm_db game5 = gm_db game2"
    unfolding game5_def a
    by (simp_all add: handleConn_env_def resolvePlayer_def MarkOffline_def game4_state game2_state Let_def
        p_OnOffline_def)
qed

lemma game5_reach: "reaches game5"
  unfolding game5_def
  by (intro game_reach.step [OF game_reach.step [OF game4_reach]])
    (simp_all add: game4_state player_loop_def loop_step_def)

lemma game6_state:
  "gm_heap game6 0 = player7\<lparr>p_loop := LoopRecv, p_state := PlayerStateDestroyed\<rparr>" "gm_heapNext game6 = 1"
  "players_of game6 = Map.empty" "gm_connNext game6 = 1" "gc_loc (gm_conns game6 0) = ConnReading"
  by (simp_all add: game6_def DestroyPlayer_def Let_def game5_state p_Destroy_def)

lemma game6_reach: "reaches game6"
  unfolding game6_def by (intro game_reach.step [OF game5_reach]) simp

end
