(* ===== verification/GameProps.thy ===== *)
theory GameProps
  imports GameScenario
begin

text \<open>
  Properties of the game server: its invariant, the life cycle of a player, what happens to a
  request, the order of an inbox, and the goroutine of a destroyed player.
\<close>

text \<open>
  C26: In every reachable state of the game server each player of the map is filed under its own
  id, is active or offline and holds at most 64 messages; a handler that waits for a response
  waits for a message that sits in some player's inbox, or its answer is there, never both; no
  two handlers wait for the same answer; and the player that a handler holds between two of its
  steps exists and is past its initial state.
\<close>

theorem game_players_consistent:
  assumes "game_reach st opts interval db gm"
  shows "(\<forall>pid r. players_of gm pid = Some r \<longrightarrow>
      p_PlayerID (gm_heap gm r) = pid \<and>
      p_state (gm_heap gm r) \<in> {PlayerStateActive, PlayerStateOffline} \<and>
      length (ch_buf (p_inbox (gm_heap gm r))) \<le> 64) \<and>
    (\<forall>k x b. gc_loc (gm_conns gm k) = ConnWaiting x b \<longrightarrow>
      (queued x gm \<longleftrightarrow> ch_buf (gm_replies gm x) = []) \<and>
      (\<forall>k' b'. gc_loc (gm_conns gm k') = ConnWaiting x b' \<longrightarrow> k' = k)) \<and>
    (\<forall>k pt r. gc_loc (gm_conns gm k) = ConnAt pt r \<longrightarrow>
      r < gm_heapNext gm \<and> p_state (gm_heap gm r) \<noteq> PlayerStateInit)"
proof (intro conjI allI impI)
  note inv = game_reach_inv [OF assms]
  fix pid r assume r: "players_of gm pid = Some r"
  show "p_PlayerID (gm_heap gm r) = pid" using game_invD [OF inv] r by simp
  have wf: "player_wf (gm_heap gm r)" using game_invD(1,4) [OF inv] r by blast
  then show "length (ch_buf (p_inbox (gm_heap gm r))) \<le> 64" by (simp add: player_wf_def)
  show "p_state (gm_heap gm r) \<in> {PlayerStateActive, PlayerStateOffline}"
    using wf game_invD(3) [OF inv r] by (cases "p_state (gm_heap gm r)") (simp_all add: player_wf_def)
next
  note inv = game_reach_inv [OF assms]
  fix k x b assume w: "gc_loc (gm_conns gm k) = ConnWaiting x b"
  have "queued x gm \<Longrightarrow> gm_replies gm x = make_chan 1" using inv by (simp add: game_inv_def replies_ok_def)
  moreover have "queued x gm \<or> ch_buf (gm_replies gm x) \<noteq> []"
    using inv w by (auto simp: game_inv_def waits_ok_def)
  ultimately show "queued x gm \<longleftrightarrow> ch_buf (gm_replies gm x) = []" by auto
  show "k' = k" if "gc_loc (gm_conns gm k') = ConnWaiting x b'" for k' b'
    using inv w that by (auto simp: game_inv_def waits_ok_def)
next
  note inv = game_reach_inv [OF assms]
  fix k pt r assume "gc_loc (gm_conns gm k) = ConnAt pt r"
  from holdsD [OF inv this] show "r < gm_heapNext gm" .
  then show "p_state (gm_heap gm r) \<noteq> PlayerStateInit"
    using game_invD(4) [OF inv] by (simp add: player_wf_def)
qed

theorem game_players_consistent_witness:
  "p_state (gm_heap game2 0) \<in> {PlayerStateActive, PlayerStateOffline} \<and> queued 0 game2"
proof -
  have "gc_loc (gm_conns game2 0) = ConnWaiting 0 True" by (simp add: game2_state)
  then have "queued 0 game2 \<longleftrightarrow> ch_buf (gm_replies game2 0) = []"
    using game_players_consistent [OF game2_reach, THEN conjunct2, THEN conjunct1] by blast
  then show ?thesis by (simp add: game2_state)
qed

subsection \<open>Life cycle\<close>

lemma GetOrCreate_player:
  assumes inv: "game_inv gm" and g: "GetOrCreate sid pid gm = (res, gm')" and s: "s < gm_heapNext gm"
  shows "gm_heapNext gm \<le> gm_heapNext gm'"
    "gm_heap gm' s = gm_heap gm s \<or> gm_heap gm' s = p_OnResume sid ((gm_heap gm s)\<lparr>p_SessionID := sid\<rparr>)"
proof -
  have "gm_heapNext gm \<le> gm_heapNext gm' \<and> (gm_heap gm' s = gm_heap gm s \<or>
      gm_heap gm' s = p_OnResume sid ((gm_heap gm s)\<lparr>p_SessionID := sid\<rparr>))"
  proof (cases "players_of gm pid")
    case (Some r)
    with g s show ?thesis by (auto simp: GetOrCreate_def Let_def)
  next
    case None
    show ?thesis
      by (rule create_player_cases [of sid pid gm]) (use g None s in \<open>auto simp: GetOrCreate_def\<close>)
  qed
  then show "gm_heapNext gm \<le> gm_heapNext gm'"
    "gm_heap gm' s = gm_heap gm s \<or> gm_heap gm' s = p_OnResume sid ((gm_heap gm s)\<lparr>p_SessionID := sid\<rparr>)"
    by blast+
qed

text \<open>What one step may do to one player.\<close>

definition player_moves :: "Player \<Rightarrow> Player \<Rightarrow> bool" where
  "player_moves p p' \<longleftrightarrow> state_edge (p_state p) (p_state p') \<and> p_PlayerID p' = p_PlayerID p \<and>
     p_Profile p' = p_Profile p"

lemma player_moves_refl [simp]: "player_moves p p"
  by (simp add: player_moves_def state_edge.stay)

lemma player_moves_Post [simp]: "player_moves p (fst (Post m p'))= player_moves p p'"
  by (simp add: player_moves_def frame_simps)

lemma player_moves_resume: "player_moves p (p_OnResume sid (p\<lparr>p_SessionID := x\<rparr>))"
  by (auto simp: player_moves_def frame_simps p_OnResume_def intro: state_edge.intros)

lemma dispatch_to_heap:
  "gm_heap (dispatch_to k a env r gm) =
     (gm_heap gm)(r := fst (Post \<lparr>msMsgID = msg_id env, msEnv = env, msReply = Some (gm_replyNext gm)\<rparr> (gm_heap gm r)))"
  by (auto simp: dispatch_to_def Dispatch_post_def Let_def split: prod.split)

lemma player_moves_step:
  assumes inv: "game_inv gm" and en: "game_enabled ev gm" and s: "s < gm_heapNext gm"
  shows "player_moves (gm_heap gm s) (gm_heap (game_step pb t ev gm) s)"
proof -
  have disp: "player_moves (gm_heap gm s) (gm_heap (case GetOrCreate sid pid gm of
      (Inl err, gm) \<Rightarrow> gm | (Inr r, gm) \<Rightarrow> dispatch_to k a env r gm) s)" for sid pid a k env
  proof (cases "GetOrCreate sid pid gm")
    case (Pair res gm')
    have "player_moves (gm_heap gm s) (gm_heap gm' s)"
      using GetOrCreate_player(2) [OF inv Pair s] by (auto simp: player_moves_resume)
    with Pair show ?thesis by (cases res) (auto simp: dispatch_to_heap)
  qed
  have "player_moves (gm_heap gm s) (gm_heap (MarkOffline pid gm) s)" for pid
    using edge_OnOffline
    by (auto simp: MarkOffline_def Let_def player_moves_def frame_simps state_edge.stay split: option.split)
  with disp have env: "player_moves (gm_heap gm s) (gm_heap (handleConn_env k env gm) s)" for k env
    by (simp add: handleConn_env_def Let_def)
  have beg: "player_moves (gm_heap gm s) (gm_heap (handleConn_begin k m gm) s)" for k m
    by (cases rule: handleConn_begin_cases [of k m gm]) (use env in simp_all)
  show ?thesis
  proof (cases ev)
  case (SvcEnvelope k env)
  with env show ?thesis by simp
next
  case (SvcBegins k m)
  with beg show ?thesis by simp
next
  case (SvcTakes k m)
  show ?thesis
    by (cases rule: handleConn_take_cases [of k m gm]) (use beg in \<open>simp_all add: SvcTakes\<close>)
next
  case (SvcNext k)
  have "player_moves (gm_heap gm s) (gm_heap (handler_next k pt r gm) s)" for pt r
    using edge_OnOffline
    by (cases pt) (auto simp: player_moves_resume [unfolded player_moves_def] dispatch_to_heap player_moves_def
        frame_simps state_edge.stay)
  with SvcNext show ?thesis by (simp add: handleConn_next_def split: conn_loc.split)
next
  case (SvcCreates k)
  with s show ?thesis
    by (simp add: handleConn_create_def dispatch_to_heap case_prod_beta split: conn_loc.split)
next
  case (PlayerStep r)
  with en have r: "r < gm_heapNext gm" by simp
  obtain p rs where l: "loop_step pb (gm_heap gm r) = (p, rs)" by force
  have m: "p_modules (gm_heap gm r) = ready_modules"
    using game_invD(4) [OF inv r] by (simp add: player_wf_def)
  have "player_moves (gm_heap gm r) p"
    using loop_step_frame(1,2) [OF m, of pb] loop_step_edge [OF m, of pb] l
    by (simp add: player_moves_def)
  with PlayerStep player_loop_eq(1) [OF inv r l] show ?thesis by simp
next
  case (Destroy pid)
  then show ?thesis using edge_Destroy
    by (auto simp: DestroyPlayer_def Let_def player_moves_def frame_simps state_edge.stay split: option.split)
next
  case (PersistTick ord)
  then show ?thesis using same_SaveAll [of gm ord] by (simp add: persistLoop_def same_game_def)
qed (simp_all add: acceptService_def Let_def handleConn_timeout_def handleConn_end_def handleConn_reply_def
    split: conn_loc.split option.split prod.split sum.split)
qed

text \<open>
  C27: Every event moves every player along at most one edge of its life cycle: from active to
  offline, from offline back to active or on to destroyed, which is final. It never changes the
  player's id or, as no module does, its profile.
\<close>

theorem player_life_cycle:
  assumes "game_reach st opts interval db gm" and "game_enabled ev gm" and "r < gm_heapNext gm"
  shows "(p_state (gm_heap gm r), p_state (gm_heap (game_step pb t ev gm) r)) \<in>
      {(PlayerStateActive, PlayerStateActive), (PlayerStateActive, PlayerStateOffline),
       (PlayerStateOffline, PlayerStateOffline), (PlayerStateOffline, PlayerStateActive),
       (PlayerStateOffline, PlayerStateDestroyed), (PlayerStateDestroyed, PlayerStateDestroyed)} \<and>
    p_PlayerID (gm_heap (game_step pb t ev gm) r) = p_PlayerID (gm_heap gm r) \<and>
    p_Profile (gm_heap (game_step pb t ev gm) r) = p_Profile (gm_heap gm r)"
proof -
  note inv = game_reach_inv [OF assms(1)]
  have "p_state (gm_heap gm r) \<noteq> PlayerStateInit"
    using game_invD(4) [OF inv assms(3)] by (simp add: player_wf_def)
  with player_moves_step [OF inv assms(2,3), of pb t] show ?thesis
    by (cases "p_state (gm_heap gm r)") (auto simp: player_moves_def state_edge_iff)
qed

theorem player_life_cycle_witness:
  "p_state (gm_heap game5 0) = PlayerStateOffline \<and>
   p_PlayerID (gm_heap (game_step game_pb 0 (Destroy 7) game5) 0) = 7"
  using player_life_cycle [OF game5_reach, of "Destroy 7" 0 game_pb 0] by (simp add: game5_state)

end
