(* ===== verification/GameRequests.thy ===== *)
theory GameRequests
  imports GameProps
begin

text \<open>
  What becomes of a request to the game server: the whole exchange between handler and player,
  the order of an inbox, and where sessions and players are confused.
\<close>

lemma GetOrCreate_active:
  assumes inv: "game_inv gm" and g: "GetOrCreate sid pid gm = (Inr r, gm')"
  shows "p_state (gm_heap gm' r) = PlayerStateActive" "p_modules (gm_heap gm' r) = ready_modules"
    "ch_cap (p_inbox (gm_heap gm' r)) = 64"
proof -
  note * = game_inv_GetOrCreate [OF inv g]
  have p: "players_of gm' pid = Some r" by (rule *(2)) simp
  have wf: "player_wf (gm_heap gm' r)" using game_invD(1,4) [OF *(1)] p by blast
  then show "p_modules (gm_heap gm' r) = ready_modules" "ch_cap (p_inbox (gm_heap gm' r)) = 64"
    by (simp_all add: player_wf_def)
  show "p_state (gm_heap gm' r) = PlayerStateActive"
  proof (cases "players_of gm pid")
    case (Some s)
    then have s: "s = r" using g by (simp add: GetOrCreate_def Let_def)
    have "p_state (gm_heap gm r) \<noteq> PlayerStateDestroyed" using game_invD(3) [OF inv] Some s by simp
    moreover have "p_state (gm_heap gm r) \<noteq> PlayerStateInit"
      using game_invD(1,4) [OF inv] Some s by (auto simp: player_wf_def)
    ultimately show ?thesis using g Some s
      by (cases "p_state (gm_heap gm r)") (auto simp: GetOrCreate_def Let_def p_OnResume_def)
  next
    case None
    show ?thesis
      by (rule create_player_cases [of sid pid gm]) (use g None in \<open>auto simp: GetOrCreate_def\<close>)
  qed
qed

text \<open>Two steps of an idle player's goroutine answer one message.\<close>

lemma loop_twice:
  assumes h: "gm_heap g r = q\<lparr>p_inbox := (p_inbox q)\<lparr>ch_buf := [msg]\<rparr>\<rparr>"
    and q: "p_modules q = ready_modules" "p_state q = PlayerStateActive" "p_loop q \<noteq> LoopExited"
      "ch_buf (p_inbox q) = []"
    and m: "msReply msg = Some x" "msMsgID msg \<noteq> MsgPlayerResumeReq" "gm_replies g x = make_chan 1"
  shows "player_loop pb r (player_loop pb r g) =
    g\<lparr>gm_heap := (gm_heap g)(r := q),
      gm_replies := (gm_replies g)(x := \<lparr>ch_cap = 1, ch_buf = [answer_of pb msg q]\<rparr>)\<rparr>"
proof -
  have s: "send_reply (x, res) g' = g'\<lparr>gm_replies := (gm_replies g')(x := \<lparr>ch_cap = 1, ch_buf = [res]\<rparr>)\<rparr>"
    if "gm_replies g' x = make_chan 1" for res and g' :: "'a game"
    using that by (simp add: send_reply_def try_send_def make_chan_def)
  have test: "loop_step pb p = (p\<lparr>p_loop := LoopRecv\<rparr>, [])"
    if "p_loop p = LoopTest" "p_state p = PlayerStateActive" for p
    using that by (simp add: loop_step_def)
  have take: "loop_step pb (q\<lparr>p_inbox := (p_inbox q)\<lparr>ch_buf := [msg]\<rparr>, p_loop := LoopRecv\<rparr>) =
      (q\<lparr>p_loop := LoopTest\<rparr>, [(x, answer_of pb msg q)])"
  proof -
    have "answer_of pb msg (q\<lparr>p_loop := LoopRecv\<rparr>) = answer_of pb msg q"
      by (rule answer_of_cong) simp
    then show ?thesis using q m by (simp add: loop_step_def try_recv_def p_handle_ready)
  qed
  show ?thesis
  proof (cases "p_loop q")
    case LoopTest
    then have e: "q\<lparr>p_loop := LoopTest\<rparr> = q" by simp
    have "player_loop pb r g = upd_player r (\<lambda>_. q\<lparr>p_inbox := (p_inbox q)\<lparr>ch_buf := [msg]\<rparr>, p_loop := LoopRecv\<rparr>) g"
      using test [of "gm_heap g r"] LoopTest q h by (simp add: player_loop_def upd_player_def)
    then show ?thesis using take e m(3) by (simp add: player_loop_def s upd_player_def)
  next
    case LoopRecv
    then have e: "q\<lparr>p_inbox := (p_inbox q)\<lparr>ch_buf := [msg]\<rparr>, p_loop := LoopRecv\<rparr> =
        q\<lparr>p_inbox := (p_inbox q)\<lparr>ch_buf := [msg]\<rparr>\<rparr>"
      and e': "q\<lparr>p_loop := LoopRecv\<rparr> = q" by simp_all
    have one: "player_loop pb r g = (upd_player r (\<lambda>_. q\<lparr>p_loop := LoopTest\<rparr>) g)
        \<lparr>gm_replies := (gm_replies g)(x := \<lparr>ch_cap = 1, ch_buf = [answer_of pb msg q]\<rparr>)\<rparr>"
      using take [unfolded e] h m(3) by (simp add: player_loop_def s upd_player_def)
    show ?thesis using test [of "q\<lparr>p_loop := LoopTest\<rparr>"] q e'
      unfolding one by (simp add: player_loop_def upd_player_def)
  next
    case LoopExited
    with q show ?thesis by simp
  qed
qed

definition exchange :: "pb \<Rightarrow> time \<Rightarrow> nat \<Rightarrow> nat \<Rightarrow> Envelope \<Rightarrow> 'd game \<Rightarrow> 'd game" where
  "exchange pb t k r env gm =
     game_step pb t (SvcReply k) (game_step pb t (PlayerStep r) (game_step pb t (PlayerStep r)
       (game_step pb t (SvcEnvelope k env) gm)))"

text \<open>The response to a request, if it has one.\<close>

definition response_to :: "pb \<Rightarrow> Envelope \<Rightarrow> Player \<Rightarrow> Envelope option" where
  "response_to pb env p =
     (if msg_id env = MsgPlayerEnterGameReq then
        Some \<lparr>eMsgId = to_int32 MsgPlayerEnterGameRsp, eSessionId = eSessionId env, ePlayerId = ePlayerId env,
              ePayload = or_nil (marshalPlayerInitRsp pb (ToPlayerData p))\<rparr>
      else if msg_id env = MsgLoadPlayerDataReq then
        Some \<lparr>eMsgId = to_int32 MsgLoadPlayerDataRsp, eSessionId = eSessionId env, ePlayerId = ePlayerId env,
              ePayload = or_nil (marshalLoadPlayerDataRsp pb (ToPlayerData p))\<rparr>
      else None)"

lemma dispatch_answer:
  "msMsgID msg = msg_id env \<Longrightarrow> msEnv msg = env \<Longrightarrow> msg_id env \<noteq> MsgPlayerResumeReq \<Longrightarrow>
     Dispatch_result (answer_of pb msg p) =
       (case response_to pb env p of None \<Rightarrow> Inl ErrUnknownMessage | Some rsp \<Rightarrow> Inr (Some rsp))"
  by (simp add: answer_of_def response_to_def Dispatch_result_def player_rsp_def)

text \<open>The exchange, with an idle player.\<close>

lemma exchange_answers:
  assumes "game_reach st opts interval db gm"
    and "k < gm_connNext gm" and "gc_loc (gm_conns gm k) = ConnReading"
    and "msg_id env \<noteq> MsgPlayerOfflineNotify" and "msg_id env \<noteq> MsgPlayerResumeReq"
    and "GetOrCreate (eSessionId env) (resolvePlayer env gm) gm = (Inr r, gm1)"
    and "ch_buf (p_inbox (gm_heap gm1 r)) = []" and "p_loop (gm_heap gm1 r) \<noteq> LoopExited"
  shows "gc_conn (gm_conns (exchange pb t k r env gm) k) =
      (case response_to pb env (gm_heap gm1 r) of
         None \<Rightarrow> gc_conn (gm_conns gm k)
       | Some rsp \<Rightarrow> fst (bc_WriteEnvelope pb t rsp (gc_conn (gm_conns gm k)))) \<and>
    gc_loc (gm_conns (exchange pb t k r env gm) k) = ConnReading \<and>
    gm_heap (exchange pb t k r env gm) r = gm_heap gm1 r \<and>
    p_state (gm_heap gm1 r) = PlayerStateActive"
proof -
  note inv = game_reach_inv [OF assms(1)]
  note get = game_inv_GetOrCreate [OF inv assms(6)] and act = GetOrCreate_active [OF inv assms(6)]
  let ?x = "gm_replyNext gm1" and ?q = "gm_heap gm1 r"
  let ?msg = "\<lparr>msMsgID = msg_id env, msEnv = env, msReply = Some ?x\<rparr>"
  define g where "g = set_loc k (ConnWaiting ?x True) (upd_player r
      (\<lambda>_. ?q\<lparr>p_inbox := (p_inbox ?q)\<lparr>ch_buf := [?msg]\<rparr>\<rparr>)
      (gm1\<lparr>gm_replies := (gm_replies gm1)(?x := make_chan 1), gm_replyNext := Suc ?x\<rparr>))"
  have post: "game_step pb t (SvcEnvelope k env) gm = g"
    using assms(4-7) act by (simp add: handleConn_env_def dispatch_to_cases Post_cases Let_def g_def)
  have two: "player_loop pb r (player_loop pb r g) =
      g\<lparr>gm_heap := (gm_heap g)(r := ?q),
        gm_replies := (gm_replies g)(?x := \<lparr>ch_cap = 1, ch_buf = [answer_of pb ?msg ?q]\<rparr>)\<rparr>"
    by (rule loop_twice) (use assms(5,7,8) act in \<open>simp_all add: g_def\<close>)
  have "exchange pb t k r env gm = handleConn_reply pb t k (player_loop pb r (player_loop pb r g))"
    unfolding exchange_def post by simp
  then have "exchange pb t k r env gm = handleConn_reply pb t k
      (g\<lparr>gm_heap := (gm_heap g)(r := ?q),
        gm_replies := (gm_replies g)(?x := \<lparr>ch_cap = 1, ch_buf = [answer_of pb ?msg ?q]\<rparr>)\<rparr>)"
    unfolding two .
  moreover have "Dispatch_result (answer_of pb ?msg ?q) =
      (case response_to pb env ?q of None \<Rightarrow> Inl ErrUnknownMessage | Some rsp \<Rightarrow> Inr (Some rsp))"
    by (rule dispatch_answer) (use assms(5) in simp_all)
  moreover have "gm_conns gm1 = gm_conns gm" by (rule get(3))
  ultimately show ?thesis using act(1)
    by (cases "response_to pb env ?q")
      (simp_all add: handleConn_reply_def g_def try_recv_def Let_def)
qed

text \<open>
  C28: A request is answered. When a service connection that is reading receives a game message
  and the player it is for is idle, then the handler, two steps of the player's goroutine and
  the handler again complete the exchange: the response to entering the game and to loading the
  player's data is written back with the session and player of the request and the player's
  data, any other message is answered with nothing, the handler reads again and the player is
  active and as idle as before.
\<close>

theorem request_answered:
  assumes "game_reach st opts interval db gm"
    and "k < gm_connNext gm" and "gc_loc (gm_conns gm k) = ConnReading"
    and "msg_id env \<noteq> MsgPlayerOfflineNotify" and "msg_id env \<noteq> MsgPlayerResumeReq"
    and "GetOrCreate (eSessionId env) (resolvePlayer env gm) gm = (Inr r, gm1)"
    and "ch_buf (p_inbox (gm_heap gm1 r)) = []" and "p_loop (gm_heap gm1 r) \<noteq> LoopExited"
  shows "gc_conn (gm_conns (exchange pb t k r env gm) k) =
      (case response_to pb env (gm_heap gm1 r) of
         None \<Rightarrow> gc_conn (gm_conns gm k)
       | Some rsp \<Rightarrow> fst (bc_WriteEnvelope pb t rsp (gc_conn (gm_conns gm k)))) \<and>
    gc_loc (gm_conns (exchange pb t k r env gm) k) = ConnReading \<and>
    gm_heap (exchange pb t k r env gm) r = gm_heap gm1 r \<and>
    p_state (gm_heap gm1 r) = PlayerStateActive"
  using assms by (rule exchange_answers)

lemma game1_get: "GetOrCreate 1 7 game1 = (Inr 0,
    snd (install_player 1 7 (NewProfile 7 '''') (game1\<lparr>gm_db := (Map.empty, [7 \<mapsto> NewProfile 7 ''''])\<rparr>)))"
  by (simp add: GetOrCreate_def create_player_def load_profile_def game1_state case_prod_beta)

theorem request_answered_witness:
  "ws_out (bw_conn (bc_writer (gc_conn (gm_conns
     (exchange game_pb 0 0 0 (game_msg MsgPlayerEnterGameReq 1 7) game1) 0)))) = [0, 0, 0, 1, 5]"
proof -
  let ?env = "game_msg MsgPlayerEnterGameReq 1 7"
  have r: "resolvePlayer ?env game1 = 7" by (simp add: resolvePlayer_def)
  have g: "GetOrCreate (eSessionId ?env) (resolvePlayer ?env game1) game1 = (Inr 0,
    snd (install_player 1 7 (NewProfile 7 '''') (game1\<lparr>gm_db := (Map.empty, [7 \<mapsto> NewProfile 7 ''''])\<rparr>)))"
    using game1_get r by simp
  show ?thesis
    using request_answered [OF game1_reach _ _ _ _ g, of 0 game_pb 0]
    by (simp add: game1_state response_to_def idle_in_def idle_out_def demo_opts_def
        NewBufferedConnWithOptions_def bc_WriteEnvelope_def bw_writeEnvelope_def game_pb_def
        bufio_Write.simps bufio_Flush_def stream_Write_def put_uint32_def defaultBufferSize_def)
qed

subsection \<open>The order of an inbox\<close>

text \<open>
  A run of posts and steps of the goroutine: the messages accepted, those it took out of the
  inbox, the replies it sent, and the player left.
\<close>

fun player_run :: "pb \<Rightarrow> Message chan_op list \<Rightarrow> Player \<Rightarrow> Message list \<times> Message list \<times> replies \<times> Player" where
  "player_run pb [] p = ([], [], [], p)"
| "player_run pb (OpSend msg # ops) p =
     (case Post msg p of
        (p', err) \<Rightarrow>
          (let (acc, out, rs, r) = player_run pb ops p'
           in (if err = None then msg # acc else acc, out, rs, r)))"
| "player_run pb (OpRecv # ops) p =
     (let (p', rs1) = loop_step pb p;
          n = length (ch_buf (p_inbox p)) - length (ch_buf (p_inbox p'));
          (acc, out, rs, r) = player_run pb ops p'
      in (acc, take n (ch_buf (p_inbox p)) @ out, rs1 @ rs, r))"

lemma loop_step_takes:
  assumes "p_modules p = ready_modules" and "loop_step pb p = (p', rs)"
  shows "\<exists>n. ch_buf (p_inbox p') = drop n (ch_buf (p_inbox p)) \<and>
      length (ch_buf (p_inbox p)) - length (ch_buf (p_inbox p')) = min n (length (ch_buf (p_inbox p))) \<and>
      map fst rs = List.map_filter msReply (take n (ch_buf (p_inbox p)))"
  using assms(1)
proof (cases rule: loop_step_cases [of p pb])
  case drain
  with assms(2) show ?thesis
    by (intro exI [of _ "length (ch_buf (p_inbox p))"]) (auto simp: drain_replies_refs)
next
  case (take msg ms)
  with assms(2) show ?thesis
    by (intro exI [of _ 1])
      (auto simp: List.map_filter_simps frame_simps split: option.splits if_splits)
qed (use assms(2) in \<open>auto simp: List.map_filter_simps intro!: exI [of _ 0]\<close>)

lemma map_filter_append: "List.map_filter f (xs @ ys) = List.map_filter f xs @ List.map_filter f ys"
  by (simp add: List.map_filter_def)

text \<open>
  C29: A player handles its messages in the order in which they were accepted and loses none:
  in any interleaving of posts and steps of the goroutine, what was in the inbox followed by
  what was accepted is what was taken out followed by what is still there; and every message
  taken out that asks for a reply is sent exactly one, in the same order, also when the player
  has been destroyed.
\<close>

theorem player_handles_in_order:
  assumes "p_modules p = [BaseModule True, ResumeModule True]"
    and "player_run pb ops p = (acc, out, rs, p')"
  shows "ch_buf (p_inbox p) @ acc = out @ ch_buf (p_inbox p') \<and>
    map fst rs = List.map_filter msReply out"
  using assms
proof (induction pb ops p arbitrary: acc out rs p' rule: player_run.induct)
  case (2 pb msg ops p)
  obtain q err where q: "Post msg p = (q, err)" by force
  obtain acc1 out1 rs1 r where r: "player_run pb ops q = (acc1, out1, rs1, r)" by (cases "player_run pb ops q") auto
  have m: "p_modules q = [BaseModule True, ResumeModule True]"
    using Post_state(5) [of msg p] q "2.prems"(1) by simp
  from "2.IH" [OF q [symmetric] m r] "2.prems"(2) q r show ?case
    by (auto simp: Post_cases split: if_splits)
next
  case (3 pb ops p)
  obtain q rs1 where q: "loop_step pb p = (q, rs1)" by force
  obtain acc1 out1 rs2 r where r: "player_run pb ops q = (acc1, out1, rs2, r)" by (cases "player_run pb ops q") auto
  have ready: "p_modules p = ready_modules" using "3.prems"(1) by (simp add: ready_modules_def)
  have m: "p_modules q = [BaseModule True, ResumeModule True]"
    using loop_step_frame(3) [OF ready, of pb] q by (simp add: ready_modules_def)
  obtain n where n: "ch_buf (p_inbox q) = drop n (ch_buf (p_inbox p))"
      "length (ch_buf (p_inbox p)) - length (ch_buf (p_inbox q)) = min n (length (ch_buf (p_inbox p)))"
      "map fst rs1 = List.map_filter msReply (take n (ch_buf (p_inbox p)))"
    using loop_step_takes [OF ready q] by blast
  have t: "take (min n (length (ch_buf (p_inbox p)))) (ch_buf (p_inbox p)) = take n (ch_buf (p_inbox p))"
    by (simp add: min_def)
  have out: "acc = acc1" "out = take n (ch_buf (p_inbox p)) @ out1" "rs = rs1 @ rs2" "p' = r"
    using "3.prems"(2) q r n(2) t by (simp_all add: Let_def)
  have ih: "ch_buf (p_inbox q) @ acc1 = out1 @ ch_buf (p_inbox r)" "map fst rs2 = List.map_filter msReply out1"
    using "3.IH" [OF q [symmetric] refl refl m r] out(4) by (simp_all add: out)
  have "ch_buf (p_inbox p) @ acc1 = take n (ch_buf (p_inbox p)) @ (ch_buf (p_inbox q) @ acc1)"
    using n(1) by (metis append.assoc append_take_drop_id)
  with ih n(3) out show ?case by (simp add: map_filter_append)
qed (simp add: List.map_filter_simps)

theorem player_handles_in_order_witness:
  "\<exists>acc out rs p'. player_run game_pb [OpSend enter7, OpRecv, OpRecv] player7 = (acc, out, rs, p') \<and>
     acc = [enter7] \<and> out @ ch_buf (p_inbox p') = [enter7] \<and> map fst rs = List.map_filter msReply out"
proof -
  obtain acc out rs p' where r: "player_run game_pb [OpSend enter7, OpRecv, OpRecv] player7 = (acc, out, rs, p')"
    by (cases "player_run game_pb [OpSend enter7, OpRecv, OpRecv] player7") auto
  then have "acc = [enter7]"
    by (auto simp: Post_cases make_chan_def Let_def split: prod.splits)
  moreover have "ch_buf (p_inbox player7) @ acc = out @ ch_buf (p_inbox p') \<and>
      map fst rs = List.map_filter msReply out"
    by (rule player_handles_in_order [OF _ r]) (simp add: ready_modules_def)
  ultimately show ?thesis using r by auto
qed

end
