(* ===== verification/GameSessions.thy ===== *)
theory GameSessions
  imports GameRequests
begin

text \<open>
  Sessions and players of the game server: the goroutine of a destroyed player, notices of
  offline sessions, sessions without a player, and what of a player survives a restart.
\<close>

fun game_run :: "(pb \<times> time \<times> game_event) list \<Rightarrow> 'd game \<Rightarrow> 'd game" where
  "game_run [] gm = gm"
| "game_run ((pb, t, ev) # tr) gm = game_run tr (game_step pb t ev gm)"

fun game_run_ok :: "(pb \<times> time \<times> game_event) list \<Rightarrow> 'd game \<Rightarrow> bool" where
  "game_run_ok [] gm = True"
| "game_run_ok ((pb, t, ev) # tr) gm = (game_enabled ev gm \<and> game_run_ok tr (game_step pb t ev gm))"

subsection \<open>The goroutine of a destroyed player\<close>

definition blocked :: "Player \<Rightarrow> bool" where
  "blocked p \<longleftrightarrow> p_state p = PlayerStateDestroyed \<and> p_loop p = LoopRecv \<and> ch_buf (p_inbox p) = []"

lemma blocked_ops [simp]:
  "blocked p \<Longrightarrow> blocked (p_OnResume sid (p\<lparr>p_SessionID := x\<rparr>))" "blocked p \<Longrightarrow> blocked (p_OnOffline p)"
  "blocked p \<Longrightarrow> blocked (p_Destroy p)" "blocked p \<Longrightarrow> blocked (fst (Post msg p))"
  "blocked p \<Longrightarrow> loop_step pb p = (p, [])"
  by (simp_all add: blocked_def p_OnResume_def p_OnOffline_def p_Destroy_def Post_def loop_step_def try_recv_def)

lemma send_replies_heap [simp]: "gm_heap (fold send_reply rs gm) = gm_heap gm"
  by (induction rs arbitrary: gm) (auto simp: send_reply_def split: option.split)

lemma blocked_step:
  assumes inv: "game_inv gm" and b: "blocked (gm_heap gm r)" and r: "r < gm_heapNext gm"
    and en: "game_enabled ev gm"
  shows "blocked (gm_heap (game_step pb t ev gm) r)" "gm_heapNext gm \<le> gm_heapNext (game_step pb t ev gm)"
proof -
  have disp: "blocked (gm_heap g' r) \<and> gm_heapNext gm \<le> gm_heapNext g'"
    if "g' = (case GetOrCreate sid pid gm of (Inl err, g) \<Rightarrow> g | (Inr s, g) \<Rightarrow> dispatch_to k a env s g)"
    for g' sid pid k a env
  proof (cases "GetOrCreate sid pid gm")
    case (Pair res g)
    note * = GetOrCreate_player [OF inv Pair r]
    have "blocked (gm_heap g r)" using *(2) b by auto
    moreover have "gm_heapNext (dispatch_to k a env s g) = gm_heapNext g" for s
      by (simp add: dispatch_to_cases Let_def split: prod.split)
    ultimately show ?thesis using Pair *(1) that by (cases res) (auto simp: dispatch_to_heap)
  qed
  have "blocked (gm_heap (MarkOffline pid gm) r)" "gm_heapNext (MarkOffline pid gm) = gm_heapNext gm" for pid
    using b by (auto simp: MarkOffline_def Let_def split: option.split)
  with disp b have whole: "blocked (gm_heap (handleConn_env k m gm) r) \<and>
      gm_heapNext gm \<le> gm_heapNext (handleConn_env k m gm)" for k m
    by (simp add: handleConn_env_def Let_def)
  have beg: "blocked (gm_heap (handleConn_begin k m gm) r) \<and>
      gm_heapNext gm \<le> gm_heapNext (handleConn_begin k m gm)" for k m
    by (cases rule: handleConn_begin_cases [of k m gm]) (use whole b in simp_all)
  have "blocked (gm_heap (game_step pb t ev gm) r) \<and> gm_heapNext gm \<le> gm_heapNext (game_step pb t ev gm)"
  proof (cases ev)
    case (SvcEnvelope k env)
    with whole show ?thesis by simp
  next
    case (SvcBegins k m)
    with beg show ?thesis by simp
  next
    case (SvcTakes k m)
    show ?thesis
      by (cases rule: handleConn_take_cases [of k m gm]) (use beg b in \<open>simp_all add: SvcTakes\<close>)
  next
    case (SvcNext k)
    have "gm_heapNext (dispatch_to k a env s g) = gm_heapNext g" for a env s and g :: "'a game"
      by (simp add: dispatch_to_cases Let_def split: prod.split)
    with b have "blocked (gm_heap (handler_next k pt s gm) r) \<and> gm_heapNext gm \<le> gm_heapNext (handler_next k pt s gm)"
      for pt s
      by (cases pt) (auto simp: dispatch_to_heap)
    with b SvcNext show ?thesis by (simp add: handleConn_next_def split: conn_loc.split)
  next
    case (SvcCreates k)
    with b r show ?thesis
      by (auto simp: handleConn_create_def dispatch_to_heap dispatch_to_cases case_prod_beta Let_def
          split: conn_loc.split)
  next
    case (PlayerStep s)
    obtain p rs where l: "loop_step pb (gm_heap gm s) = (p, rs)" by force
    have "gm_heapNext (fold send_reply rs g) = gm_heapNext g" for rs and g :: "'a game"
      by (induction rs arbitrary: g) (auto simp: send_reply_def split: option.split)
    with PlayerStep l b show ?thesis by (auto simp: player_loop_def)
  next
    case (PersistTick ord)
    then show ?thesis using b same_SaveAll [of gm ord] by (simp add: persistLoop_def same_game_def)
  next
    case (Destroy pid)
    with b show ?thesis by (auto simp: DestroyPlayer_def Let_def split: option.split)
  qed (use b in \<open>simp_all add: acceptService_def Let_def handleConn_timeout_def handleConn_end_def
      handleConn_reply_def split: conn_loc.split option.split prod.split sum.split\<close>)
  then show "blocked (gm_heap (game_step pb t ev gm) r)"
    "gm_heapNext gm \<le> gm_heapNext (game_step pb t ev gm)" by blast+
qed

text \<open>
  The goroutine of a destroyed player can stay forever. A player that is destroyed while its
  goroutine waits at an empty inbox is never woken: whatever happens afterwards, the goroutine is
  still waiting there, for a destroyed player accepts no message.
\<close>

lemma destroyed_player_goroutine_stays:
  fixes gm :: "'d game"
  assumes "game_reach st opts interval db gm" and "r < gm_heapNext gm"
    and "p_state (gm_heap gm r) = PlayerStateDestroyed" and "p_loop (gm_heap gm r) = LoopRecv"
    and "ch_buf (p_inbox (gm_heap gm r)) = []" and "game_run_ok tr gm"
  shows "p_loop (gm_heap (game_run tr gm) r) = LoopRecv"
proof -
  have "game_inv g \<Longrightarrow> blocked (gm_heap g r) \<Longrightarrow> r < gm_heapNext g \<Longrightarrow> game_run_ok tr g \<Longrightarrow>
      blocked (gm_heap (game_run tr g) r)" for g :: "'d game"
  proof (induction tr g rule: game_run.induct)
    case (2 pb t ev tr g)
    have en: "game_enabled ev g" using 2 by simp
    note s = blocked_step [OF "2.prems"(1,2,3) en, of pb t]
    show ?case using "2.IH" [OF game_inv_step [OF "2.prems"(1) en] s(1)] s(2) "2.prems"(3,4) by simp
  qed simp
  moreover have "blocked (gm_heap gm r)" using assms(3-5) by (simp add: blocked_def)
  ultimately show ?thesis using game_reach_inv [OF assms(1)] assms(2,6) by (simp add: blocked_def)
qed

lemma destroyed_player_goroutine_stays_witness:
  "p_loop (gm_heap (game_run [(game_pb, 0, PlayerStep 0), (game_pb, 0, PlayerStep 0)] game6) 0) = LoopRecv"
proof -
  have "loop_step game_pb (gm_heap game6 0) = (gm_heap game6 0, [])"
    by (simp add: game6_state loop_step_def try_recv_def make_chan_def)
  then have "game_run_ok [(game_pb, 0, PlayerStep 0), (game_pb, 0, PlayerStep 0)] game6"
    by (simp add: game6_state(2) player_loop_def)
  then show ?thesis
    by (intro destroyed_player_goroutine_stays [OF game6_reach]) (simp_all add: game6_state)
qed

subsection \<open>Sessions and players\<close>

text \<open>
  A notice that a session went offline is applied to the player, not the session. Whatever
  session it names, an active player goes offline and the mapping of the session the player now
  uses is removed; so the notice about a replaced session takes the player's new session offline.
\<close>

lemma offline_notice_hits_current_session:
  assumes "game_reach st opts interval db gm" and "msg_id env = MsgPlayerOfflineNotify"
    and "ePlayerId env \<noteq> 0" and "players_of gm (ePlayerId env) = Some r"
    and "p_SessionID (gm_heap gm r) \<noteq> eSessionId env"
  shows "p_state (gm_heap (handleConn_env k env gm) r) = PlayerStateOffline \<and>
    sessions_of (handleConn_env k env gm) = (sessions_of gm)(p_SessionID (gm_heap gm r) := None)"
proof -
  note inv = game_reach_inv [OF assms(1)]
  have "p_state (gm_heap gm r) \<noteq> PlayerStateDestroyed" "p_state (gm_heap gm r) \<noteq> PlayerStateInit"
    using game_invD(3) [OF inv assms(4)] game_invD(1,4) [OF inv] assms(4) by (auto simp: player_wf_def)
  then have "p_state (p_OnOffline (gm_heap gm r)) = PlayerStateOffline"
    by (cases "p_state (gm_heap gm r)") (simp_all add: p_OnOffline_def)
  with assms(2-4) show ?thesis
    by (simp add: handleConn_env_def resolvePlayer_def MarkOffline_def Let_def frame_simps)
qed

lemma offline_notice_hits_current_session_witness:
  "p_state (gm_heap (handleConn_env 0 (game_msg MsgPlayerOfflineNotify 9 7) game4) 0) = PlayerStateOffline"
  using offline_notice_hits_current_session [OF game4_reach, of "game_msg MsgPlayerOfflineNotify 9 7" 0 0]
  by (simp add: game4_state game2_state)

text \<open>
  Sessions without a player share player 0. A message that names no player and comes from a
  session the server does not know is taken for player 0, whoever sent it: once player 0 is in
  memory, every such message is dispatched to that one player.
\<close>

lemma unknown_sessions_share_player_zero:
  assumes "game_reach st opts interval db gm" and "ePlayerId env = 0"
    and "sessions_of gm (eSessionId env) = None" and "players_of gm 0 = Some r"
    and "msg_id env \<noteq> MsgPlayerOfflineNotify" and "msg_id env \<noteq> MsgPlayerResumeReq"
  shows "resolvePlayer env gm = 0 \<and>
    (\<exists>gm1. GetOrCreate (eSessionId env) 0 gm = (Inr r, gm1) \<and>
           handleConn_env k env gm = dispatch_to k True env r gm1)"
proof -
  note inv = game_reach_inv [OF assms(1)]
  have "p_PlayerID (gm_heap gm r) = 0" using game_invD(2) [OF inv assms(4)] .
  then have res: "resolvePlayer env gm = 0" using assms(2-4)
    by (simp add: resolvePlayer_def GetBySessionID_def)
  with assms(4-6) show ?thesis by (simp add: handleConn_env_def GetOrCreate_def Let_def)
qed

definition anon1 :: "mem_db game" where
  "anon1 = game_step game_pb 0 (SvcEnvelope 0 (game_msg MsgPlayerEnterGameReq 5 0)) game1"

lemma anon1_state: "players_of anon1 = [0 \<mapsto> 0]" "sessions_of anon1 = [5 \<mapsto> 0]"
proof -
  have "GetOrCreate 5 0 game1 = (Inr 0,
      snd (install_player 5 0 (NewProfile 0 '''') (game1\<lparr>gm_db := (Map.empty, Map.empty)\<rparr>)))"
    by (simp add: GetOrCreate_def create_player_def load_profile_def game1_state case_prod_beta)
  then have g: "anon1 = dispatch_to 0 True (game_msg MsgPlayerEnterGameReq 5 0) 0
      (snd (install_player 5 0 (NewProfile 0 '''') (game1\<lparr>gm_db := (Map.empty, Map.empty)\<rparr>)))"
    by (simp add: anon1_def handleConn_env_def resolvePlayer_def GetBySessionID_def game1_state)
  show "players_of anon1 = [0 \<mapsto> 0]" "sessions_of anon1 = [5 \<mapsto> 0]"
    by (simp_all add: g dispatch_to_cases Post_cases game1_state Let_def make_chan_def)
qed

lemma unknown_sessions_share_player_zero_witness:
  "\<exists>gm1. handleConn_env 0 (game_msg MsgPlayerEnterGameReq 6 0) anon1 =
     dispatch_to 0 True (game_msg MsgPlayerEnterGameReq 6 0) 0 gm1"
proof -
  have "reaches anon1"
    unfolding anon1_def by (intro game_reach.step [OF game1_reach]) (simp add: game1_state)
  from unknown_sessions_share_player_zero [OF this, of "game_msg MsgPlayerEnterGameReq 6 0" 0 0] anon1_state
  show ?thesis by auto
qed

end
