(* ===== verification/GameCreation.thy ===== *)
theory GameCreation
  imports GameSessions
begin

text \<open>
  Two handlers that enter the same player at the same time. \<open>GetOrCreate\<close> looks a player up and
  enters the new one in two critical sections and does not look again in the second.
\<close>

text \<open>A player that is active, in no entry of the map and held by no handler.\<close>

definition orphan :: "nat \<Rightarrow> 'd game \<Rightarrow> bool" where
  "orphan r gm \<longleftrightarrow> r < gm_heapNext gm \<and> p_state (gm_heap gm r) = PlayerStateActive \<and>
     (\<forall>q. players_of gm q \<noteq> Some r) \<and> (\<forall>k pt. gc_loc (gm_conns gm k) \<noteq> ConnAt pt r)"

lemma orphan_cong:
  assumes "orphan r gm" and "gm_heapNext gm \<le> gm_heapNext gm'" and "players_of gm' = players_of gm"
    and "\<And>k pt. gc_loc (gm_conns gm' k) = ConnAt pt r \<Longrightarrow> gc_loc (gm_conns gm k) = ConnAt pt r"
    and "p_state (gm_heap gm' r) = p_state (gm_heap gm r)"
  shows "orphan r gm'"
  using assms unfolding orphan_def by (metis order_less_le_trans)

lemma orphan_set_loc [simp]: "orphan r gm \<Longrightarrow> (\<And>pt. l \<noteq> ConnAt pt r) \<Longrightarrow> orphan r (set_loc k l gm)"
  by (simp add: orphan_def set_loc_def)

lemma orphan_install [simp]: "orphan r gm \<Longrightarrow> orphan r (snd (install_player sid pid pr gm))"
  by (auto simp: orphan_def)

lemma orphan_dispatch [simp]: "orphan r gm \<Longrightarrow> orphan r (dispatch_to k a env s gm)"
  by (rule orphan_cong [of r gm]) (auto simp: dispatch_to_cases Post_cases Let_def split: if_splits)

lemma orphan_db [simp]: "orphan r (gm\<lparr>gm_db := db\<rparr>) = orphan r gm"
  by (simp add: orphan_def)

lemma orphan_MarkOffline: "orphan r gm \<Longrightarrow> orphan r (MarkOffline pid gm)"
  by (auto simp: orphan_def MarkOffline_def Let_def split: option.split)

lemma orphan_DestroyPlayer: "orphan r gm \<Longrightarrow> orphan r (DestroyPlayer pid gm)"
  by (auto simp: orphan_def DestroyPlayer_def Let_def split: option.split)

lemma orphan_GetOrCreate:
  assumes o: "orphan r gm"
  shows "orphan r (snd (GetOrCreate sid pid gm))"
proof (cases "players_of gm pid")
  case (Some s)
  then have "s \<noteq> r" using o by (auto simp: orphan_def)
  with Some o show ?thesis by (simp add: orphan_def GetOrCreate_def Let_def)
next
  case None
  show ?thesis
    by (rule create_player_cases [of sid pid gm]) (use o None in \<open>simp_all add: GetOrCreate_def\<close>)
qed

lemma orphan_handleConn_env: "orphan r gm \<Longrightarrow> orphan r (handleConn_env k env gm)"
proof -
  assume o: "orphan r gm"
  have "orphan r (case GetOrCreate sid pid gm of (Inl err, g) \<Rightarrow> g | (Inr s, g) \<Rightarrow> dispatch_to k a env s g)"
    for sid pid a
    using orphan_GetOrCreate [OF o, of sid pid] by (auto split: prod.split sum.split)
  with o orphan_MarkOffline [OF o] show ?thesis by (simp add: handleConn_env_def Let_def)
qed

lemma orphan_handleConn_begin: "orphan r gm \<Longrightarrow> orphan r (handleConn_begin k env gm)"
  by (cases rule: handleConn_begin_cases [of k env gm]) (simp_all add: orphan_handleConn_env)

lemma orphan_handler_next:
  assumes o: "orphan r gm" and "s \<noteq> r"
  shows "orphan r (handler_next k pt s gm)"
proof -
  have "orphan r (upd_player s f gm)" "orphan r (set_session sid x gm)" for f sid x
    using assms by (simp_all add: orphan_def)
  with assms show ?thesis by (cases pt) simp_all
qed

lemma orphan_step:
  assumes inv: "game_inv gm" and en: "game_enabled ev gm" and o: "orphan r gm"
  shows "orphan r (game_step pb t ev gm)"
proof (cases ev)
  case (SvcEnvelope k env)
  with orphan_handleConn_env [OF o] show ?thesis by simp
next
  case (SvcBegins k m)
  with orphan_handleConn_begin [OF o] show ?thesis by simp
next
  case (SvcTakes k m)
  show ?thesis
    by (cases rule: handleConn_take_cases [of k m gm])
      (use o orphan_handleConn_begin [OF o] in \<open>auto simp: SvcTakes orphan_def\<close>)
next
  case (SvcNext k)
  show ?thesis
  proof (cases "gc_loc (gm_conns gm k)")
    case (ConnAt pt s)
    then have "s \<noteq> r" using o by (auto simp: orphan_def)
    with SvcNext ConnAt orphan_handler_next [OF o, of s k pt] show ?thesis by (simp add: handleConn_next_def)
  qed (use SvcNext o in \<open>simp_all add: handleConn_next_def\<close>)
next
  case (SvcCreates k)
  with o show ?thesis by (simp add: handleConn_create_def case_prod_beta split: conn_loc.split)
next
  case (PlayerStep s)
  obtain p rs where l: "loop_step pb (gm_heap gm s) = (p, rs)" by force
  have m: "p_modules (gm_heap gm s) = ready_modules"
    using game_invD(4) [OF inv] en PlayerStep by (simp add: player_wf_def)
  have "p_state p = PlayerStateActive" if "p_state (gm_heap gm s) = PlayerStateActive"
    using that l by (cases rule: loop_step_cases [OF m, of pb]) (auto simp: p_OnResume_def)
  with o PlayerStep player_loop_eq(1) [OF inv _ l] en show ?thesis
    by (auto simp: orphan_def)
next
  case (Destroy pid)
  with orphan_DestroyPlayer [OF o] show ?thesis by simp
next
  case (PersistTick ord)
  with o same_SaveAll [of gm ord] show ?thesis
    by (auto simp: persistLoop_def same_game_def orphan_def fun_eq_iff)
qed (use o in \<open>auto simp: orphan_def acceptService_def Let_def handleConn_timeout_def set_loc_def handleConn_end_def
    handleConn_reply_def split: conn_loc.split option.split prod.split sum.split\<close>)

lemma orphan_run:
  "game_inv gm \<Longrightarrow> orphan r gm \<Longrightarrow> game_run_ok tr gm \<Longrightarrow> orphan r (game_run tr gm)"
proof (induction tr gm rule: game_run.induct)
  case (2 pb t ev tr gm)
  then have en: "game_enabled ev gm" and ok: "game_run_ok tr (game_step pb t ev gm)" by simp_all
  show ?case
    using "2.IH" [OF game_inv_step [OF "2.prems"(1) en] orphan_step [OF "2.prems"(1) en "2.prems"(2)] ok] by simp
qed simp

text \<open>What entering a player and handing it the waiting message amounts to.\<close>

lemma handleConn_create_enters:
  assumes "gc_loc (gm_conns gm k) = ConnCreating env pid pr a"
  shows "players_of (handleConn_create k gm) = (players_of gm)(pid \<mapsto> gm_heapNext gm)"
    "gm_heapNext (handleConn_create k gm) = Suc (gm_heapNext gm)"
    "gm_connNext (handleConn_create k gm) = gm_connNext gm"
    "gc_loc (gm_conns (handleConn_create k gm) j) =
       (if j = k then ConnWaiting (gm_replyNext gm) a else gc_loc (gm_conns gm j))"
    "gm_heap (handleConn_create k gm) = (gm_heap gm)(gm_heapNext gm :=
       (NewPlayer pid (eSessionId env) pr CreateModules)\<lparr>p_inbox := \<lparr>ch_cap = 64,
          ch_buf = [\<lparr>msMsgID = msg_id env, msEnv = env, msReply = Some (gm_replyNext gm)\<rparr>]\<rparr>\<rparr>)"
  using assms
  by (simp_all add: handleConn_create_def case_prod_beta dispatch_to_cases Post_cases make_chan_def Let_def set_loc_def)

text \<open>
  C35: \<open>GetOrCreate\<close> may enter a player twice. When two handlers have both missed a player and
  loaded its profile, both enter one. The message of the first is in the inbox of a player that
  the second one has replaced in the map; and whatever happens afterwards, that player stays
  active with its goroutine, in no entry of the map, so it is never saved, taken offline or
  destroyed.
\<close>

theorem concurrent_creation_orphans_player:
  fixes gm :: "'d game"
  assumes "game_reach st opts interval db gm" and "k < gm_connNext gm" and "k' < gm_connNext gm"
    and "k \<noteq> k'" and "gc_loc (gm_conns gm k) = ConnCreating env pid pr a"
    and "gc_loc (gm_conns gm k') = ConnCreating env' pid pr' a'"
    and "gm' = game_step pb' t' (SvcCreates k') (game_step pb t (SvcCreates k) gm)"
    and "game_run_ok tr gm'"
  shows "players_of gm' pid = Some (Suc (gm_heapNext gm)) \<and>
    gc_loc (gm_conns gm' k) = ConnWaiting (gm_replyNext gm) a \<and>
    ch_buf (p_inbox (gm_heap gm' (gm_heapNext gm))) =
      [\<lparr>msMsgID = msg_id env, msEnv = env, msReply = Some (gm_replyNext gm)\<rparr>] \<and>
    p_state (gm_heap (game_run tr gm') (gm_heapNext gm)) = PlayerStateActive \<and>
    (\<forall>q. players_of (game_run tr gm') q \<noteq> Some (gm_heapNext gm))"
proof -
  note inv = game_reach_inv [OF assms(1)]
  let ?r = "gm_heapNext gm"
  let ?g = "game_step pb t (SvcCreates k) gm"
  have g: "?g = handleConn_create k gm" "gm' = handleConn_create k' ?g" by (simp_all add: assms(7))
  note h = handleConn_create_enters [OF assms(5), folded g(1)]
  have "gc_loc (gm_conns ?g k') = ConnCreating env' pid pr' a'" using assms(4,6) h(4) by simp
  note h' = handleConn_create_enters [OF this, folded g(2)]
  have "players_of gm q \<noteq> Some ?r" for q using game_invD(1) [OF inv, of q ?r] by auto
  moreover have "gc_loc (gm_conns gm j) \<noteq> ConnAt pt ?r" for j pt using holdsD [OF inv, of j pt ?r] by auto
  ultimately have o: "orphan ?r gm'" using h h' by (simp add: orphan_def)
  have "game_inv gm'" unfolding assms(7)
    using assms(2,3) h(3) by (intro game_inv_step inv) (simp_all del: game_step.simps)
  from orphan_run [OF this o assms(8)] show ?thesis using assms(4) h h' by (simp add: orphan_def)
qed

text \<open>Two connections from the service, on each of which the same player enters.\<close>

definition two_creators :: "mem_db game" where
  "two_creators =
     game_step game_pb 0 (SvcBegins 1 (game_msg MsgPlayerEnterGameReq 2 7))
       (game_step game_pb 0 (SvcBegins 0 (game_msg MsgPlayerEnterGameReq 1 7))
         (game_step game_pb 0 (SvcConnect idle_in idle_out) game1))"

lemma two_creators_facts:
  "reaches two_creators" "gm_connNext two_creators = 2" "gm_heapNext two_creators = 0"
  "gc_loc (gm_conns two_creators 0) = ConnCreating (game_msg MsgPlayerEnterGameReq 1 7) 7 (NewProfile 7 '''') True"
  "gc_loc (gm_conns two_creators 1) = ConnCreating (game_msg MsgPlayerEnterGameReq 2 7) 7 (NewProfile 7 '''') True"
proof -
  note s = acceptService_def Let_def game1_state handleConn_begin_def resolvePlayer_def load_profile_def set_loc_def
  let ?g = "game_step game_pb 0 (SvcConnect idle_in idle_out) game1"
  let ?h = "game_step game_pb 0 (SvcBegins 0 (game_msg MsgPlayerEnterGameReq 1 7)) ?g"
  show "gm_connNext two_creators = 2" "gm_heapNext two_creators = 0"
    "gc_loc (gm_conns two_creators 0) = ConnCreating (game_msg MsgPlayerEnterGameReq 1 7) 7 (NewProfile 7 '''') True"
    "gc_loc (gm_conns two_creators 1) = ConnCreating (game_msg MsgPlayerEnterGameReq 2 7) 7 (NewProfile 7 '''') True"
    by (simp_all add: two_creators_def s)
  have g: "reaches ?g" by (rule game_reach.step [OF game1_reach]) simp
  have h: "reaches ?h" by (rule game_reach.step [OF g]) (simp add: s)
  show "reaches two_creators"
    unfolding two_creators_def by (rule game_reach.step [OF h]) (simp add: s)
qed

theorem concurrent_creation_orphans_player_witness:
  "\<exists>gm'. reaches gm' \<and> players_of gm' 7 = Some 1 \<and> p_state (gm_heap gm' 0) = PlayerStateActive \<and>
     (\<forall>q. players_of gm' q \<noteq> Some 0)"
proof -
  note f = two_creators_facts
  let ?g = "game_step game_pb 0 (SvcCreates 1) (game_step game_pb 0 (SvcCreates 0) two_creators)"
  have h: "reaches (game_step game_pb 0 (SvcCreates 0) two_creators)"
    by (rule game_reach.step [OF f(1)]) (simp add: f(2))
  have "reaches ?g"
    by (rule game_reach.step [OF h]) (simp add: handleConn_create_enters(3) [OF f(4)] f(2))
  with concurrent_creation_orphans_player [OF f(1) _ _ _ f(4,5) refl, of "[]"] f(2,3) show ?thesis
    by (intro exI [of _ ?g]) simp
qed

end
