(* ===== verification/GameRaces.thy ===== *)
theory GameRaces
  imports GameCreation
begin

text \<open>
  A resume and an offline notice of the same player, taken by the handlers of two connections.
  \<open>MarkOffline\<close> removes the session that the player names when it comes to remove it, which need
  not be the session that went offline.
\<close>

lemma resolvePlayer_unbound:
  assumes "game_inv gm" and "ePlayerId env = 0" and "sessions_of gm (eSessionId env) = None"
  shows "resolvePlayer env gm = 0"
  using game_invD(2) [OF assms(1), of 0] assms(2,3)
  by (auto simp: resolvePlayer_def GetBySessionID_def split: option.split)

lemma OnResume_active:
  "p_state p = PlayerStateOffline \<or> p_state p = PlayerStateActive \<Longrightarrow>
     p_state (p_OnResume sid (p\<lparr>p_SessionID := x\<rparr>)) = PlayerStateActive"
  by (auto simp: p_OnResume_def)

lemma OnResume_session: "p_SessionID (p_OnResume sid (p\<lparr>p_SessionID := sid\<rparr>)) = sid"
  by (simp add: p_OnResume_def)

text \<open>
  C36: A resume can lose its session. One handler has taken the player offline and has yet to remove
  its session; another one has found the player for a resume. If the second brings the player
  back and enters the new session before the first goes on, the first removes the new session:
  the player is active and names a session that the server does not know, the old session is
  still entered, and a later message of the new session that names no player is taken for
  player 0.
\<close>

theorem resume_loses_its_session:
  fixes gm :: "'d game"
  assumes reach: "game_reach st opts interval db gm" and k: "k < gm_connNext gm" "k' < gm_connNext gm"
    and ne: "k \<noteq> k'" and off: "gc_loc (gm_conns gm k) = ConnAt AtUnbind r"
    and res: "gc_loc (gm_conns gm k') = ConnAt (AtResume env a) r"
    and pl: "players_of gm pid = Some r"
    and old: "p_SessionID (gm_heap gm r) \<noteq> eSessionId env"
    and gm': "gm' = game_step pb t (SvcNext k) (game_step pb t (SvcNext k') (game_step pb t (SvcNext k') gm))"
    and m: "ePlayerId env' = 0" "eSessionId env' = eSessionId env"
  shows "p_state (gm_heap gm' r) = PlayerStateActive \<and> p_SessionID (gm_heap gm' r) = eSessionId env \<and>
    sessions_of gm' = (sessions_of gm)(eSessionId env := None) \<and>
    gc_loc (gm_conns gm' k') = ConnAt (AtDispatch env a) r \<and> resolvePlayer env' gm' = 0"
proof -
  note inv = game_reach_inv [OF reach]
  have "p_state (gm_heap gm r) \<noteq> PlayerStateDestroyed" "p_state (gm_heap gm r) \<noteq> PlayerStateInit"
    using game_invD(3) [OF inv pl] game_invD(1,4) [OF inv] pl by (auto simp: player_wf_def)
  then have st: "p_state (gm_heap gm r) = PlayerStateOffline \<or> p_state (gm_heap gm r) = PlayerStateActive"
    by (cases "p_state (gm_heap gm r)") simp_all
  have inv': "game_inv gm'"
    unfolding gm' using k by (intro game_inv_step inv) (simp_all add: handleConn_next_def off res ne)
  have e: "gm_heap gm' r = p_OnResume (eSessionId env) ((gm_heap gm r)\<lparr>p_SessionID := eSessionId env\<rparr>)"
    "sessions_of gm' = (sessions_of gm)(eSessionId env := None)"
    "gc_loc (gm_conns gm' k') = ConnAt (AtDispatch env a) r"
    using ne by (simp_all add: gm' handleConn_next_def off res OnResume_session)
  have "resolvePlayer env' gm' = 0"
    using resolvePlayer_unbound [OF inv' m(1)] m(2) e(2) by simp
  with e st show ?thesis by (simp add: OnResume_active OnResume_session)
qed

text \<open>The service has two connections; the player went offline on one and comes back on the other.\<close>

definition racing :: "mem_db game" where
  "racing = game_run
     [(game_pb, 0, SvcConnect idle_in idle_out),
      (game_pb, 0, SvcTakes 0 (game_msg MsgPlayerOfflineNotify 1 7)),
      (game_pb, 0, SvcNext 0), (game_pb, 0, SvcNext 0),
      (game_pb, 0, SvcTakes 1 (game_msg MsgPlayerResumeReq 2 7))] game4"

lemma game_run_reach:
  "game_reach st opts interval db gm \<Longrightarrow> game_run_ok tr gm \<Longrightarrow> game_reach st opts interval db (game_run tr gm)"
  by (induction tr gm rule: game_run.induct) (auto intro: game_reach.step simp del: game_step.simps)

lemma racing_facts:
  "reaches racing" "gm_connNext racing = 2" "players_of racing = [7 \<mapsto> 0]" "sessions_of racing = [1 \<mapsto> 7]"
  "gc_loc (gm_conns racing 0) = ConnAt AtUnbind 0"
  "gc_loc (gm_conns racing 1) = ConnAt (AtResume (game_msg MsgPlayerResumeReq 2 7) False) 0"
  "p_SessionID (gm_heap racing 0) = 1"
proof -
  note s = game4_state game2_state acceptService_def Let_def handleConn_take_def handleConn_next_def
    resolvePlayer_def p_OnOffline_def
  show "reaches racing" unfolding racing_def
    by (rule game_run_reach [OF game4_reach]) (simp add: s)
  show "gm_connNext racing = 2" "players_of racing = [7 \<mapsto> 0]" "sessions_of racing = [1 \<mapsto> 7]"
    "gc_loc (gm_conns racing 0) = ConnAt AtUnbind 0"
    "gc_loc (gm_conns racing 1) = ConnAt (AtResume (game_msg MsgPlayerResumeReq 2 7) False) 0"
    "p_SessionID (gm_heap racing 0) = 1"
    unfolding racing_def by (simp_all add: s)
qed

theorem resume_loses_its_session_witness:
  "\<exists>gm :: mem_db game. p_state (gm_heap gm 0) = PlayerStateActive \<and> p_SessionID (gm_heap gm 0) = 2 \<and>
     sessions_of gm = [1 \<mapsto> 7]"
proof -
  note f = racing_facts
  let ?g = "game_step game_pb 0 (SvcNext 0) (game_step game_pb 0 (SvcNext 1) (game_step game_pb 0 (SvcNext 1) racing))"
  have a: "p_state (gm_heap ?g 0) = PlayerStateActive \<and> p_SessionID (gm_heap ?g 0) = 2 \<and>
      sessions_of ?g = (sessions_of racing)(2 := None)"
    using resume_loses_its_session [OF f(1) _ _ _ f(5,6) f(3) [THEN fun_cong, of 7, simplified] _ refl,
      of "game_msg MsgPlayerEnterGameReq 2 0" game_pb 0] f(2,7)
    by simp
  show ?thesis by (rule exI [of _ ?g]) (use a f(4) in \<open>simp del: game_step.simps\<close>)
qed

end
