(* ===== verification/GamePersist.thy ===== *)
theory GamePersist
  imports GameSessions
begin

text \<open>
  What of a player reaches the database: the save when it goes offline, the periodic save of all
  players, and the profile a new server loads.
\<close>

subsection \<open>The store a server was started with\<close>

definition keeps_store :: "'d game \<Rightarrow> 'd game \<Rightarrow> bool" where
  "keeps_store gm gm' \<longleftrightarrow> pm_store (gm_players gm') = pm_store (gm_players gm)"

lemma keeps_store_dispatch: "keeps_store gm (dispatch_to k a env r gm)"
  by (simp add: keeps_store_def dispatch_to_cases Let_def split: prod.split)

lemma keeps_store_get: "GetOrCreate sid pid gm = (res, gm') \<Longrightarrow> keeps_store gm gm'"
proof (cases "players_of gm pid")
  case None
  assume g: "GetOrCreate sid pid gm = (res, gm')"
  show ?thesis
    by (rule create_player_cases [of sid pid gm]) (use g None in \<open>auto simp: GetOrCreate_def keeps_store_def\<close>)
qed (auto simp: GetOrCreate_def Let_def keeps_store_def)

lemma keeps_store_SaveAll: "keeps_store gm (SaveAll ord gm)"
proof -
  have "pm_store (gm_players (save_one p g)) = pm_store (gm_players g)" for p and g :: "'a game"
    by (simp add: save_one_def split: option.split)
  then have "pm_store (gm_players (fold save_one ord g)) = pm_store (gm_players g)" for g :: "'a game"
    by (induction ord arbitrary: g) simp_all
  then show ?thesis by (simp add: keeps_store_def SaveAll_def)
qed

lemma keeps_store_step: "keeps_store gm (game_step pb t ev gm)"
proof -
  have "keeps_store gm (case GetOrCreate sid pid gm of (Inl err, g) \<Rightarrow> g | (Inr s, g) \<Rightarrow> dispatch_to k a env s g)"
    for sid pid a k env
  proof (cases "GetOrCreate sid pid gm")
    case (Pair res g)
    with keeps_store_get [OF Pair] show ?thesis
      using keeps_store_dispatch [of g k a env] by (cases res) (simp_all add: keeps_store_def)
  qed
  then have env: "keeps_store gm (handleConn_env k env gm)" for k env
    by (auto simp: handleConn_env_def Let_def MarkOffline_def keeps_store_def split: option.split)
  have beg: "keeps_store gm (handleConn_begin k m gm)" for k m
    by (cases rule: handleConn_begin_cases [of k m gm]) (use env in \<open>simp_all add: keeps_store_def\<close>)
  show ?thesis
  proof (cases ev)
  case (SvcEnvelope k env)
  with env show ?thesis by simp
next
  case (SvcBegins k m)
  with beg show ?thesis by simp
next
  case (SvcTakes k m)
  show ?thesis
    by (cases rule: handleConn_take_cases [of k m gm])
      (use beg in \<open>simp_all add: SvcTakes keeps_store_def\<close>)
next
  case (SvcNext k)
  have "keeps_store gm (handler_next k pt r gm)" for pt r
    by (cases pt) (simp_all add: keeps_store_def keeps_store_dispatch [unfolded keeps_store_def])
  with SvcNext show ?thesis by (simp add: handleConn_next_def keeps_store_def split: conn_loc.split)
next
  case (SvcCreates k)
  then show ?thesis
    by (simp add: keeps_store_def handleConn_create_def case_prod_beta install_player_def Let_def set_session_def
        set_loc_def keeps_store_dispatch [unfolded keeps_store_def] split: conn_loc.split)
next
  case (PlayerStep r)
  have "gm_players (fold send_reply rs g) = gm_players g" for rs and g :: "'a game"
    by (induction rs arbitrary: g) (auto simp: send_reply_def split: option.split)
  then show ?thesis using PlayerStep by (simp add: keeps_store_def player_loop_def split: prod.split)
next
  case (PersistTick ord)
  with keeps_store_SaveAll [of gm ord] show ?thesis by (simp add: keeps_store_def persistLoop_def)
qed (auto simp: keeps_store_def acceptService_def Let_def handleConn_timeout_def handleConn_end_def
    handleConn_reply_def DestroyPlayer_def split: conn_loc.split option.split prod.split sum.split)
qed

lemma reach_store: "game_reach st opts interval db gm \<Longrightarrow> pm_store (gm_players gm) = st"
  by (induction rule: game_reach.induct)
    (use keeps_store_step in \<open>auto simp: NewGameServer_def NewPlayerManager_def keeps_store_def\<close>)

subsection \<open>Profiles are filed under their own role\<close>

definition profiles_keyed :: "(int64 \<Rightarrow> PlayerProfile option) \<Rightarrow> bool" where
  "profiles_keyed ps \<longleftrightarrow> (\<forall>p pr. ps p = Some pr \<longrightarrow> RoleID pr = p)"

text \<open>In the database, in every player, and in every profile that a handler has loaded.\<close>

definition game_keyed :: "('d \<Rightarrow> int64 \<Rightarrow> PlayerProfile option) \<Rightarrow> 'd game \<Rightarrow> bool" where
  "game_keyed profiles gm \<longleftrightarrow> profiles_keyed (profiles (gm_db gm)) \<and>
     (\<forall>r < gm_heapNext gm. RoleID (p_Profile (gm_heap gm r)) = p_PlayerID (gm_heap gm r)) \<and>
     (\<forall>k env pid pr a. gc_loc (gm_conns gm k) = ConnCreating env pid pr a \<longrightarrow> RoleID pr = pid)"

lemma keyed_same:
  assumes "game_keyed profiles gm" and "profiles (gm_db gm') = profiles (gm_db gm)"
    and "gm_heapNext gm' = gm_heapNext gm"
    and "\<And>r. r < gm_heapNext gm \<Longrightarrow> p_Profile (gm_heap gm' r) = p_Profile (gm_heap gm r) \<and>
      p_PlayerID (gm_heap gm' r) = p_PlayerID (gm_heap gm r)"
    and "\<And>k env pid pr a. gc_loc (gm_conns gm' k) = ConnCreating env pid pr a \<Longrightarrow>
      gc_loc (gm_conns gm k) = ConnCreating env pid pr a"
  shows "game_keyed profiles gm'"
  using assms unfolding game_keyed_def by metis

lemma keyed_db:
  "game_keyed profiles gm \<Longrightarrow> profiles_keyed (profiles db) \<Longrightarrow> game_keyed profiles (gm\<lparr>gm_db := db\<rparr>)"
  by (simp add: game_keyed_def)

lemma keyed_install:
  assumes "game_keyed profiles gm" and "RoleID pr = pid"
  shows "game_keyed profiles (snd (install_player sid pid pr gm))"
  using assms by (auto simp: game_keyed_def less_Suc_eq)

lemma keyed_dispatch: "game_keyed profiles gm \<Longrightarrow> game_keyed profiles (dispatch_to k a env r gm)"
  by (rule keyed_same [of profiles gm])
    (auto simp: dispatch_to_cases Post_cases Let_def split: if_splits)

lemma keyed_set_loc:
  "game_keyed profiles gm \<Longrightarrow> (\<And>env pid pr a. l = ConnCreating env pid pr a \<Longrightarrow> RoleID pr = pid) \<Longrightarrow>
     game_keyed profiles (set_loc k l gm)"
  by (auto simp: game_keyed_def)

lemma keyed_set_session [simp]: "game_keyed profiles (set_session sid x gm) = game_keyed profiles gm"
  by (simp add: game_keyed_def)

lemma keyed_upd_player:
  "game_keyed profiles gm \<Longrightarrow> p_Profile (f (gm_heap gm r)) = p_Profile (gm_heap gm r) \<Longrightarrow>
     p_PlayerID (f (gm_heap gm r)) = p_PlayerID (gm_heap gm r) \<Longrightarrow> game_keyed profiles (upd_player r f gm)"
  by (simp add: game_keyed_def)

lemma keyed_resume [simp]:
  "game_keyed profiles gm \<Longrightarrow>
     game_keyed profiles (upd_player r (\<lambda>p. p_OnResume sid (p\<lparr>p_SessionID := x\<rparr>)) gm)"
  "game_keyed profiles gm \<Longrightarrow> game_keyed profiles (upd_player r p_OnOffline gm)"
  by (rule keyed_upd_player; simp add: frame_simps)+

context player_store
begin

lemma keyed_write:
  assumes "game_keyed profiles gm" and "st_SaveProfile st pr d = (None, d')" and "profiles_keyed (profiles d)"
  shows "profiles_keyed (profiles d')"
  using save_profile [OF assms(2)] assms(3) by (auto simp: profiles_keyed_def)

lemma keyed_load:
  assumes k: "game_keyed profiles gm" and st: "pm_store (gm_players gm) = st"
    and reads: "\<And>p d. profiles (snd (st_LoadProfile st p d)) = profiles d"
    and writes: "\<And>pr d. fst (st_SaveProfile st pr d) = None"
    and l: "load_profile pid gm = (res, gm')"
  shows "game_keyed profiles gm'" "res = Inr pr \<Longrightarrow> RoleID pr = pid"
proof -
  obtain x d where x: "st_LoadProfile st pid (gm_db gm) = (x, d)" by force
  have d: "profiles d = profiles (gm_db gm)" using reads [of pid "gm_db gm"] x by simp
  have kd: "profiles_keyed (profiles d)" using k by (simp add: game_keyed_def d)
  obtain d' where s: "st_SaveProfile st (NewProfile pid '''') d = (None, d')"
    using writes [of "NewProfile pid ''''" d] by (metis prod.collapse)
  have kd': "profiles_keyed (profiles d')" by (rule keyed_write [OF k s kd])
  have id: "RoleID (NewProfile pid '''') = pid" by (simp add: NewProfile_def)
  have "game_keyed profiles gm' \<and> (res = Inr pr \<longrightarrow> RoleID pr = pid)"
  proof (cases x)
    case (Inl err)
    with l x st keyed_db [OF k kd] show ?thesis by (auto simp: load_profile_def)
  next
    case (Inr y)
    show ?thesis
    proof (cases y)
      case None
      with l x Inr st s keyed_db [OF k kd'] id show ?thesis by (auto simp: load_profile_def)
    next
      case (Some pr')
      have "RoleID pr' = pid"
        using load_profile [of pid "gm_db gm" y d] x Inr Some k
        by (auto simp: game_keyed_def profiles_keyed_def split: if_splits)
      with l x Inr Some st keyed_db [OF k kd] show ?thesis by (auto simp: load_profile_def)
    qed
  qed
  then show "game_keyed profiles gm'" "res = Inr pr \<Longrightarrow> RoleID pr = pid" by blast+
qed

lemma keyed_save:
  assumes "game_keyed profiles gm" and "\<And>pr d. fst (st_SaveProfile st pr d) = None"
  shows "game_keyed profiles (gm\<lparr>gm_db := snd (st_SaveProfile st pr (gm_db gm))\<rparr>)"
  using keyed_db [OF assms(1)] keyed_write [OF assms(1), of pr "gm_db gm"] assms
  by (metis game_keyed_def prod.collapse)

lemma keyed_SaveAll:
  assumes "\<And>pr d. fst (st_SaveProfile st pr d) = None"
  shows "game_keyed profiles gm \<Longrightarrow> pm_store (gm_players gm) = st \<Longrightarrow> game_keyed profiles (SaveAll ord gm)"
  unfolding SaveAll_def
proof (induction ord arbitrary: gm)
  case (Cons p ord)
  have "game_keyed profiles (save_one p gm)" "pm_store (gm_players (save_one p gm)) = st"
    using Cons.prems keyed_save [OF Cons.prems(1) assms] by (auto simp: save_one_def split: option.split)
  then show ?case using Cons.IH by simp
qed simp

lemma keyed_step:
  assumes k: "game_keyed profiles gm" and st: "pm_store (gm_players gm) = st"
    and reads: "\<And>p d. profiles (snd (st_LoadProfile st p d)) = profiles d"
    and writes: "\<And>pr d. fst (st_SaveProfile st pr d) = None"
    and inv: "game_inv gm" and en: "game_enabled ev gm"
  shows "game_keyed profiles (game_step pb t ev gm)"
proof -
  note load = keyed_load [OF k st reads writes]
  have get: "game_keyed profiles (snd (GetOrCreate sid pid gm))" for sid pid
  proof (cases "players_of gm pid")
    case None
    obtain res g where l: "load_profile pid gm = (res, g)" by force
    with load [OF l] None show ?thesis
      by (cases res) (auto simp: GetOrCreate_def create_player_def case_prod_beta intro: keyed_install)
  qed (simp add: GetOrCreate_def Let_def k)
  have disp: "game_keyed profiles (case GetOrCreate sid pid gm of (Inl err, g) \<Rightarrow> g | (Inr r, g) \<Rightarrow> dispatch_to c a env r g)"
    for sid pid c a env
    using get [of sid pid] by (auto intro: keyed_dispatch split: prod.split sum.split)
  have "game_keyed profiles (MarkOffline pid gm)" for pid
    using keyed_save [OF k writes] by (auto simp: MarkOffline_def Let_def st k split: option.split)
  with disp k have env: "game_keyed profiles (handleConn_env c m gm)" for c m
    by (simp add: handleConn_env_def Let_def)
  have beg: "game_keyed profiles (handleConn_begin c m gm)" for c m
  proof -
    obtain res g where l: "load_profile (resolvePlayer m gm) gm = (res, g)" by force
    show ?thesis using env load [OF l] l
      by (cases res) (auto simp: handleConn_begin_def Let_def intro: keyed_set_loc)
  qed
  show ?thesis
  proof (cases ev)
    case (SvcTakes c m)
    show ?thesis
      by (cases rule: handleConn_take_cases [of c m gm]) (use beg k in \<open>auto simp: SvcTakes intro: keyed_set_loc\<close>)
  next
    case (SvcNext c)
    have "game_keyed profiles (handler_next c pt r gm)" for pt r
      by (cases pt) (use k keyed_save [OF k writes] in
          \<open>auto simp: st intro!: keyed_set_loc keyed_dispatch\<close>)
    with SvcNext k show ?thesis by (simp add: handleConn_next_def split: conn_loc.split)
  next
    case (SvcCreates c)
    show ?thesis
    proof (cases "gc_loc (gm_conns gm c)")
      case (ConnCreating env pid pr a)
      then have "RoleID pr = pid" using k unfolding game_keyed_def by blast
      then have "game_keyed profiles (set_loc c ConnReading (snd (install_player (eSessionId env) pid pr gm)))"
        by (intro keyed_set_loc keyed_install k) simp_all
      with SvcCreates ConnCreating keyed_dispatch show ?thesis
        by (simp add: handleConn_create_def case_prod_beta)
    qed (use SvcCreates k in \<open>simp_all add: handleConn_create_def\<close>)
  next
    case (PlayerStep r)
    obtain p rs where l: "loop_step pb (gm_heap gm r) = (p, rs)" by force
    have m: "p_modules (gm_heap gm r) = ready_modules"
      using game_invD(4) [OF inv] en PlayerStep by (simp add: player_wf_def)
    have "game_keyed profiles (upd_player r (\<lambda>_. p) gm)"
      using loop_step_frame(1,2) [OF m, of pb] l by (intro keyed_upd_player k) simp_all
    with player_loop_eq(1) [OF inv _ l] en PlayerStep show ?thesis by (simp add: game_keyed_def)
  next
    case (PersistTick ord)
    with k keyed_SaveAll [OF writes k st] show ?thesis by (simp add: persistLoop_def)
  next
    case (Destroy pid)
    with k show ?thesis
      by (auto simp: DestroyPlayer_def Let_def game_keyed_def frame_simps split: option.split)
  next
    case (SvcReply c)
    have "gm_db (handleConn_reply pb t c gm) = gm_db gm \<and> gm_heap (handleConn_reply pb t c gm) = gm_heap gm \<and>
        gm_heapNext (handleConn_reply pb t c gm) = gm_heapNext gm \<and>
        gc_loc (gm_conns (handleConn_reply pb t c gm) j) \<in> {gc_loc (gm_conns gm j), ConnReading}" for j
      by (simp add: handleConn_reply_def Let_def set_loc_def split: conn_loc.split option.split prod.split sum.split)
    then have "game_keyed profiles (handleConn_reply pb t c gm)"
      by (intro keyed_same [OF k]) (simp_all, metis conn_loc.distinct(1) insertE singletonD)
    with SvcReply show ?thesis by simp
  next
    case (SvcTimeout c)
    with k show ?thesis by (auto simp: handleConn_timeout_def intro: keyed_set_loc split: conn_loc.split)
  next
    case (SvcEnds c)
    with k show ?thesis by (auto simp: handleConn_end_def game_keyed_def)
  next
    case (SvcConnect i out)
    with k show ?thesis by (auto simp: acceptService_def Let_def game_keyed_def)
  qed (use env beg in simp_all)
qed

lemma keyed_reach:
  assumes "\<And>p d. profiles (snd (st_LoadProfile st p d)) = profiles d"
    and "\<And>pr d. fst (st_SaveProfile st pr d) = None" and "profiles_keyed (profiles db)"
  shows "game_reach st opts interval db gm \<Longrightarrow> game_keyed profiles gm"
proof (induction rule: game_reach.induct)
  case boot
  then show ?case using assms(3) by (simp add: game_keyed_def NewGameServer_def blank_conn_def)
next
  case (step gm ev pb t)
  from keyed_step [OF step(3) reach_store [OF step(1)] assms(1,2) game_reach_inv [OF step(1)] step(2)]
  show ?case .
qed

end

subsection \<open>Saving all players\<close>

context player_store
begin

lemma save_all:
  assumes "\<And>pr d. fst (st_SaveProfile st pr d) = None"
  shows "pm_store (gm_players gm) = st \<Longrightarrow>
    (\<And>pid r. players_of gm pid = Some r \<Longrightarrow> RoleID (p_Profile (gm_heap gm r)) = pid) \<Longrightarrow>
    profiles (gm_db (SaveAll ord gm)) =
      (\<lambda>p. if p \<in> set ord \<and> p \<noteq> 0 \<and> players_of gm p \<noteq> None
           then Some (p_Profile (gm_heap gm (the (players_of gm p)))) else profiles (gm_db gm) p)"
proof (induction ord arbitrary: gm)
  case (Cons p ord)
  have eq: "SaveAll (p # ord) gm = SaveAll ord (save_one p gm)" by (simp add: SaveAll_def)
  show ?case
  proof (cases "players_of gm p")
    case None
    then have "save_one p gm = gm" by (simp add: save_one_def)
    with None Cons eq show ?thesis by (auto simp: fun_eq_iff)
  next
    case (Some r)
    let ?pr = "p_Profile (gm_heap gm r)"
    obtain d where d: "st_SaveProfile st ?pr (gm_db gm) = (None, d)"
      using assms by (metis prod.collapse)
    have s: "save_one p gm = gm\<lparr>gm_db := d\<rparr>" using Some d Cons.prems(1) by (simp add: save_one_def)
    have id: "RoleID ?pr = p" by (rule Cons.prems(2) [OF Some])
    have "profiles d = (if p = 0 then profiles (gm_db gm) else (profiles (gm_db gm))(p \<mapsto> ?pr))"
      using save_profile [OF d] id by simp
    moreover have "profiles (gm_db (SaveAll ord (gm\<lparr>gm_db := d\<rparr>))) =
        (\<lambda>q. if q \<in> set ord \<and> q \<noteq> 0 \<and> players_of gm q \<noteq> None
             then Some (p_Profile (gm_heap gm (the (players_of gm q)))) else profiles d q)"
      using Cons.IH [of "gm\<lparr>gm_db := d\<rparr>"] Cons.prems by (simp cong: if_cong)
    ultimately show ?thesis using Some by (auto simp: eq s fun_eq_iff)
  qed
qed (simp add: SaveAll_def)

text \<open>Creating a player whose profile was saved.\<close>

lemma created_with_saved:
  assumes "st_SaveProfile st pr d = (None, d')" and "RoleID pr = pid" and "pid \<noteq> 0"
    and "GetOrCreate sid pid (NewGameServer st opts interval d') = (Inr r, gm)"
  shows "p_Profile (gm_heap gm r) = pr"
proof -
  obtain x d2 where l: "st_LoadProfile st pid d' = (x, d2)" by force
  from assms(4) have c: "create_player sid pid (NewGameServer st opts interval d') = (Inr r, gm)"
    by (simp add: GetOrCreate_def NewGameServer_def NewPlayerManager_def)
  show ?thesis
  proof (cases x)
    case (Inl e)
    with c l show ?thesis by (simp add: create_player_def load_profile_def NewGameServer_def NewPlayerManager_def)
  next
    case (Inr y)
    with l profile_roundtrip [OF assms(1), of pid y d2] assms(2,3) have "y = Some pr" by simp
    with c l Inr show ?thesis
      by (auto simp: create_player_def load_profile_def NewGameServer_def NewPlayerManager_def install_player_def Let_def set_session_def)
  qed
qed

end

context redis_laws
begin

lemma persist_redis:
  assumes set: "\<And>k v d. fst (r_Set rd k v 0 d) = None" and json: "\<And>pr. json_marshal jc pr \<noteq> None"
    and "pm_store (gm_players gm) = NewRedisStore rd jc" and "0 < gm_persistInterval gm"
    and "\<And>pid r. players_of gm pid = Some r \<Longrightarrow> RoleID (p_Profile (gm_heap gm r)) = pid"
    and "set ord = dom (players_of gm)"
  shows "redis_profiles view jc (gm_db (persistLoop ord gm)) =
    (\<lambda>p. if p \<noteq> 0 \<and> players_of gm p \<noteq> None then Some (p_Profile (gm_heap gm (the (players_of gm p))))
     else redis_profiles view jc (gm_db gm) p)"
proof -
  have "fst (st_SaveProfile (NewRedisStore rd jc) pr d) = None" for pr d
    using set json [of pr] by (auto simp: NewRedisStore_def SaveProfile_def SetWithTTL_def)
  from rs.save_all [OF this assms(3,5)] have "redis_profiles view jc (gm_db (SaveAll ord gm)) =
      (\<lambda>p. if p \<in> set ord \<and> p \<noteq> 0 \<and> players_of gm p \<noteq> None
           then Some (p_Profile (gm_heap gm (the (players_of gm p)))) else redis_profiles view jc (gm_db gm) p)" .
  then show ?thesis using assms(4,6) by (auto simp: persistLoop_def dom_def)
qed

text \<open>Every player holds the profile of its own role when every profile was filed so at the start.\<close>

lemma keyed_redis:
  assumes set: "\<And>k v d. fst (r_Set rd k v 0 d) = None" and json: "\<And>pr. json_marshal jc pr \<noteq> None"
    and get: "\<And>k d. view (snd (r_Get rd k d)) = view d"
    and "game_reach (NewRedisStore rd jc) opts interval db gm"
    and "profiles_keyed (redis_profiles view jc db)" and r: "players_of gm pid = Some r"
  shows "RoleID (p_Profile (gm_heap gm r)) = pid"
proof -
  have "redis_profiles view jc (snd (st_LoadProfile (NewRedisStore rd jc) p d)) = redis_profiles view jc d" for p d
    using get [of "PlayerProfileKey p" d]
    by (auto simp: NewRedisStore_def LoadProfile_def GetString_def redis_profiles_def fun_eq_iff
        split: prod.split sum.split option.split)
  moreover have "fst (st_SaveProfile (NewRedisStore rd jc) pr d) = None" for pr d
    using set json [of pr] by (auto simp: NewRedisStore_def SaveProfile_def SetWithTTL_def)
  ultimately have "game_keyed (redis_profiles view jc) gm" by (rule rs.keyed_reach [OF _ _ assms(5,4)])
  with game_invD(1,2) [OF game_reach_inv [OF assms(4)] r] show ?thesis by (auto simp: game_keyed_def)
qed

lemma restart_redis:
  assumes "SaveProfile rd jc pr d = (None, d')" and "RoleID pr = pid" and "pid \<noteq> 0"
    and "GetOrCreate sid pid (boot_game rd jc opts d') = (Inr r, gm)"
  shows "p_Profile (gm_heap gm r) = pr"
proof -
  have "st_SaveProfile (NewRedisStore rd jc) pr d = (None, d')" using assms(1) by (simp add: NewRedisStore_def)
  from rs.created_with_saved [OF this assms(2,3) assms(4) [unfolded boot_game_def]] show ?thesis .
qed

end

subsection \<open>A run on Redis\<close>

definition redis_db7 :: "string \<Rightarrow> string option" where
  "redis_db7 = [PlayerProfileKey 7 \<mapsto> the (json_marshal profile_text (NewProfile 7 ''''))]"

definition redis0 :: "(string \<Rightarrow> string option) game" where
  "redis0 = game_step game_pb 0 (SvcConnect idle_in idle_out) (boot_game mem_redis profile_text demo_opts Map.empty)"

definition redis1 :: "(string \<Rightarrow> string option) game" where
  "redis1 = game_step game_pb 0 (SvcEnvelope 0 (game_msg MsgPlayerEnterGameReq 1 7)) redis0"

lemma redis1_state:
  "players_of redis1 = [7 \<mapsto> 0]" "p_Profile (gm_heap redis1 0) = NewProfile 7 ''''"
  "gm_db redis1 = redis_db7" "pm_store (gm_players redis1) = NewRedisStore mem_redis profile_text"
  "gm_persistInterval redis1 = 30 * second"
proof -
  have c: "players_of redis0 = Map.empty" "pm_store (gm_players redis0) = NewRedisStore mem_redis profile_text"
    "gm_db redis0 = Map.empty" "gm_heapNext redis0 = 0" "gm_persistInterval redis0 = 30 * second"
    by (simp_all add: redis0_def boot_game_def NewGameServer_def NewPlayerManager_def acceptService_def Let_def)
  have l: "LoadProfile mem_redis profile_text 7 Map.empty = (Inr None, Map.empty)"
    by (simp add: LoadProfile_def GetString_def mem_redis_def RedisNil_def)
  have s: "SaveProfile mem_redis profile_text (NewProfile 7 '''') Map.empty = (None, redis_db7)"
    by (simp add: SaveProfile_def SetWithTTL_def mem_redis_def profile_text_def redis_db7_def)
  have "GetOrCreate 1 7 redis0 =
      (Inr 0, snd (install_player 1 7 (NewProfile 7 '''') (redis0\<lparr>gm_db := redis_db7\<rparr>)))"
    using l s by (simp add: GetOrCreate_def create_player_def load_profile_def c NewRedisStore_def case_prod_beta)
  then have g: "redis1 = dispatch_to 0 True (game_msg MsgPlayerEnterGameReq 1 7) 0
      (snd (install_player 1 7 (NewProfile 7 '''') (redis0\<lparr>gm_db := redis_db7\<rparr>)))"
    by (simp add: redis1_def handleConn_env_def resolvePlayer_def)
  have i: "gm_persistInterval (snd (install_player s p pr m)) = gm_persistInterval m"
    "gm_persistInterval (set_loc k x m) = gm_persistInterval m"
    "gm_persistInterval (upd_player r f m) = gm_persistInterval m" for s p pr k x r f and m :: "(string \<Rightarrow> string option) game"
    by (simp_all add: install_player_def Let_def set_session_def set_loc_def upd_player_def)
  show "players_of redis1 = [7 \<mapsto> 0]" "p_Profile (gm_heap redis1 0) = NewProfile 7 ''''"
    "gm_db redis1 = redis_db7" "pm_store (gm_players redis1) = NewRedisStore mem_redis profile_text"
    "gm_persistInterval redis1 = 30 * second"
    by (simp_all add: g dispatch_to_cases Post_cases c i Let_def make_chan_def)
qed

lemma redis1_reach: "game_reach (NewRedisStore mem_redis profile_text) demo_opts (30 * second) Map.empty redis1"
  unfolding redis1_def redis0_def boot_game_def
  by (intro game_reach.intros) (simp_all add: acceptService_def Let_def NewGameServer_def)

subsection \<open>Properties\<close>



text \<open>
  C33: A player's profile survives a restart. For a player other than 0 whose profile carries its
  own role, when the save at the moment it goes offline succeeds, a server started anew on the
  database that creates the player from any session gives it the profile it had.
\<close>

theorem profile_survives_restart:
  assumes "redis_laws rd view jc" and "game_reach (NewRedisStore rd jc) opts interval db gm"
    and "players_of gm pid = Some r" and "RoleID (p_Profile (gm_heap gm r)) = pid" and "pid \<noteq> 0"
    and "msg_id env = MsgPlayerOfflineNotify" and "ePlayerId env = pid"
    and "fst (SaveProfile rd jc (p_Profile (gm_heap gm r)) (gm_db gm)) = None"
    and "GetOrCreate sid pid (boot_game rd jc opts' (gm_db (handleConn_env k env gm))) = (Inr r', gm')"
  shows "p_Profile (gm_heap gm' r') = p_Profile (gm_heap gm r)"
proof -
  obtain d' where d: "SaveProfile rd jc (p_Profile (gm_heap gm r)) (gm_db gm) = (None, d')"
    using assms(8) by (metis prod.collapse)
  have "gm_db (handleConn_env k env gm) = d'"
    using assms(3,5-7) d reach_store [OF assms(2)]
    by (simp add: handleConn_env_def resolvePlayer_def MarkOffline_def Let_def NewRedisStore_def)
  with assms(9) have g: "GetOrCreate sid pid (boot_game rd jc opts' d') = (Inr r', gm')" by simp
  show ?thesis by (rule redis_laws.restart_redis [OF assms(1) d assms(4,5) g])
qed

lemma redis1_offline:
  "gm_db (handleConn_env 0 (game_msg MsgPlayerOfflineNotify 1 7) redis1) = redis_db7"
  by (simp add: handleConn_env_def resolvePlayer_def MarkOffline_def Let_def redis1_state NewRedisStore_def
      SaveProfile_def SetWithTTL_def mem_redis_def redis_db7_def profile_text_def)

lemma redis_db7_load: "LoadProfile mem_redis profile_text 7 redis_db7 = (Inr (Some (NewProfile 7 '''')), redis_db7)"
proof -
  obtain t where t: "json_marshal profile_text (NewProfile 7 '''') = Some t" by (simp add: profile_text_def)
  then show ?thesis using profile_text_roundtrip [OF t]
    by (simp add: LoadProfile_def GetString_def mem_redis_def redis_db7_def)
qed

theorem profile_survives_restart_witness:
  "\<exists>r' gm'. GetOrCreate 2 7 (boot_game mem_redis profile_text demo_opts
      (gm_db (handleConn_env 0 (game_msg MsgPlayerOfflineNotify 1 7) redis1))) = (Inr r', gm') \<and>
    p_Profile (gm_heap gm' r') = NewProfile 7 ''''"
proof -
  let ?b = "boot_game mem_redis profile_text demo_opts redis_db7"
  have b: "players_of ?b = Map.empty" "pm_store (gm_players ?b) = NewRedisStore mem_redis profile_text"
    "gm_db ?b = redis_db7" "gm_heapNext ?b = 0"
    by (simp_all add: boot_game_def NewGameServer_def NewPlayerManager_def)
  have g: "GetOrCreate 2 7 (boot_game mem_redis profile_text demo_opts
      (gm_db (handleConn_env 0 (game_msg MsgPlayerOfflineNotify 1 7) redis1))) =
    (Inr 0, snd (install_player 2 7 (NewProfile 7 '''') (?b\<lparr>gm_db := redis_db7\<rparr>)))"
    unfolding redis1_offline
    by (simp add: GetOrCreate_def create_player_def load_profile_def b NewRedisStore_def redis_db7_load case_prod_beta)
  have reach: "game_reach (NewRedisStore mem_redis profile_text) demo_opts (30 * second) Map.empty redis1"
    by (rule redis1_reach)
  have s: "fst (SaveProfile mem_redis profile_text (p_Profile (gm_heap redis1 0)) (gm_db redis1)) = None"
    by (simp add: redis1_state SaveProfile_def SetWithTTL_def mem_redis_def profile_text_def)
  have id: "RoleID (p_Profile (gm_heap redis1 0)) = 7" by (simp add: redis1_state)
  have p: "players_of redis1 7 = Some 0" by (simp add: redis1_state)
  show ?thesis
    using profile_survives_restart [OF mem.redis_laws_axioms reach p id _ _ _ s g] redis1_state(2) g
    by auto
qed

end
