(* ===== verification/GameRouter.thy ===== *)
theory GameRouter
  imports Link
begin

text \<open>
  The service's link to the game server (\<open>service/game_router.go\<close>): a bounded queue that
  exists once the router is started, a send that retries, a writer, and a dialling loop with
  backoff. It keeps the same promise as the gate's \<open>remoteClient\<close>.
\<close>

record GameRouter =
  gr_addr :: string
  gr_conn :: "nat option"
  gr_sendCh :: "Envelope chan option"
  gr_closed :: bool
  gr_sendRetryMax :: int
  gr_sendRetryDelay :: duration
  gr_busyCount :: uint64
  gr_dropCount :: uint64
  gr_backoff :: duration

definition NewGameRouter :: "string \<Rightarrow> int \<Rightarrow> duration \<Rightarrow> GameRouter" where
  "NewGameRouter addr retryMax retryDelay =
     \<lparr>gr_addr = addr, gr_conn = None, gr_sendCh = None, gr_closed = False,
      gr_sendRetryMax = retryMax, gr_sendRetryDelay = retryDelay, gr_busyCount = 0,
      gr_dropCount = 0, gr_backoff = second\<rparr>"

definition gr_Start :: "GameRouter \<Rightarrow> GameRouter" where
  "gr_Start r = r\<lparr>gr_sendCh := Some (make_chan 2048), gr_closed := False\<rparr>"

text \<open>One iteration of the writer; a send on or a receive from a nil channel never happens.\<close>

datatype router_write = RIdle | RDropped Envelope | RWritten Envelope

definition gr_writeStep :: "GameRouter \<Rightarrow> GameRouter \<times> router_write" where
  "gr_writeStep r =
     (case gr_sendCh r of
        None \<Rightarrow> (r, RIdle)
      | Some ch \<Rightarrow>
          (case try_recv ch of
             None \<Rightarrow> (r, RIdle)
           | Some (env, q) \<Rightarrow>
               (let r = r\<lparr>gr_sendCh := Some q\<rparr>
                in if gr_conn r = None then (r\<lparr>gr_dropCount := gr_dropCount r + 1\<rparr>, RDropped env)
                   else (r, RWritten env))))"

fun gr_writeSteps :: "nat \<Rightarrow> GameRouter \<Rightarrow> GameRouter" where
  "gr_writeSteps 0 r = r"
| "gr_writeSteps (Suc n) r = gr_writeSteps n (fst (gr_writeStep r))"

definition gr_try :: "Envelope \<Rightarrow> GameRouter \<Rightarrow> GameRouter option" where
  "gr_try env r =
     (case gr_sendCh r of
        None \<Rightarrow> None
      | Some ch \<Rightarrow> (case try_send env ch of None \<Rightarrow> None | Some q \<Rightarrow> Some (r\<lparr>gr_sendCh := Some q\<rparr>)))"

lemma gr_writeStep_frame [simp]:
  "gr_sendRetryMax (fst (gr_writeStep r)) = gr_sendRetryMax r"
  by (auto simp: gr_writeStep_def Let_def split: option.splits prod.splits)

lemma gr_writeSteps_frame [simp]: "gr_sendRetryMax (gr_writeSteps n r) = gr_sendRetryMax r"
  by (induction n arbitrary: r) simp_all

function gr_sendLoop ::
    "(int \<Rightarrow> nat) \<Rightarrow> int \<Rightarrow> Envelope \<Rightarrow> GameRouter \<Rightarrow> GameRouter \<times> go_error option" where
  "gr_sendLoop dr attempt env r =
     (if attempt \<le> gr_sendRetryMax r then
        (case gr_try env r of
           Some r' \<Rightarrow> (r', None)
         | None \<Rightarrow>
             (if attempt = gr_sendRetryMax r then
                (r\<lparr>gr_busyCount := gr_busyCount r + 1\<rparr>, Some InternalErrGameRouterBusy)
              else gr_sendLoop dr (attempt + 1) env (gr_writeSteps (dr attempt) r)))
      else (r, Some InternalErrGameRouterBusy))"
  by pat_completeness auto
termination
  by (relation "measure (\<lambda>(dr, attempt, env, r). nat (gr_sendRetryMax r + 1 - attempt))") auto

declare gr_sendLoop.simps [simp del]

definition gr_Send :: "(int \<Rightarrow> nat) \<Rightarrow> Envelope \<Rightarrow> GameRouter \<Rightarrow> GameRouter \<times> go_error option" where
  "gr_Send dr env r = gr_sendLoop dr 0 env r"

datatype router_dial = RDialFailed | RDialOk nat | RReadError

fun gr_dial_step :: "router_dial \<Rightarrow> GameRouter \<Rightarrow> GameRouter \<times> duration" where
  "gr_dial_step RDialFailed r =
     (if gr_conn r = None then
        (r\<lparr>gr_backoff := (if gr_backoff r < 5 * second then gr_backoff r * 2 else gr_backoff r)\<rparr>,
         gr_backoff r)
      else (r, 0))"
| "gr_dial_step (RDialOk k) r =
     (if gr_conn r = None then (r\<lparr>gr_conn := Some k, gr_backoff := second\<rparr>, 0) else (r, 0))"
| "gr_dial_step RReadError r = (r\<lparr>gr_conn := None\<rparr>, 0)"

subsection \<open>Order\<close>

definition gr_pending :: "GameRouter \<Rightarrow> Envelope list" where
  "gr_pending r = (case gr_sendCh r of None \<Rightarrow> [] | Some ch \<Rightarrow> ch_buf ch)"

lemma gr_writeStep_pending: "gr_pending (fst (gr_writeStep r)) = drop 1 (gr_pending r)"
  by (auto simp: gr_writeStep_def gr_pending_def try_recv_def Let_def split: option.splits list.splits)

lemma gr_writeSteps_pending: "gr_pending (gr_writeSteps n r) = drop n (gr_pending r)"
  by (induction n arbitrary: r) (simp_all add: gr_writeStep_pending)

lemma gr_try_pending: "gr_try env r = Some r' \<Longrightarrow> gr_pending r' = gr_pending r @ [env]"
  by (auto simp: gr_try_def gr_pending_def dest: ch.send_SomeD split: option.splits)

lemma gr_busy_pending [simp]: "gr_pending (r\<lparr>gr_busyCount := n\<rparr>) = gr_pending r"
  by (simp add: gr_pending_def)

lemma gr_sendLoop_pending:
  "gr_sendLoop dr a env r = (r', x) \<Longrightarrow>
     \<exists>k. gr_pending r' = drop k (gr_pending r) @ (if x = None then [env] else [])"
proof (induction dr a env r rule: gr_sendLoop.induct)
  case (1 dr a env r)
  show ?case
  proof (cases "gr_try env r = None \<and> a < gr_sendRetryMax r")
    case True
    then have le: "a \<le> gr_sendRetryMax r" and ne: "a \<noteq> gr_sendRetryMax r" and n: "gr_try env r = None"
      by auto
    with "1.prems" have rec: "gr_sendLoop dr (a + 1) env (gr_writeSteps (dr a) r) = (r', x)"
      by (simp add: gr_sendLoop.simps [of dr a env r])
    from "1.IH" [OF le n ne rec] obtain k where
      "gr_pending r' = drop k (drop (dr a) (gr_pending r)) @ (if x = None then [env] else [])"
      by (auto simp: gr_writeSteps_pending)
    then show ?thesis by (metis drop_drop)
  next
    case False
    with "1.prems" gr_try_pending [of env r] show ?thesis
      by (intro exI [of _ 0]) (auto simp: gr_sendLoop.simps [of dr a env r] split: if_splits option.splits)
  qed
qed

interpretation grl: ordered_link "gr_Send dr" gr_pending for dr
  by unfold_locales (unfold gr_Send_def, (drule gr_sendLoop_pending, simp)+)

text \<open>A send on a router that was never started is refused after the retries.\<close>

lemma gr_sendLoop_not_started:
  "gr_sendCh r = None \<Longrightarrow> snd (gr_sendLoop dr a env r) = Some InternalErrGameRouterBusy"
proof (induction dr a env r rule: gr_sendLoop.induct)
  case (1 dr a env r)
  have "gr_sendCh (gr_writeSteps n r) = None" for n
  proof (induction n)
    case (Suc n)
    have "gr_writeStep r = (r, RIdle)" using 1(2) by (simp add: gr_writeStep_def)
    with Suc show ?case by simp
  qed (simp add: 1)
  with 1 show ?case
    by (subst gr_sendLoop.simps) (auto simp: gr_try_def)
qed

lemma gr_Send_room:
  assumes "gr_sendCh r = Some ch" "length (ch_buf ch) < ch_cap ch" "0 \<le> gr_sendRetryMax r"
  shows "gr_Send dr env r = (r\<lparr>gr_sendCh := Some (ch\<lparr>ch_buf := ch_buf ch @ [env]\<rparr>)\<rparr>, None)"
  using assms by (simp add: gr_Send_def gr_sendLoop.simps [of dr 0 env r] gr_try_def try_send_def)

end
