(* ===== verification/Service.thy ===== *)
theory Service
  imports GameRouter Router Registry Conns LoginService
begin

text \<open>
  The service (\<open>internal/service\<close> and its modules): the module registry, the dispatcher, the
  login handler and the network server that remembers which gate speaks for a session and
  forwards game messages.
\<close>

subsection \<open>Modules and their registry\<close>

text \<open>The two modules. The handler a module registers is its method with the module bound.\<close>

datatype 'd Module = LoginModule "'d LoginService option" | ChatModule

datatype 'd HandlerFunc = OnLogin "'d LoginService" | OnChat

text \<open>The chat module, whose handler does nothing yet.\<close>

definition MsgChatSend :: int where "MsgChatSend = 2001"

definition chat_Name :: string where [simp]: "chat_Name = ''chat''"

definition chat_RegisterHandlers ::
    "'d HandlerFunc registry \<Rightarrow> 'd HandlerFunc registry \<times> go_error option" where
  [simp]: "chat_RegisterHandlers reg = Register MsgChatSend OnChat reg"

fun module_Name :: "'d Module \<Rightarrow> string" where
  "module_Name (LoginModule _) = ''login''"
| "module_Name ChatModule = chat_Name"

fun module_Init :: "'d Module \<Rightarrow> 'd Module \<times> go_error option" where
  "module_Init (LoginModule None) = (LoginModule (Some (NewLoginService None None)), None)"
| "module_Init (LoginModule (Some s)) = (LoginModule (Some s), None)"
| "module_Init ChatModule = (ChatModule, None)"

fun module_RegisterHandlers ::
    "'d Module \<Rightarrow> 'd HandlerFunc registry \<Rightarrow> 'd HandlerFunc registry \<times> go_error option" where
  "module_RegisterHandlers (LoginModule s) reg =
     Register MsgLoginReq (OnLogin (case s of None \<Rightarrow> NewLoginService None None | Some s \<Rightarrow> s)) reg"
| "module_RegisterHandlers ChatModule reg = chat_RegisterHandlers reg"

record 'd Registry =
  regModules :: "string \<Rightarrow> 'd Module option"
  regHandlers :: "'d HandlerFunc registry"

definition svc_NewRegistry :: "'d Registry" where
  "svc_NewRegistry = \<lparr>regModules = Map.empty, regHandlers = NewRegistry\<rparr>"

definition svc_Register :: "'d Module \<Rightarrow> 'd Registry \<Rightarrow> 'd Registry \<times> go_error option" where
  "svc_Register m r =
     (let name = module_Name m
      in if regModules r name \<noteq> None
         then (r, Some (LibError (''module '' @ name @ '' already registered'')))
         else
           (case module_Init m of
              (m, Some err) \<Rightarrow>
                (r, Some (LibError (''init module '' @ name @ '' failed: '' @ error_text err)))
            | (m, None) \<Rightarrow>
                (case module_RegisterHandlers m (regHandlers r) of
                   (hs, Some err) \<Rightarrow>
                     (r\<lparr>regHandlers := hs\<rparr>,
                      Some (LibError (''register handlers for module '' @ name @ '' failed: '' @
                              error_text err)))
                 | (hs, None) \<Rightarrow>
                     (r\<lparr>regHandlers := hs, regModules := (regModules r)(name \<mapsto> m)\<rparr>, None))))"

definition svc_GetHandler :: "int \<Rightarrow> 'd Registry \<Rightarrow> 'd HandlerFunc option" where
  "svc_GetHandler msgID r = RegGet msgID (regHandlers r)"

text \<open>\<open>service/server.go\<close>: a registry, and a dispatcher on that same registry.\<close>

record 'd Server =
  srvRegistry :: "'d Registry"

definition NewServer :: "'d Server" where
  "NewServer = \<lparr>srvRegistry = svc_NewRegistry\<rparr>"

definition RegisterModule :: "'d Module \<Rightarrow> 'd Server \<Rightarrow> 'd Server \<times> go_error option" where
  "RegisterModule m s =
     (let (reg, err) = svc_Register m (srvRegistry s) in (s\<lparr>srvRegistry := reg\<rparr>, err))"

subsection \<open>The network server\<close>

record 'd NetServer =
  nsRegistry :: "'d Registry"
  nsDb :: 'd
  nsGameRouter :: "nat option"
  nsRouters :: "nat \<Rightarrow> GameRouter"
  nsGateConns :: "int64 \<Rightarrow> BufferedConn option"
  nsNextGateID :: int64
  nsSessionGate :: "int64 \<Rightarrow> int64 option"
  nsPlayerRoute :: "int64 \<Rightarrow> nat option"
  nsDispatchQueues :: "Envelope chan list"
  nsClosing :: bool
  nsConnOptions :: ConnOptions

record senv =
  se_now :: time
  se_drain :: "int \<Rightarrow> nat"
  se_codec :: pb

record Context =
  cxSessionID :: int64
  cxPlayerID :: int64
  cxMsgID :: int
  cxPayload :: bytes
  cxTraceID :: string

definition NewNetServer :: "'d Registry \<Rightarrow> 'd \<Rightarrow> GameRouter option \<Rightarrow> ConnOptions \<Rightarrow> 'd NetServer" where
  "NewNetServer reg db router opts =
     \<lparr>nsRegistry = reg, nsDb = db,
      nsGameRouter = (case router of None \<Rightarrow> None | Some _ \<Rightarrow> Some 0),
      nsRouters = (\<lambda>_. case router of None \<Rightarrow> NewGameRouter '''' 0 0 | Some r \<Rightarrow> r),
      nsGateConns = Map.empty, nsNextGateID = 0, nsSessionGate = Map.empty,
      nsPlayerRoute = Map.empty, nsDispatchQueues = [], nsClosing = False, nsConnOptions = opts\<rparr>"

text \<open>\<open>ListenAndServe\<close> accepts a gate; \<open>i\<close> and \<open>out\<close> are the two directions of its socket.\<close>

definition acceptGate :: "instream \<Rightarrow> outstream \<Rightarrow> 'd NetServer \<Rightarrow> int64 \<times> 'd NetServer" where
  "acceptGate i out n =
     (let gateID = nsNextGateID n + 1;
          bc = NewBufferedConnWithOptions i out (nsConnOptions n)
      in (gateID, n\<lparr>nsNextGateID := gateID, nsGateConns := (nsGateConns n)(gateID \<mapsto> bc)\<rparr>))"

definition replyToGate ::
    "senv \<Rightarrow> int64 \<Rightarrow> int \<Rightarrow> bytes \<Rightarrow> 'd NetServer \<Rightarrow> 'd NetServer \<times> go_error option" where
  "replyToGate e sessionID msgID data n =
     (case nsSessionGate n sessionID of
        None \<Rightarrow> (n, Some InternalErrNoGateConnection)
      | Some gateID \<Rightarrow>
          (case nsGateConns n gateID of
             None \<Rightarrow> (n, Some InternalErrNoGateConnection)
           | Some c \<Rightarrow>
               (let (c, err) = bc_WriteEnvelope (se_codec e) (se_now e)
                      \<lparr>eMsgId = to_int32 msgID, eSessionId = sessionID, ePlayerId = 0, ePayload = data\<rparr> c
                in (n\<lparr>nsGateConns := (nsGateConns n)(gateID \<mapsto> c)\<rparr>, err))))"

definition ForwardToGate :: "senv \<Rightarrow> Envelope \<Rightarrow> 'd NetServer \<Rightarrow> 'd NetServer \<times> go_error option" where
  "ForwardToGate e env n = replyToGate e (eSessionId env) (msg_id env) (ePayload env) n"

definition routeToGame :: "senv \<Rightarrow> Envelope \<Rightarrow> 'd NetServer \<Rightarrow> 'd NetServer \<times> go_error option" where
  "routeToGame e env n =
     (case nsGameRouter n of
        None \<Rightarrow> (n, Some InternalErrRemoteNotReady)
      | Some gr \<Rightarrow>
          (let (router, n) =
                 (if ePlayerId env \<noteq> 0 then
                    (case nsPlayerRoute n (ePlayerId env) of
                       Some r \<Rightarrow> (r, n)
                     | None \<Rightarrow> (gr, n\<lparr>nsPlayerRoute := (nsPlayerRoute n)(ePlayerId env \<mapsto> gr)\<rparr>))
                  else (gr, n));
               (r, err) = gr_Send (se_drain e) env (nsRouters n router);
               n = n\<lparr>nsRouters := (nsRouters n)(router := r)\<rparr>;
               n = (if ePlayerId env \<noteq> 0 \<and> msg_id env = MsgPlayerOfflineNotify
                    then n\<lparr>nsPlayerRoute := (nsPlayerRoute n)(ePlayerId env := None)\<rparr> else n)
           in (n, err)))"

text \<open>\<open>makeReplyError\<close>.\<close>

definition replyError ::
    "senv \<Rightarrow> Context \<Rightarrow> ErrorCode \<Rightarrow> string \<Rightarrow> 'd NetServer \<Rightarrow> 'd NetServer \<times> go_error option" where
  "replyError e ctx code msg n =
     replyToGate e (cxSessionID ctx) MsgErrorRsp
       (or_nil (marshalErrorRsp (se_codec e) \<lparr>erCode = code_of code, erMessage = msg\<rparr>)) n"

subsection \<open>The login handler\<close>

definition login_verifyToken :: "int32 \<Rightarrow> string \<Rightarrow> go_error option" where
  "login_verifyToken platform token =
     (if token = '''' then Some InternalErrInvalidToken
      else if platform = PlatformTest then None
      else Some InternalErrUnknownPlatForm)"

text \<open>
  \<open>SetPlayerID\<close> writes the player into the envelope that \<open>SendToGame\<close> reads it from, which
  is why the enter-game request carries the player just resolved.
\<close>

definition finishLogin ::
    "senv \<Rightarrow> 'd LoginService \<Rightarrow> Context \<Rightarrow> LoginReq \<Rightarrow> 'd NetServer \<Rightarrow> 'd NetServer \<times> go_error option" where
  "finishLogin e svc ctx req n =
     (let accountID = (if lqAccountId req = '''' then lqToken req else lqAccountId req)
      in case ResolveRoleID svc accountID (nsDb n) of
           (Inl err, db) \<Rightarrow> (n\<lparr>nsDb := db\<rparr>, Some err)
         | (Inr (playerID, _), db) \<Rightarrow>
             (let n = n\<lparr>nsDb := db\<rparr>;
                  data = or_nil (marshalLoginRsp (se_codec e) \<lparr>lrPlayerId = playerID\<rparr>);
                  (n, _) = routeToGame e
                    \<lparr>eMsgId = to_int32 MsgPlayerEnterGameReq, eSessionId = cxSessionID ctx,
                     ePlayerId = playerID, ePayload = []\<rparr> n
              in replyToGate e (cxSessionID ctx) MsgLoginRsp data n))"

definition onLogin ::
    "senv \<Rightarrow> 'd LoginService \<Rightarrow> Context \<Rightarrow> 'd NetServer \<Rightarrow> 'd NetServer \<times> go_error option" where
  "onLogin e svc ctx n =
     (case unmarshalLoginReq (se_codec e) (cxPayload ctx) of
        None \<Rightarrow> (n, Some proto_error)
      | Some req \<Rightarrow>
          (if lqPlatform req = PlatformTest then finishLogin e svc ctx req n
           else if lqPlatform req \<in> {PlatformAndroid, PlatformIOS, PlatformPC} then
             (case login_verifyToken (lqPlatform req) (lqToken req) of
                Some err \<Rightarrow> replyError e ctx ErrInvalidToken (error_text err) n
              | None \<Rightarrow> finishLogin e svc ctx req n)
           else replyError e ctx ErrUnknownPlatform (error_text InternalErrUnknownPlatForm) n))"

subsection \<open>Dispatching\<close>

definition onChat :: "Context \<Rightarrow> 'd NetServer \<Rightarrow> 'd NetServer \<times> go_error option" where
  [simp]: "onChat ctx n = (n, None)"

fun run_handler ::
    "senv \<Rightarrow> 'd HandlerFunc \<Rightarrow> Context \<Rightarrow> 'd NetServer \<Rightarrow> 'd NetServer \<times> go_error option" where
  "run_handler e (OnLogin svc) ctx n = onLogin e svc ctx n"
| "run_handler e OnChat ctx n = onChat ctx n"

definition Dispatch :: "senv \<Rightarrow> Context \<Rightarrow> 'd NetServer \<Rightarrow> 'd NetServer" where
  "Dispatch e ctx n =
     (if cxMsgID ctx = MsgServicePing then fst (replyToGate e (cxSessionID ctx) MsgServicePong [] n)
      else (case svc_GetHandler (cxMsgID ctx) (nsRegistry n) of
              None \<Rightarrow> n
            | Some h \<Rightarrow> fst (run_handler e h ctx n)))"

definition Handle :: "senv \<Rightarrow> Context \<Rightarrow> 'd NetServer \<Rightarrow> 'd NetServer" where
  [simp]: "Handle e ctx n = Dispatch e ctx n"

definition dispatchEnvelope :: "senv \<Rightarrow> Envelope \<Rightarrow> 'd NetServer \<Rightarrow> 'd NetServer" where
  "dispatchEnvelope e env n =
     (if (case GetRoute (msg_id env) of None \<Rightarrow> False | Some rule \<Rightarrow> Target rule = TargetGame)
      then fst (routeToGame e env n)
      else Handle e
        \<lparr>cxSessionID = eSessionId env, cxPlayerID = ePlayerId env, cxMsgID = msg_id env,
         cxPayload = ePayload env, cxTraceID = ''session-'' @ dec_int (sint (eSessionId env))\<rparr> n)"

text \<open>\<open>handleGateConn\<close>: an envelope read from a gate, and the gate's connection ending.\<close>

definition handleGateConn_env :: "senv \<Rightarrow> int64 \<Rightarrow> Envelope \<Rightarrow> 'd NetServer \<Rightarrow> 'd NetServer" where
  "handleGateConn_env e gateID env n =
     (let n = (if eSessionId env \<noteq> 0
               then n\<lparr>nsSessionGate := (nsSessionGate n)(eSessionId env \<mapsto> gateID)\<rparr> else n)
      in dispatchEnvelope e env n)"

definition handleGateConn_end :: "int64 \<Rightarrow> 'd NetServer \<Rightarrow> 'd NetServer" where
  "handleGateConn_end gateID n =
     n\<lparr>nsGateConns := (nsGateConns n)(gateID := None),
       nsSessionGate := (\<lambda>sid. case nsSessionGate n sid of
                            Some gid \<Rightarrow> (if gid = gateID then None else Some gid) | None \<Rightarrow> None)\<rparr>"

text \<open>The dispatch queues, which the server declares and does not start.\<close>

definition startDispatchers :: "nat \<Rightarrow> 'd NetServer \<Rightarrow> 'd NetServer" where
  "startDispatchers cpuCount n =
     (if nsDispatchQueues n \<noteq> [] then n
      else n\<lparr>nsDispatchQueues := replicate (if cpuCount > 0 then cpuCount * 2 else 4) (make_chan 4096)\<rparr>)"

definition enqueueEnvelope :: "Envelope \<Rightarrow> 'd NetServer \<Rightarrow> 'd NetServer" where
  "enqueueEnvelope env n =
     (if nsClosing n \<or> length (nsDispatchQueues n) = 0 then n
      else (let index = go_rem (sint (eSessionId env)) (int (length (nsDispatchQueues n)));
                i = nat (if index < 0 then - index else index)
            in case try_send env (nsDispatchQueues n ! i) of
                 None \<Rightarrow> n
               | Some q \<Rightarrow> n\<lparr>nsDispatchQueues := (nsDispatchQueues n)[i := q]\<rparr>))"

text \<open>The service as \<open>cmd/service/main.go\<close> starts it.\<close>

definition boot_registry :: "'d LoginService \<Rightarrow> 'd Registry" where
  "boot_registry svc =
     fst (svc_Register ChatModule (fst (svc_Register (LoginModule (Some svc)) svc_NewRegistry)))"

definition boot_service :: "string \<Rightarrow> ConnOptions \<Rightarrow> 'd LoginService \<Rightarrow> 'd \<Rightarrow> 'd NetServer" where
  "boot_service gameAddr opts svc db =
     NewNetServer (boot_registry svc) db (Some (gr_Start (NewGameRouter gameAddr 2 5000000))) opts"

end
