(* ===== verification/ServiceFacts.thy ===== *)
theory ServiceFacts
  imports Service
begin

text \<open>
  The service as a state machine, what each of its operations leaves unchanged, and the
  invariant of its routes. An event is one thing a goroutine does: accept a gate, handle an
  envelope from a gate, notice that a gate has left, hand an envelope of the game server to its
  gate, one step of the router's writer or dialler.
\<close>

datatype svc_event =
    GateConnects instream outstream
  | GateSends int64 Envelope
  | GateLeaves int64
  | GameSends Envelope
  | RouterWrites
  | RouterDials router_dial

definition upd_router :: "(GameRouter \<Rightarrow> GameRouter) \<Rightarrow> 'd NetServer \<Rightarrow> 'd NetServer" where
  "upd_router f n =
     (case nsGameRouter n of
        None \<Rightarrow> n | Some gr \<Rightarrow> n\<lparr>nsRouters := (nsRouters n)(gr := f (nsRouters n gr))\<rparr>)"

fun svc_step :: "senv \<Rightarrow> svc_event \<Rightarrow> 'd NetServer \<Rightarrow> 'd NetServer" where
  "svc_step e (GateConnects i out) n = snd (acceptGate i out n)"
| "svc_step e (GateSends g env) n = handleGateConn_env e g env n"
| "svc_step e (GateLeaves g) n = handleGateConn_end g n"
| "svc_step e (GameSends env) n = fst (ForwardToGate e env n)"
| "svc_step e RouterWrites n = upd_router (\<lambda>r. fst (gr_writeStep r)) n"
| "svc_step e (RouterDials d) n = upd_router (\<lambda>r. fst (gr_dial_step d r)) n"

fun svc_enabled :: "svc_event \<Rightarrow> 'd NetServer \<Rightarrow> bool" where
  "svc_enabled (GateSends g env) n \<longleftrightarrow> nsGateConns n g \<noteq> None"
| "svc_enabled (GateLeaves g) n \<longleftrightarrow> nsGateConns n g \<noteq> None"
| "svc_enabled _ n \<longleftrightarrow> True"

fun svc_run :: "(senv \<times> svc_event) list \<Rightarrow> 'd NetServer \<Rightarrow> 'd NetServer" where
  "svc_run [] n = n"
| "svc_run ((e, ev) # tr) n = svc_run tr (svc_step e ev n)"

fun svc_run_ok :: "(senv \<times> svc_event) list \<Rightarrow> 'd NetServer \<Rightarrow> bool" where
  "svc_run_ok [] n = True"
| "svc_run_ok ((e, ev) # tr) n = (svc_enabled ev n \<and> svc_run_ok tr (svc_step e ev n))"

subsection \<open>What the operations leave unchanged\<close>

text \<open>Replies and routing change neither the routes of the sessions nor which gates are there.\<close>

definition same_routes :: "'d NetServer \<Rightarrow> 'd NetServer \<Rightarrow> bool" where
  "same_routes n n' \<longleftrightarrow> nsSessionGate n' = nsSessionGate n \<and> nsNextGateID n' = nsNextGateID n \<and>
     (\<forall>g. nsGateConns n' g = None \<longleftrightarrow> nsGateConns n g = None) \<and> nsGameRouter n' = nsGameRouter n \<and>
     nsRegistry n' = nsRegistry n \<and>
     (\<forall>p r. nsPlayerRoute n' p = Some r \<longrightarrow> nsPlayerRoute n p = Some r \<or> nsGameRouter n = Some r)"

lemma same_routes_refl [simp]: "same_routes n n"
  by (simp add: same_routes_def)

lemma same_routes_trans: "same_routes n m \<Longrightarrow> same_routes m k \<Longrightarrow> same_routes n k"
  unfolding same_routes_def by metis

lemma same_routes_reply [simp]: "same_routes n (fst (replyToGate e sid m data n))"
  by (auto simp: same_routes_def replyToGate_def Let_def split: option.split prod.split)

lemma same_routes_route [simp]: "same_routes n (fst (routeToGame e env n))"
  by (auto simp: same_routes_def routeToGame_def Let_def split: option.split prod.split)

lemma same_routes_db [simp]: "same_routes n (n\<lparr>nsDb := d\<rparr>)"
  by (simp add: same_routes_def)

lemma same_routes_router [simp]: "same_routes n (upd_router f n)"
  by (simp add: same_routes_def upd_router_def split: option.split)

lemma same_routes_finish: "same_routes n (fst (finishLogin e svc ctx req n))"
proof (cases "ResolveRoleID svc (if lqAccountId req = '''' then lqToken req else lqAccountId req) (nsDb n)")
  case (Pair res db)
  show ?thesis
  proof (cases res)
    case (Inl err)
    with Pair show ?thesis by (simp add: finishLogin_def Let_def)
  next
    case (Inr pb)
    let ?env = "\<lparr>eMsgId = to_int32 MsgPlayerEnterGameReq, eSessionId = cxSessionID ctx,
                 ePlayerId = fst pb, ePayload = []\<rparr>"
    have "same_routes n (fst (routeToGame e ?env (n\<lparr>nsDb := db\<rparr>)))"
      by (rule same_routes_trans [OF same_routes_db same_routes_route])
    with Pair Inr show ?thesis
      by (auto simp: finishLogin_def Let_def split: prod.split intro: same_routes_trans [OF _ same_routes_reply])
  qed
qed

lemma same_routes_onLogin: "same_routes n (fst (onLogin e svc ctx n))"
  by (simp add: onLogin_def replyError_def same_routes_finish split: option.split)

lemma same_routes_Dispatch [simp]: "same_routes n (Dispatch e ctx n)"
proof -
  have "same_routes n (fst (run_handler e h ctx n))" for h
    by (cases h) (simp_all add: same_routes_onLogin)
  then show ?thesis by (simp add: Dispatch_def split: option.split)
qed

lemma same_routes_dispatchEnvelope: "same_routes n (dispatchEnvelope e env n)"
  by (simp add: dispatchEnvelope_def)

lemma dispatch_static [simp]:
  "nsRegistry (dispatchEnvelope e env n) = nsRegistry n"
  "nsGameRouter (dispatchEnvelope e env n) = nsGameRouter n"
  "nsSessionGate (dispatchEnvelope e env n) = nsSessionGate n"
  "nsGateConns (dispatchEnvelope e env n) g = None \<longleftrightarrow> nsGateConns n g = None"
  using same_routes_dispatchEnvelope [of n e env] by (simp_all add: same_routes_def)

lemma reply_static [simp]:
  "nsRegistry (fst (replyToGate e sid m data n)) = nsRegistry n"
  "nsGameRouter (fst (replyToGate e sid m data n)) = nsGameRouter n"
  "nsSessionGate (fst (replyToGate e sid m data n)) = nsSessionGate n"
  using same_routes_reply [of n e sid m data] by (simp_all add: same_routes_def)

text \<open>What a step keeps of the server's settings.\<close>

lemma svc_step_static [simp]:
  "nsRegistry (svc_step e ev n) = nsRegistry n" "nsGameRouter (svc_step e ev n) = nsGameRouter n"
  by (cases ev; simp add: handleGateConn_env_def ForwardToGate_def acceptGate_def handleGateConn_end_def
      Let_def upd_router_def split: option.split)+

lemma svc_run_static [simp]:
  "nsRegistry (svc_run tr n) = nsRegistry n" "nsGameRouter (svc_run tr n) = nsGameRouter n"
  by (induction tr n rule: svc_run.induct) simp_all

subsection \<open>The invariant\<close>

text \<open>Every session's gate is connected, and players are only routed to the one router.\<close>

definition svc_inv :: "'d NetServer \<Rightarrow> bool" where
  "svc_inv n \<longleftrightarrow> (\<forall>sid g. nsSessionGate n sid = Some g \<longrightarrow> nsGateConns n g \<noteq> None) \<and>
     nsSessionGate n 0 = None \<and>
     (\<forall>p r. nsPlayerRoute n p = Some r \<longrightarrow> nsGameRouter n = Some r)"

lemma svc_inv_same: "svc_inv n \<Longrightarrow> same_routes n n' \<Longrightarrow> svc_inv n'"
  unfolding svc_inv_def same_routes_def by metis

lemma svc_inv_step:
  assumes inv: "svc_inv n" and en: "svc_enabled ev n"
  shows "svc_inv (svc_step e ev n)"
proof (cases ev)
  case (GateSends g env)
  let ?n = "if eSessionId env \<noteq> 0 then n\<lparr>nsSessionGate := (nsSessionGate n)(eSessionId env \<mapsto> g)\<rparr> else n"
  have "svc_inv ?n" using inv en GateSends by (auto simp: svc_inv_def)
  then have "svc_inv (dispatchEnvelope e env ?n)" by (rule svc_inv_same [OF _ same_routes_dispatchEnvelope])
  then show ?thesis by (simp add: GateSends handleGateConn_env_def)
next
  case (GateLeaves g)
  with inv show ?thesis by (auto simp: svc_inv_def handleGateConn_end_def split: option.splits if_splits)
next
  case (GateConnects i out)
  with inv show ?thesis by (auto simp: svc_inv_def acceptGate_def Let_def)
qed (simp_all add: ForwardToGate_def svc_inv_same [OF inv])

lemma svc_inv_boot: "svc_inv (boot_service addr opts svc db)"
  by (simp add: svc_inv_def boot_service_def NewNetServer_def)

lemma svc_inv_run: "svc_inv n \<Longrightarrow> svc_run_ok tr n \<Longrightarrow> svc_inv (svc_run tr n)"
  by (induction tr n rule: svc_run.induct) (simp_all add: svc_inv_step)

subsection \<open>The registry\<close>

text \<open>The booted service has a handler for the login request and one for chat, and no other.\<close>

lemma boot_handlers:
  "svc_GetHandler i (boot_registry svc) =
     (if i = MsgLoginReq then Some (OnLogin svc) else if i = MsgChatSend then Some OnChat else None)"
  by (simp add: boot_registry_def svc_Register_def svc_NewRegistry_def svc_GetHandler_def Register_def
      RegGet_def NewRegistry_def route_simps MsgChatSend_def Let_def)

lemma boot_registers_ok:
  "snd (svc_Register ChatModule (fst (svc_Register (LoginModule (Some svc)) svc_NewRegistry))) = None"
  "snd (svc_Register (LoginModule (Some svc)) svc_NewRegistry) = None"
  by (simp_all add: svc_Register_def svc_NewRegistry_def Register_def NewRegistry_def route_simps
      MsgChatSend_def Let_def)

end
