(* ===== verification/ServiceProps.thy ===== *)
theory ServiceProps
  imports ServiceFacts GameScenario
begin

text \<open>
  Properties of the service: where replies go, what a login does in every case, which messages
  go to the game server, and what two gates with the same session ids do to each other.
\<close>

text \<open>Who spoke last for each session, read off the history alone.\<close>

fun speaks :: "svc_event \<Rightarrow> (int64 \<Rightarrow> int64 option) \<Rightarrow> int64 \<Rightarrow> int64 option" where
  "speaks (GateSends g env) m = (if eSessionId env = 0 then m else m(eSessionId env \<mapsto> g))"
| "speaks (GateLeaves g) m = (\<lambda>sid. if m sid = Some g then None else m sid)"
| "speaks _ m = m"

definition last_speaker :: "(senv \<times> svc_event) list \<Rightarrow> int64 \<Rightarrow> int64 option" where
  "last_speaker tr = fold (\<lambda>(e, ev). speaks ev) tr Map.empty"

lemma nsSessionGate_step: "nsSessionGate (svc_step e ev n) = speaks ev (nsSessionGate n)"
  by (cases ev) (auto simp: handleGateConn_env_def ForwardToGate_def acceptGate_def
      handleGateConn_end_def Let_def upd_router_def split: option.split)

lemma nsSessionGate_run:
  "nsSessionGate (svc_run tr n) = fold (\<lambda>(e, ev). speaks ev) tr (nsSessionGate n)"
  by (induction tr n rule: svc_run.induct) (simp_all add: nsSessionGate_step)

text \<open>
  C30: Replies follow the last speaker. After any history, an envelope for a session is written to
  the connection of the gate that last sent an envelope for it and is still connected, as one
  envelope with the session's id, and changes nothing else; if there is no such gate the service
  reports that there is no gate connection and changes nothing.
\<close>

theorem replies_follow_last_speaker:
  assumes "svc_run_ok tr (boot_service addr opts svc db)"
    and "n = svc_run tr (boot_service addr opts svc db)"
  shows "case last_speaker tr sid of
      None \<Rightarrow> replyToGate e sid m data n = (n, Some InternalErrNoGateConnection)
    | Some g \<Rightarrow> (\<exists>c. nsGateConns n g = Some c \<and>
        replyToGate e sid m data n =
          (n\<lparr>nsGateConns := (nsGateConns n)(g \<mapsto> fst (bc_WriteEnvelope (se_codec e) (se_now e)
              \<lparr>eMsgId = to_int32 m, eSessionId = sid, ePlayerId = 0, ePayload = data\<rparr> c))\<rparr>,
           snd (bc_WriteEnvelope (se_codec e) (se_now e)
              \<lparr>eMsgId = to_int32 m, eSessionId = sid, ePlayerId = 0, ePayload = data\<rparr> c)))"
proof -
  have inv: "svc_inv n" using svc_inv_run [OF svc_inv_boot assms(1)] assms(2) by simp
  have sg: "nsSessionGate n = last_speaker tr"
    by (simp add: assms(2) nsSessionGate_run last_speaker_def boot_service_def NewNetServer_def)
  show ?thesis
  proof (cases "last_speaker tr sid")
    case None
    then show ?thesis by (simp add: replyToGate_def sg)
  next
    case (Some g)
    with inv sg have "nsGateConns n g \<noteq> None" unfolding svc_inv_def by metis
    then obtain c where "nsGateConns n g = Some c" by blast
    with Some show ?thesis by (simp add: replyToGate_def sg case_prod_beta)
  qed
qed

definition demo_senv :: senv where
  "demo_senv = \<lparr>se_now = 0, se_drain = (\<lambda>_. 0), se_codec = game_pb\<rparr>"

definition chat_msg :: "int64 \<Rightarrow> Envelope" where
  "chat_msg sid = \<lparr>eMsgId = 2001, eSessionId = sid, ePlayerId = 0, ePayload = []\<rparr>"

definition two_gates :: "(senv \<times> svc_event) list" where
  "two_gates = map (Pair demo_senv)
     [GateConnects idle_in idle_out, GateConnects idle_in idle_out, GateSends 1 (chat_msg 1),
      GateSends 2 (chat_msg 1)]"

definition no_store :: "unit LoginService" where
  "no_store = NewLoginService None None"

lemma chat_msg_dispatch [simp]:
  "nsRegistry n = boot_registry svc \<Longrightarrow> dispatchEnvelope e (chat_msg sid) n = n"
  by (simp add: dispatchEnvelope_def chat_msg_def GetRoute_def route_simps Dispatch_def boot_handlers
      MsgChatSend_def)

lemma two_gates_ok: "svc_run_ok two_gates (boot_service '''' demo_opts no_store ())"
  by (simp add: two_gates_def acceptGate_def Let_def handleGateConn_env_def boot_service_def
      NewNetServer_def)

theorem replies_follow_last_speaker_witness:
  "last_speaker two_gates 1 = Some 2 \<and>
   (\<exists>c. nsGateConns (svc_run two_gates (boot_service '''' demo_opts no_store ())) 2 = Some c)"
proof -
  have "last_speaker two_gates 1 = Some 2"
    by (simp add: last_speaker_def two_gates_def chat_msg_def)
  with replies_follow_last_speaker [OF two_gates_ok refl, where sid = 1 and e = demo_senv and m = 0]
  show ?thesis by auto
qed

subsection \<open>Login\<close>

text \<open>
  Only the test platform can log in. For every other platform the handler answers with an
  error and does nothing else: Android, iOS and PC are refused as an invalid token whatever the
  token is, any other platform as unknown.
\<close>

lemma only_test_platform_logs_in:
  assumes "unmarshalLoginReq (se_codec e) (cxPayload ctx) = Some req"
    and "lqPlatform req \<noteq> PlatformTest"
  shows "onLogin e svc ctx n =
    replyToGate e (cxSessionID ctx) MsgErrorRsp
      (or_nil (marshalErrorRsp (se_codec e)
        (if lqPlatform req = 1 \<or> lqPlatform req = 2 \<or> lqPlatform req = 3
         then \<lparr>erCode = 1003,
               erMessage = if lqToken req = '''' then ''invalid token'' else ''unknown platform''\<rparr>
         else \<lparr>erCode = 10005, erMessage = ''unknown platform''\<rparr>))) n"
proof -
  have "lqPlatform req \<noteq> 0" using assms(2) by (simp add: PlatformTest_def)
  then show ?thesis using assms
    by (simp add: onLogin_def replyError_def login_verifyToken_def PlatformAndroid_def PlatformIOS_def
        PlatformPC_def PlatformTest_def)
qed

text \<open>The account a login request names.\<close>

definition login_account :: "LoginReq \<Rightarrow> string" where
  "login_account req = (if lqAccountId req = '''' then lqToken req else lqAccountId req)"

lemma routeToGame_room:
  assumes "nsGameRouter n = Some gr" and "nsPlayerRoute n p = None \<or> nsPlayerRoute n p = Some gr"
    and "gr_sendCh (nsRouters n gr) = Some ch" and "length (ch_buf ch) < ch_cap ch"
    and "0 \<le> gr_sendRetryMax (nsRouters n gr)" and "ePlayerId env = p"
  shows "gr_pending (nsRouters (fst (routeToGame e env n)) gr) = gr_pending (nsRouters n gr) @ [env]"
    "nsDb (fst (routeToGame e env n)) = nsDb n" "nsGateConns (fst (routeToGame e env n)) = nsGateConns n"
    "snd (routeToGame e env n) = None"
  using assms
  by (auto simp: routeToGame_def gr_Send_room [OF assms(3-5)] gr_pending_def Let_def split: option.split)

text \<open>
  A login on the test platform that resolves a role does two things with it: it asks the game
  server to let the player enter, behind everything already queued, and answers the gate that
  speaks for the session with the player's id; the account named by the request, or by the token
  when it names none, then has that role in the database.
\<close>

lemma onLogin_resolves:
  assumes "redis_laws rd view jc" and "role_table_ok (redis_roles view (nsDb n)) (redis_counter view (nsDb n))"
    and "unmarshalLoginReq (se_codec e) (cxPayload ctx) = Some req" and "lqPlatform req = PlatformTest"
    and "login_account req \<noteq> ''''"
    and "ResolveRoleID (redis_login_service rd jc) (login_account req) (nsDb n) = (Inr (p, x), d')"
    and "nsGameRouter n = Some gr" and "nsPlayerRoute n p = None \<or> nsPlayerRoute n p = Some gr"
    and "gr_sendCh (nsRouters n gr) = Some ch" and "length (ch_buf ch) < ch_cap ch"
    and "0 \<le> gr_sendRetryMax (nsRouters n gr)"
    and "nsSessionGate n (cxSessionID ctx) = Some g" and "nsGateConns n g = Some c"
  shows "redis_roles view (nsDb (fst (onLogin e (redis_login_service rd jc) ctx n))) (login_account req) = Some p \<and>
    gr_pending (nsRouters (fst (onLogin e (redis_login_service rd jc) ctx n)) gr) =
      gr_pending (nsRouters n gr) @
        [\<lparr>eMsgId = to_int32 MsgPlayerEnterGameReq, eSessionId = cxSessionID ctx, ePlayerId = p, ePayload = []\<rparr>] \<and>
    nsGateConns (fst (onLogin e (redis_login_service rd jc) ctx n)) g =
      Some (fst (bc_WriteEnvelope (se_codec e) (se_now e)
        \<lparr>eMsgId = to_int32 MsgLoginRsp, eSessionId = cxSessionID ctx, ePlayerId = 0,
         ePayload = or_nil (marshalLoginRsp (se_codec e) \<lparr>lrPlayerId = p\<rparr>)\<rparr> c))"
proof -
  let ?svc = "redis_login_service rd jc" and ?sid = "cxSessionID ctx"
  let ?enter = "\<lparr>eMsgId = to_int32 MsgPlayerEnterGameReq, eSessionId = ?sid, ePlayerId = p, ePayload = []\<rparr>"
  let ?data = "or_nil (marshalLoginRsp (se_codec e) \<lparr>lrPlayerId = p\<rparr>)"
  have role: "redis_roles view d' (login_account req) = Some p"
    by (rule redis_laws.resolve_one [OF assms(1,2,6,5)])
  define m where "m = fst (routeToGame e ?enter (n\<lparr>nsDb := d'\<rparr>))"
  note m = routeToGame_room [where n = "n\<lparr>nsDb := d'\<rparr>" and env = ?enter and p = p and gr = gr
      and ch = ch and e = e, simplified, OF assms(7-11), folded m_def]
  have sg: "nsSessionGate m ?sid = Some g"
    using same_routes_route [of "n\<lparr>nsDb := d'\<rparr>" e ?enter] assms(12) by (simp add: same_routes_def m_def)
  have "fst (onLogin e ?svc ctx n) = fst (replyToGate e ?sid MsgLoginRsp ?data m)"
    using assms(3,4,6)
    by (simp add: onLogin_def finishLogin_def login_account_def Let_def m_def case_prod_beta)
  also have "\<dots> = m\<lparr>nsGateConns := (nsGateConns m)(g \<mapsto> fst (bc_WriteEnvelope (se_codec e) (se_now e)
        \<lparr>eMsgId = to_int32 MsgLoginRsp, eSessionId = ?sid, ePlayerId = 0, ePayload = ?data\<rparr> c))\<rparr>"
    using sg m(3) assms(13) by (simp add: replyToGate_def case_prod_beta)
  finally show ?thesis using m role by simp
qed

text \<open>A login request with an account, on a fresh service with one gate.\<close>

definition test_pb :: pb where
  "test_pb = game_pb\<lparr>unmarshalLoginReq := (\<lambda>_. Some \<lparr>lqToken = ''t'', lqPlatform = 0, lqAccountId = ''ann''\<rparr>),
     marshalLoginRsp := (\<lambda>r. Some [ucast (lrPlayerId r)])\<rparr>"

definition one_gate :: "(string \<Rightarrow> string option) NetServer" where
  "one_gate = (snd (acceptGate idle_in idle_out
      (boot_service '''' demo_opts (redis_login_service mem_redis profile_text) Map.empty)))
     \<lparr>nsSessionGate := [1 \<mapsto> 1]\<rparr>"

lemma one_gate_simps [simp]:
  "nsDb one_gate = Map.empty" "nsGameRouter one_gate = Some 0" "nsPlayerRoute one_gate = Map.empty"
  "nsSessionGate one_gate = [1 \<mapsto> 1]"
  "nsGateConns one_gate = [1 \<mapsto> NewBufferedConnWithOptions idle_in idle_out demo_opts]"
  "nsRouters one_gate 0 = gr_Start (NewGameRouter '''' 2 5000000)"
  by (simp_all add: one_gate_def acceptGate_def Let_def boot_service_def NewNetServer_def)

subsection \<open>Game messages\<close>

text \<open>The service's handling of an envelope, on what the game server will receive.\<close>

lemma to_game_iff:
  "(case GetRoute i of None \<Rightarrow> False | Some rule \<Rightarrow> Target rule = TargetGame) \<longleftrightarrow> 3000 \<le> i \<and> i < 4000"
  using GetRoute_game_iff [of i] by (auto split: option.splits)

lemma routeToGame_pending:
  assumes "nsGameRouter n = Some gr" and "nsPlayerRoute n (ePlayerId env) = None \<or> nsPlayerRoute n (ePlayerId env) = Some gr"
  shows "\<exists>k. gr_pending (nsRouters (fst (routeToGame e env n)) gr) =
      drop k (gr_pending (nsRouters n gr)) @ (if snd (routeToGame e env n) = None then [env] else [])"
    and "nsDb (fst (routeToGame e env n)) = nsDb n" "nsGateConns (fst (routeToGame e env n)) = nsGateConns n"
proof -
  obtain r err where s: "gr_Send (se_drain e) env (nsRouters n gr) = (r, err)" by force
  have "\<exists>k. gr_pending r = drop k (gr_pending (nsRouters n gr)) @ (if err = None then [env] else [])"
    using s gr_sendLoop_pending [of "se_drain e" 0 env "nsRouters n gr" r err] by (simp add: gr_Send_def)
  with assms s show "\<exists>k. gr_pending (nsRouters (fst (routeToGame e env n)) gr) =
      drop k (gr_pending (nsRouters n gr)) @ (if snd (routeToGame e env n) = None then [env] else [])"
    and "nsDb (fst (routeToGame e env n)) = nsDb n" "nsGateConns (fst (routeToGame e env n)) = nsGateConns n"
    by (auto simp: routeToGame_def Let_def split: option.split)
qed

text \<open>
  Game messages bypass the service's modules and only they reach the game server. In every
  state the service can get to, an envelope in the range of the game goes unchanged to the end of
  the queue to the game server, or is refused when that is full, while the database and the
  gates' connections stay as they are; an envelope outside that range, unless it is a login
  request, touches neither that queue nor the database.
\<close>

lemma only_game_messages_reach_game:
  assumes "svc_run_ok tr (boot_service addr opts svc db)"
    and "n = svc_run tr (boot_service addr opts svc db)"
  shows "if 3000 \<le> msg_id env \<and> msg_id env < 4000
    then nsDb (dispatchEnvelope e env n) = nsDb n \<and> nsGateConns (dispatchEnvelope e env n) = nsGateConns n \<and>
         (\<exists>k. gr_pending (nsRouters (dispatchEnvelope e env n) 0) =
            drop k (gr_pending (nsRouters n 0)) @ (if snd (routeToGame e env n) = None then [env] else []))
    else msg_id env \<noteq> 1001 \<longrightarrow>
         nsDb (dispatchEnvelope e env n) = nsDb n \<and> nsRouters (dispatchEnvelope e env n) = nsRouters n"
proof -
  have inv: "svc_inv n" using svc_inv_run [OF svc_inv_boot assms(1)] assms(2) by simp
  have gr: "nsGameRouter n = Some 0"
    by (simp add: assms(2) boot_service_def NewNetServer_def)
  have pr: "nsPlayerRoute n (ePlayerId env) = None \<or> nsPlayerRoute n (ePlayerId env) = Some 0"
    using inv gr unfolding svc_inv_def by (metis option.exhaust option.inject)
  show ?thesis
  proof (cases "3000 \<le> msg_id env \<and> msg_id env < 4000")
    case True
    then have d: "dispatchEnvelope e env n = fst (routeToGame e env n)"
      using to_game_iff [of "msg_id env"] by (simp add: dispatchEnvelope_def)
    show ?thesis using True routeToGame_pending [OF gr pr, of e] by (simp add: d)
  next
    case False
    have reply: "nsDb (fst (replyToGate e sid i data n)) = nsDb n \<and>
        nsRouters (fst (replyToGate e sid i data n)) = nsRouters n" for sid i data
      by (simp add: replyToGate_def Let_def split: option.split prod.split)
    have reg: "nsRegistry n = boot_registry svc" by (simp add: assms(2) boot_service_def NewNetServer_def)
    have "\<not> (case GetRoute (msg_id env) of None \<Rightarrow> False | Some rule \<Rightarrow> Target rule = TargetGame)"
      using False to_game_iff by blast
    then show ?thesis unfolding if_not_P [OF False] using reply
      by (simp add: dispatchEnvelope_def Dispatch_def reg boot_handlers route_simps)
  qed
qed

lemma only_game_messages_reach_game_witness:
  "\<exists>k. gr_pending (nsRouters (dispatchEnvelope demo_senv (game_msg MsgPlayerEnterGameReq 1 7)
      (boot_service '''' demo_opts no_store ())) 0) =
    drop k [] @ [game_msg MsgPlayerEnterGameReq 1 7]"
proof -
  have s: "snd (routeToGame demo_senv (game_msg MsgPlayerEnterGameReq 1 7) (boot_service '''' demo_opts no_store ())) = None"
    by (rule routeToGame_room(4) [where gr = 0 and ch = "make_chan 2048"])
      (simp_all add: boot_service_def NewNetServer_def gr_Start_def NewGameRouter_def)
  have p: "gr_pending (nsRouters (boot_service '''' demo_opts no_store ()) 0) = []"
    by (simp add: boot_service_def NewNetServer_def gr_Start_def gr_pending_def)
  have "3000 \<le> MsgPlayerEnterGameReq" "MsgPlayerEnterGameReq < 4000" by (simp_all add: route_simps)
  then show ?thesis
    using only_game_messages_reach_game [of "[]" "''''" demo_opts no_store "()" _
        "game_msg MsgPlayerEnterGameReq 1 7" demo_senv] s p
    by simp
qed

subsection \<open>Two gates\<close>

text \<open>
  Two gates that use the same session id take it from each other. Once a second gate has
  sent an envelope for a session id, replies for the first gate's session go to the second gate;
  and when the second gate leaves, the first gate's session gets no replies at all, although its
  gate is still connected.
\<close>

lemma gates_share_session_ids:
  assumes "svc_run_ok tr (boot_service addr opts svc db)"
    and "n = svc_run tr (boot_service addr opts svc db)"
    and "nsGateConns n gA \<noteq> None" and "nsGateConns n gB \<noteq> None" and "gA \<noteq> gB"
    and "eSessionId envA = sid" and "eSessionId envB = sid" and "sid \<noteq> 0"
  shows "nsSessionGate (handleGateConn_env e gB envB (handleGateConn_env e gA envA n)) sid = Some gB \<and>
    snd (replyToGate e sid m data (handleGateConn_end gB
      (handleGateConn_env e gB envB (handleGateConn_env e gA envA n)))) = Some InternalErrNoGateConnection \<and>
    nsGateConns (handleGateConn_end gB (handleGateConn_env e gB envB (handleGateConn_env e gA envA n))) gA \<noteq> None"
proof -
  have sg: "nsSessionGate (handleGateConn_env e g env k) = speaks (GateSends g env) (nsSessionGate k)"
    for g env and k :: "'a NetServer"
    using nsSessionGate_step [of e "GateSends g env" k] by simp
  have gc: "nsGateConns (handleGateConn_env e g env k) a = None \<longleftrightarrow> nsGateConns k a = None"
    for g env a and k :: "'a NetServer"
    by (simp add: handleGateConn_env_def)
  show ?thesis using assms(3-8) by (auto simp: sg gc replyToGate_def handleGateConn_end_def)
qed

lemma gates_share_session_ids_witness:
  "nsSessionGate (handleGateConn_env demo_senv 2 (chat_msg 1) (handleGateConn_env demo_senv 1 (chat_msg 1)
     (svc_run two_gates (boot_service '''' demo_opts no_store ())))) 1 = Some 2"
proof -
  have "nsGateConns (svc_run two_gates (boot_service '''' demo_opts no_store ())) g \<noteq> None"
    if "g = 1 \<or> g = 2" for g
    using that by (auto simp: two_gates_def acceptGate_def Let_def handleGateConn_env_def boot_service_def
        NewNetServer_def)
  then show ?thesis
    using gates_share_session_ids [OF two_gates_ok refl, where gA = 1 and gB = 2 and sid = 1 and
        envA = "chat_msg 1" and envB = "chat_msg 1" and e = demo_senv]
    by (simp add: chat_msg_def)
qed

end
