(* ===== verification/ServiceOrder.thy ===== *)
theory ServiceOrder
  imports ServiceProps
begin

text \<open>
  The stream of envelopes that the service hands to its link with the game server, read off the
  history of events, and that the link's writer sends exactly that stream.
\<close>

subsection \<open>What an event offers to the game server\<close>

definition enter_request :: "int64 \<Rightarrow> int64 \<Rightarrow> Envelope" where
  "enter_request sid p =
     \<lparr>eMsgId = to_int32 MsgPlayerEnterGameReq, eSessionId = sid, ePlayerId = p, ePayload = []\<rparr>"

text \<open>The player a login request resolves to, if it does.\<close>

definition login_enters :: "'d LoginService \<Rightarrow> senv \<Rightarrow> bytes \<Rightarrow> 'd \<Rightarrow> int64 option" where
  "login_enters svc e payload db =
     (case unmarshalLoginReq (se_codec e) payload of
        None \<Rightarrow> None
      | Some req \<Rightarrow>
          (if lqPlatform req = PlatformTest then
             (case fst (ResolveRoleID svc (login_account req) db) of
                Inl _ \<Rightarrow> None
              | Inr (p, _) \<Rightarrow> Some p)
           else None))"

text \<open>
  An envelope in the range of the game is offered unchanged; a login that resolves a role offers
  the request to let its player enter; nothing else is offered.
\<close>

fun game_offer :: "'d LoginService \<Rightarrow> senv \<Rightarrow> svc_event \<Rightarrow> 'd NetServer \<Rightarrow> Envelope option" where
  "game_offer svc e (GateSends g env) n =
     (if 3000 \<le> msg_id env \<and> msg_id env < 4000 then Some env
      else if msg_id env = MsgLoginReq then
        map_option (enter_request (eSessionId env)) (login_enters svc e (ePayload env) (nsDb n))
      else None)"
| "game_offer svc e _ n = None"

text \<open>Of these, what the link accepts.\<close>

definition game_accepts :: "'d LoginService \<Rightarrow> senv \<Rightarrow> svc_event \<Rightarrow> 'd NetServer \<Rightarrow> Envelope list" where
  "game_accepts svc e ev n =
     (case game_offer svc e ev n of
        None \<Rightarrow> []
      | Some env \<Rightarrow> if snd (gr_Send (se_drain e) env (nsRouters n 0)) = None then [env] else [])"

fun game_history :: "'d LoginService \<Rightarrow> (senv \<times> svc_event) list \<Rightarrow> 'd NetServer \<Rightarrow> Envelope list" where
  "game_history svc [] n = []"
| "game_history svc ((e, ev) # tr) n = game_accepts svc e ev n @ game_history svc tr (svc_step e ev n)"

subsection \<open>One event\<close>

lemma routeToGame_accepts:
  assumes "nsGameRouter n = Some 0" and "nsPlayerRoute n (ePlayerId env) = None \<or> nsPlayerRoute n (ePlayerId env) = Some 0"
  shows "snd (routeToGame e env n) = snd (gr_Send (se_drain e) env (nsRouters n 0))"
  using assms by (auto simp: routeToGame_def Let_def case_prod_beta split: option.split)

lemma replyToGate_routers [simp]: "nsRouters (fst (replyToGate e sid m data n)) = nsRouters n"
  by (simp add: replyToGate_def Let_def split: option.split prod.split)

lemma svc_inv_route: "svc_inv n \<Longrightarrow> nsGameRouter n = Some 0 \<Longrightarrow> nsPlayerRoute n p = None \<or> nsPlayerRoute n p = Some 0"
  unfolding svc_inv_def by (metis option.exhaust option.inject)

lemma svc_inv_fields [simp]: "svc_inv (n\<lparr>nsDb := db\<rparr>) = svc_inv n"
  by (simp add: svc_inv_def)

lemma login_pending:
  assumes "nsGameRouter n = Some 0" and "svc_inv n"
  shows "\<exists>k. gr_pending (nsRouters (fst (onLogin e svc ctx n)) 0) = drop k (gr_pending (nsRouters n 0)) @
    (case login_enters svc e (cxPayload ctx) (nsDb n) of
       None \<Rightarrow> []
     | Some p \<Rightarrow> if snd (gr_Send (se_drain e) (enter_request (cxSessionID ctx) p) (nsRouters n 0)) = None
         then [enter_request (cxSessionID ctx) p] else [])"
proof (cases "unmarshalLoginReq (se_codec e) (cxPayload ctx)")
  case None
  then show ?thesis by (auto simp: onLogin_def login_enters_def intro: exI [of _ 0])
next
  case (Some req)
  show ?thesis
  proof (cases "lqPlatform req = PlatformTest")
    case False
    then show ?thesis
      by (auto simp: only_test_platform_logs_in [OF Some False] login_enters_def Some intro: exI [of _ 0])
  next
    case True
    obtain res db where r: "ResolveRoleID svc (login_account req) (nsDb n) = (res, db)" by force
    show ?thesis
    proof (cases res)
      case (Inl err)
      with Some True r show ?thesis
        by (auto simp: onLogin_def finishLogin_def login_enters_def login_account_def Let_def intro: exI [of _ 0])
    next
      case (Inr pb)
      obtain p x where pb: "pb = (p, x)" by force
      let ?env = "enter_request (cxSessionID ctx) p"
      have inv: "svc_inv (n\<lparr>nsDb := db\<rparr>)" and gr: "nsGameRouter (n\<lparr>nsDb := db\<rparr>) = Some 0"
        using assms by simp_all
      have "nsRouters (fst (onLogin e svc ctx n)) = nsRouters (fst (routeToGame e ?env (n\<lparr>nsDb := db\<rparr>)))"
        using Some True r Inr pb
        by (simp add: onLogin_def finishLogin_def login_account_def Let_def case_prod_beta enter_request_def)
      moreover have "login_enters svc e (cxPayload ctx) (nsDb n) = Some p"
        using Some True r Inr pb by (simp add: login_enters_def)
      ultimately show ?thesis
        using routeToGame_pending(1) [OF gr svc_inv_route [OF inv gr], where env = ?env and e = e]
          routeToGame_accepts [OF gr svc_inv_route [OF inv gr], where env = ?env and e = e] by simp
    qed
  qed
qed

lemma handleGateConn_pending:
  assumes "svc_inv n" and "nsGameRouter n = Some 0" and "nsRegistry n = boot_registry svc"
    and "nsGateConns n g \<noteq> None"
  shows "\<exists>k. gr_pending (nsRouters (handleGateConn_env e g env n) 0) =
    drop k (gr_pending (nsRouters n 0)) @ game_accepts svc e (GateSends g env) n"
proof -
  define m where "m = (if eSessionId env \<noteq> 0 then n\<lparr>nsSessionGate := (nsSessionGate n)(eSessionId env \<mapsto> g)\<rparr> else n)"
  have m: "svc_inv m" "nsGameRouter m = Some 0" "nsRegistry m = boot_registry svc" "nsRouters m = nsRouters n"
    "nsDb m = nsDb n"
    using assms by (auto simp: m_def svc_inv_def)
  note route = svc_inv_route [OF m(1,2)]
  have h: "handleGateConn_env e g env n = dispatchEnvelope e env m"
    by (simp add: handleGateConn_env_def m_def Let_def)
  show ?thesis
  proof (cases "3000 \<le> msg_id env \<and> msg_id env < 4000")
    case True
    then have "dispatchEnvelope e env m = fst (routeToGame e env m)"
      using to_game_iff [of "msg_id env"] by (simp add: dispatchEnvelope_def)
    then show ?thesis
      using True routeToGame_pending(1) [OF m(2) route, where env = env and e = e]
        routeToGame_accepts [OF m(2) route, where env = env and e = e]
      by (simp add: h m game_accepts_def)
  next
    case False
    let ?ctx = "\<lparr>cxSessionID = eSessionId env, cxPlayerID = ePlayerId env, cxMsgID = msg_id env,
       cxPayload = ePayload env, cxTraceID = ''session-'' @ dec_int (sint (eSessionId env))\<rparr>"
    have d: "dispatchEnvelope e env m = Dispatch e ?ctx m"
      unfolding dispatchEnvelope_def to_game_iff if_not_P [OF False] by (rule Handle_def)
    show ?thesis
    proof (cases "msg_id env = MsgLoginReq")
      case True
      then have "Dispatch e ?ctx m = fst (onLogin e svc ?ctx m)"
        by (simp add: Dispatch_def m(3) boot_handlers route_simps)
      then show ?thesis
        using True False login_pending [OF m(2,1), of e svc ?ctx]
        by (auto simp: h d m game_accepts_def route_simps split: option.split)
    next
      case other: False
      then have "nsRouters (Dispatch e ?ctx m) = nsRouters m"
        by (simp add: Dispatch_def m(3) boot_handlers)
      with False other show ?thesis
        by (auto simp: h d m game_accepts_def intro: exI [of _ 0])
    qed
  qed
qed

lemma svc_step_pending:
  assumes "svc_inv n" and "nsGameRouter n = Some 0" and "nsRegistry n = boot_registry svc"
    and "svc_enabled ev n"
  shows "\<exists>k. gr_pending (nsRouters (svc_step e ev n) 0) =
    drop k (gr_pending (nsRouters n 0)) @ game_accepts svc e ev n"
proof (cases ev)
  case (GateSends g env)
  with assms show ?thesis using handleGateConn_pending [OF assms(1-3)] by simp
next
  case RouterWrites
  then show ?thesis
    by (intro exI [of _ 1]) (simp add: game_accepts_def upd_router_def assms(2) gr_writeStep_pending)
next
  case (RouterDials d)
  have "gr_pending (fst (gr_dial_step d r)) = gr_pending r" for r
    by (cases d) (simp_all add: gr_pending_def)
  with RouterDials show ?thesis
    by (intro exI [of _ 0]) (simp add: game_accepts_def upd_router_def assms(2))
qed (auto simp: game_accepts_def acceptGate_def handleGateConn_end_def ForwardToGate_def Let_def
      intro!: exI [of _ 0])

subsection \<open>Every history\<close>

lemma svc_run_pending:
  assumes "svc_inv n" and "nsGameRouter n = Some 0" and "nsRegistry n = boot_registry svc"
    and "svc_run_ok tr n"
  shows "\<exists>k. gr_pending (nsRouters (svc_run tr n) 0) = drop k (gr_pending (nsRouters n 0) @ game_history svc tr n)"
  using assms
proof (induction tr arbitrary: n)
  case Nil
  then show ?case by (auto intro: exI [of _ 0])
next
  case (Cons x tr)
  obtain e ev where x: "x = (e, ev)" by force
  have en: "svc_enabled ev n" and run: "svc_run_ok tr (svc_step e ev n)" using Cons.prems(4) x by auto
  obtain j where j: "gr_pending (nsRouters (svc_step e ev n) 0) =
      drop j (gr_pending (nsRouters n 0)) @ game_accepts svc e ev n"
    using svc_step_pending [OF Cons.prems(1-3) en] by blast
  obtain k where "gr_pending (nsRouters (svc_run (x # tr) n) 0) =
      drop k (drop j (gr_pending (nsRouters n 0)) @ game_accepts svc e ev n @ game_history svc tr (svc_step e ev n))"
    using Cons.IH [OF svc_inv_step [OF Cons.prems(1) en] _ _ run] Cons.prems(2,3) j x by auto
  then show ?case unfolding x game_history.simps by (metis grl.drop_drop_append)
qed

lemma gr_writeStep_head:
  "snd (gr_writeStep r) =
     (case gr_pending r of
        [] \<Rightarrow> RIdle
      | env # _ \<Rightarrow> if gr_conn r = None then RDropped env else RWritten env)"
  by (auto simp: gr_writeStep_def gr_pending_def try_recv_def Let_def split: option.split list.split)

text \<open>
  C31: The service is a queue in front of the game server. After any history of events, what waits
  in the link to the game server is the end of the sequence of envelopes that the link accepted
  so far, in the order in which the service handled them: the messages in the range of the game
  as they came from the gates, and after each login that resolved a role the request to let its
  player enter, and nothing else. The envelope the link's writer takes next is the first of that
  sequence that it has not taken yet; it goes to the game server when the link has a connection.
\<close>

theorem game_receives_in_order:
  assumes "svc_run_ok tr (boot_service addr opts svc db)"
    and "n = svc_run tr (boot_service addr opts svc db)"
    and "H = game_history svc tr (boot_service addr opts svc db)"
  shows "\<exists>k \<le> length H. gr_pending (nsRouters n 0) = drop k H \<and>
    snd (gr_writeStep (nsRouters n 0)) =
      (if k = length H then RIdle
       else if gr_conn (nsRouters n 0) = None then RDropped (H ! k) else RWritten (H ! k))"
proof -
  let ?n = "boot_service addr opts svc db"
  have boot: "nsGameRouter ?n = Some 0" "nsRegistry ?n = boot_registry svc" "gr_pending (nsRouters ?n 0) = []"
    by (simp_all add: boot_service_def NewNetServer_def gr_Start_def gr_pending_def)
  obtain j where j: "gr_pending (nsRouters n 0) = drop j H"
    using svc_run_pending [OF svc_inv_boot boot(1,2) assms(1)] boot(3) assms(2,3) by auto
  define k where "k = min j (length H)"
  have k: "k \<le> length H" "gr_pending (nsRouters n 0) = drop k H" using j by (simp_all add: k_def min_def)
  have "drop k H = (if k = length H then [] else H ! k # drop (Suc k) H)"
    using k(1) by (simp add: Cons_nth_drop_Suc)
  with k show ?thesis by (intro exI [of _ k]) (simp add: gr_writeStep_head)
qed

definition stream_trace :: "(senv \<times> svc_event) list" where
  "stream_trace = map (Pair (demo_senv\<lparr>se_codec := test_pb\<rparr>))
     [GateConnects idle_in idle_out, GateSends 1 (game_msg MsgPlayerEnterGameReq 1 7),
      GateSends 1 (game_msg MsgLoginReq 1 0), RouterWrites]"

definition stream_login :: "(string \<Rightarrow> string option) LoginService" where
  "stream_login = redis_login_service mem_redis profile_text"

lemma stream_trace_accepts:
  "svc_run_ok stream_trace (boot_service '''' demo_opts stream_login Map.empty)"
  "game_history stream_login stream_trace (boot_service '''' demo_opts stream_login Map.empty) =
     [game_msg MsgPlayerEnterGameReq 1 7, enter_request 1 1]"
proof -
  let ?e = "demo_senv\<lparr>se_codec := test_pb\<rparr>" and ?m = "game_msg MsgPlayerEnterGameReq 1 7"
  let ?n = "boot_service '''' demo_opts stream_login Map.empty"
  define n1 where "n1 = svc_step ?e (GateConnects idle_in idle_out) ?n"
  define n2 where "n2 = svc_step ?e (GateSends 1 ?m) n1"
  have n1: "nsRouters n1 0 = gr_Start (NewGameRouter '''' 2 5000000)" "nsGameRouter n1 = Some 0"
    "nsPlayerRoute n1 = Map.empty" "nsDb n1 = Map.empty" "nsGateConns n1 1 \<noteq> None"
    by (simp_all add: n1_def acceptGate_def boot_service_def NewNetServer_def Let_def)
  have ids: "msg_id ?m = MsgPlayerEnterGameReq" "msg_id (game_msg MsgLoginReq 1 0) = MsgLoginReq"
    "3000 \<le> MsgPlayerEnterGameReq" "MsgPlayerEnterGameReq < 4000" "\<not> 3000 \<le> MsgLoginReq"
    by (simp_all add: game_msg_def route_simps)
  let ?ch = "make_chan 2048"
  let ?r = "gr_Start (NewGameRouter '''' 2 5000000)"
  have room: "gr_Send dr ?m ?r = (?r\<lparr>gr_sendCh := Some (?ch\<lparr>ch_buf := ch_buf ?ch @ [?m]\<rparr>)\<rparr>, None)" for dr
    by (rule gr_Send_room) (simp_all add: gr_Start_def NewGameRouter_def make_chan_def)
  have h: "handleGateConn_env ?e 1 ?m n1 = fst (routeToGame ?e ?m (n1\<lparr>nsSessionGate := (nsSessionGate n1)(1 \<mapsto> 1)\<rparr>))"
    unfolding handleGateConn_env_def dispatchEnvelope_def to_game_iff
    by (simp add: ids Let_def)
  have n2: "nsRouters n2 0 = ?r\<lparr>gr_sendCh := Some (?ch\<lparr>ch_buf := ch_buf ?ch @ [?m]\<rparr>)\<rparr>" "nsDb n2 = Map.empty"
    "nsGateConns n2 1 \<noteq> None"
    using n1 by (simp_all add: n2_def h routeToGame_def room Let_def ids)
  have room': "snd (gr_Send dr env (nsRouters n2 0)) = None" for dr env
    unfolding n2
    by (subst gr_Send_room [where ch = "?ch\<lparr>ch_buf := ch_buf ?ch @ [?m]\<rparr>"])
      (simp_all add: gr_Start_def NewGameRouter_def make_chan_def)
  have login: "login_enters stream_login ?e payload Map.empty = Some 1" for payload
    using mem_login
    by (simp add: login_enters_def stream_login_def test_pb_def PlatformTest_def login_account_def)
  show "svc_run_ok stream_trace ?n"
    using n1(5) n2(3) by (simp add: stream_trace_def n1_def n2_def)
  show "game_history stream_login stream_trace ?n = [?m, enter_request 1 1]"
    using room room' n1(1) ids n2(2) login
    by (simp add: stream_trace_def game_accepts_def n1_def n2_def)
qed

theorem game_receives_in_order_witness:
  "\<exists>k \<le> 2. gr_pending (nsRouters (svc_run stream_trace (boot_service '''' demo_opts stream_login Map.empty)) 0) =
     drop k [game_msg MsgPlayerEnterGameReq 1 7, enter_request 1 1]"
proof -
  from game_receives_in_order [OF stream_trace_accepts(1) refl stream_trace_accepts(2) [symmetric]]
  obtain k where k: "k \<le> length [game_msg MsgPlayerEnterGameReq 1 7, enter_request 1 1]"
    "gr_pending (nsRouters (svc_run stream_trace (boot_service '''' demo_opts stream_login Map.empty)) 0) =
       drop k [game_msg MsgPlayerEnterGameReq 1 7, enter_request 1 1]" by blast
  have "k \<le> 2" using k(1) by simp
  with k(2) show ?thesis by blast
qed

end
