(* ===== verification/Heartbeats.thy ===== *)
theory Heartbeats
  imports ServiceProps Remote
begin

text \<open>
  The heartbeat on the connections from a gate to the service (\<open>remoteClient.heartbeatLoop\<close>,
  \<open>Dispatcher.Dispatch\<close>): the service answers a ping through the route of the session it names,
  and the gate's ping names none.
\<close>

definition service_ping :: "int64 \<Rightarrow> Envelope" where
  "service_ping sid = \<lparr>eMsgId = to_int32 MsgServicePing, eSessionId = sid, ePlayerId = 0, ePayload = []\<rparr>"

lemma service_ping_id [simp]: "msg_id (service_ping sid) = MsgServicePing" "\<not> 3000 \<le> msg_id (service_ping sid)"
  by (simp_all add: service_ping_def route_simps)

lemma rc_heartbeat_pings: "rc_heartbeat c = Written env \<longleftrightarrow> rc_conn c \<noteq> None \<and> env = service_ping 0"
  by (auto simp: rc_heartbeat_def service_ping_def split: option.split)

lemma dispatch_ping:
  "dispatchEnvelope e (service_ping sid) n = fst (replyToGate e sid MsgServicePong [] n)"
proof -
  have f: "\<not> (3000 \<le> msg_id (service_ping sid) \<and> msg_id (service_ping sid) < 4000)" by (simp add: route_simps)
  show ?thesis unfolding dispatchEnvelope_def to_game_iff if_not_P [OF f]
    by (simp add: Dispatch_def) (simp add: service_ping_def)
qed

text \<open>A ping that named a session would be answered on the connection it came on.\<close>

lemma named_ping_answered:
  assumes "nsGateConns n g = Some c" and "sid \<noteq> 0"
  shows "nsGateConns (handleGateConn_env e g (service_ping sid) n) g =
    Some (fst (bc_WriteEnvelope (se_codec e) (se_now e)
      \<lparr>eMsgId = to_int32 MsgServicePong, eSessionId = sid, ePlayerId = 0, ePayload = []\<rparr> c))"
proof -
  have s: "eSessionId (service_ping sid) = sid" by (simp add: service_ping_def)
  show ?thesis using assms
    by (simp add: handleGateConn_env_def Let_def s dispatch_ping replyToGate_def case_prod_beta)
qed

text \<open>
  The service never answers a gate's heartbeat. What a client of the pool writes on a tick of its
  heartbeat is a ping without a session; after any history the service, reading it from any gate,
  changes nothing at all, and in particular writes nothing back: no pong ever reaches a gate.
\<close>

lemma gate_heartbeat_never_answered:
  assumes "svc_run_ok tr (boot_service addr opts svc db)"
    and "n = svc_run tr (boot_service addr opts svc db)"
    and "rc_heartbeat c = Written env"
  shows "handleGateConn_env e g env n = n"
proof -
  have "nsSessionGate n 0 = None"
    using svc_inv_run [OF svc_inv_boot assms(1)] assms(2) by (simp add: svc_inv_def)
  moreover have "env = service_ping 0" using assms(3) by (simp add: rc_heartbeat_pings)
  moreover have "eSessionId (service_ping 0) = 0" by (simp add: service_ping_def)
  ultimately show ?thesis
    by (simp add: handleGateConn_env_def Let_def dispatch_ping replyToGate_def)
qed

lemma gate_heartbeat_never_answered_witness:
  "rc_heartbeat ((newRemoteClient ''service'' '':9100'' 2 5)\<lparr>rc_conn := Some 0\<rparr>) = Written (service_ping 0) \<and>
   handleGateConn_env demo_senv 1 (service_ping 0) (svc_run two_gates (boot_service '''' demo_opts no_store ())) =
     svc_run two_gates (boot_service '''' demo_opts no_store ())"
proof -
  have h: "rc_heartbeat ((newRemoteClient ''service'' '':9100'' 2 5)\<lparr>rc_conn := Some 0\<rparr>) = Written (service_ping 0)"
    by (simp add: rc_heartbeat_pings)
  show ?thesis using gate_heartbeat_never_answered [OF two_gates_ok refl h] h by simp
qed

end
