(* ===== verification/RedisDao.thy ===== *)
theory RedisDao
  imports PlayerDb "HOL-Library.Product_Lexorder" "HOL-Library.List_Lexorder" "HOL-Library.Char_ord"
begin

text \<open>
  The Redis access object (\<open>redis_tools/redis_dao.go\<close>) and the process-wide client
  (\<open>redis_tools/redis_client.go\<close>). The client is the library go-redis: each of its methods is a
  field of a record, with the state of the database passed through. The three methods the stores
  use are the record \<open>redis\<close> of \<open>PlayerDb\<close>. Scores are a type parameter, and so is what a script
  returns.
\<close>

subsection \<open>The client's methods\<close>

text \<open>An argument of type \<open>interface{}\<close>: a value, a slice of values or a map of fields.\<close>

datatype go_arg = AVal redis_value | ASlice "redis_value list" | AMap "(string \<times> redis_value) list"

record 's Z =
  Score :: 's
  Member :: redis_value

record ZRangeBy =
  zb_Min :: string
  zb_Max :: string
  zb_Offset :: int64
  zb_Count :: int64

type_synonym ('r, 'a) answer = "(go_error + 'a) \<times> 'r"

text \<open>Ranges by index of a sorted set, and lists: the methods whose meaning is stated below.\<close>

record ('r, 's) zset_client =
  cmd_ZAdd :: "string \<Rightarrow> 's Z list \<Rightarrow> 'r \<Rightarrow> ('r, int64) answer"
  cmd_ZRange :: "string \<Rightarrow> int64 \<Rightarrow> int64 \<Rightarrow> 'r \<Rightarrow> ('r, string list) answer"
  cmd_ZRevRange :: "string \<Rightarrow> int64 \<Rightarrow> int64 \<Rightarrow> 'r \<Rightarrow> ('r, string list) answer"
  cmd_ZRevRangeWithScores :: "string \<Rightarrow> int64 \<Rightarrow> int64 \<Rightarrow> 'r \<Rightarrow> ('r, 's Z list) answer"

record 'r list_client =
  cmd_LPush :: "string \<Rightarrow> go_arg list \<Rightarrow> 'r \<Rightarrow> ('r, int64) answer"
  cmd_RPush :: "string \<Rightarrow> go_arg list \<Rightarrow> 'r \<Rightarrow> ('r, int64) answer"
  cmd_LPop :: "string \<Rightarrow> 'r \<Rightarrow> ('r, string) answer"
  cmd_RPop :: "string \<Rightarrow> 'r \<Rightarrow> ('r, string) answer"
  cmd_LRange :: "string \<Rightarrow> int64 \<Rightarrow> int64 \<Rightarrow> 'r \<Rightarrow> ('r, string list) answer"
  cmd_LRem :: "string \<Rightarrow> int64 \<Rightarrow> go_arg \<Rightarrow> 'r \<Rightarrow> ('r, int64) answer"
  cmd_LLen :: "string \<Rightarrow> 'r \<Rightarrow> ('r, int64) answer"

record ('r, 's) hash_client =
  cmd_HSet :: "string \<Rightarrow> go_arg list \<Rightarrow> 'r \<Rightarrow> ('r, int64) answer"
  cmd_HMSet :: "string \<Rightarrow> go_arg list \<Rightarrow> 'r \<Rightarrow> ('r, bool) answer"
  cmd_HGet :: "string \<Rightarrow> string \<Rightarrow> 'r \<Rightarrow> ('r, string) answer"
  cmd_HMGet :: "string \<Rightarrow> string list \<Rightarrow> 'r \<Rightarrow> ('r, string option list) answer"
  cmd_HGetAll :: "string \<Rightarrow> 'r \<Rightarrow> ('r, string \<rightharpoonup> string) answer"
  cmd_HLen :: "string \<Rightarrow> 'r \<Rightarrow> ('r, int64) answer"
  cmd_HExists :: "string \<Rightarrow> string \<Rightarrow> 'r \<Rightarrow> ('r, bool) answer"
  cmd_HKeys :: "string \<Rightarrow> 'r \<Rightarrow> ('r, string list) answer"
  cmd_HIncrBy :: "string \<Rightarrow> string \<Rightarrow> int64 \<Rightarrow> 'r \<Rightarrow> ('r, int64) answer"
  cmd_HIncrByFloat :: "string \<Rightarrow> string \<Rightarrow> 's \<Rightarrow> 'r \<Rightarrow> ('r, 's) answer"
  cmd_HVals :: "string \<Rightarrow> 'r \<Rightarrow> ('r, string list) answer"
  cmd_HDel :: "string \<Rightarrow> string list \<Rightarrow> 'r \<Rightarrow> ('r, int64) answer"

record ('r, 's) zmore_client =
  cmd_ZIncrBy :: "string \<Rightarrow> 's \<Rightarrow> string \<Rightarrow> 'r \<Rightarrow> ('r, 's) answer"
  cmd_ZRem :: "string \<Rightarrow> go_arg list \<Rightarrow> 'r \<Rightarrow> ('r, int64) answer"
  cmd_ZRangeByScore :: "string \<Rightarrow> ZRangeBy \<Rightarrow> 'r \<Rightarrow> ('r, string list) answer"
  cmd_ZRangeByScoreWithScores :: "string \<Rightarrow> ZRangeBy \<Rightarrow> 'r \<Rightarrow> ('r, 's Z list) answer"
  cmd_ZRangeWithScores :: "string \<Rightarrow> int64 \<Rightarrow> int64 \<Rightarrow> 'r \<Rightarrow> ('r, 's Z list) answer"
  cmd_ZRevRank :: "string \<Rightarrow> string \<Rightarrow> 'r \<Rightarrow> ('r, int64) answer"
  cmd_ZCard :: "string \<Rightarrow> 'r \<Rightarrow> ('r, int64) answer"
  cmd_ZCount :: "string \<Rightarrow> string \<Rightarrow> string \<Rightarrow> 'r \<Rightarrow> ('r, int64) answer"
  cmd_ZScore :: "string \<Rightarrow> string \<Rightarrow> 'r \<Rightarrow> ('r, 's) answer"
  cmd_ZMScore :: "string \<Rightarrow> string list \<Rightarrow> 'r \<Rightarrow> ('r, 's list) answer"

record ('r, 'v) script_client =
  cmd_Eval :: "string \<Rightarrow> string list \<Rightarrow> go_arg list \<Rightarrow> 'r \<Rightarrow> ('r, 'v) answer"
  cmd_EvalSha :: "string \<Rightarrow> string list \<Rightarrow> go_arg list \<Rightarrow> 'r \<Rightarrow> ('r, 'v) answer"
  cmd_ScriptLoad :: "string \<Rightarrow> 'r \<Rightarrow> ('r, string) answer"
  cmd_ScriptFlush :: "'r \<Rightarrow> ('r, string) answer"

record 'r set_client =
  cmd_SAdd :: "string \<Rightarrow> go_arg list \<Rightarrow> 'r \<Rightarrow> ('r, int64) answer"
  cmd_SRem :: "string \<Rightarrow> go_arg list \<Rightarrow> 'r \<Rightarrow> ('r, int64) answer"
  cmd_SMembers :: "string \<Rightarrow> 'r \<Rightarrow> ('r, string list) answer"
  cmd_SMIsMember :: "string \<Rightarrow> go_arg list \<Rightarrow> 'r \<Rightarrow> ('r, bool list) answer"
  cmd_SCard :: "string \<Rightarrow> 'r \<Rightarrow> ('r, int64) answer"
  cmd_SRandMemberN :: "string \<Rightarrow> int64 \<Rightarrow> 'r \<Rightarrow> ('r, string list) answer"
  cmd_SPopN :: "string \<Rightarrow> int64 \<Rightarrow> 'r \<Rightarrow> ('r, string list) answer"

record 'r key_client =
  cmd_Del :: "string list \<Rightarrow> 'r \<Rightarrow> ('r, int64) answer"
  cmd_Exists :: "string list \<Rightarrow> 'r \<Rightarrow> ('r, int64) answer"
  cmd_MGet :: "string list \<Rightarrow> 'r \<Rightarrow> ('r, string option list) answer"
  cmd_SetNX :: "string \<Rightarrow> redis_value \<Rightarrow> duration \<Rightarrow> 'r \<Rightarrow> ('r, bool) answer"
  cmd_SetXX :: "string \<Rightarrow> redis_value \<Rightarrow> duration \<Rightarrow> 'r \<Rightarrow> ('r, bool) answer"
  cmd_SetEx :: "string \<Rightarrow> redis_value \<Rightarrow> duration \<Rightarrow> 'r \<Rightarrow> ('r, string) answer"
  cmd_Expire :: "string \<Rightarrow> duration \<Rightarrow> 'r \<Rightarrow> ('r, bool) answer"
  cmd_TTL :: "string \<Rightarrow> 'r \<Rightarrow> ('r, duration) answer"
  cmd_BitCount :: "string \<Rightarrow> 'r \<Rightarrow> ('r, int64) answer"
  cmd_SetBit :: "string \<Rightarrow> int64 \<Rightarrow> int \<Rightarrow> 'r \<Rightarrow> ('r, int64) answer"

record ('r, 's, 'v) redis_client =
  cl_basic :: "'r redis"
  cl_zset :: "('r, 's) zset_client"
  cl_list :: "'r list_client"
  cl_hash :: "('r, 's) hash_client"
  cl_zmore :: "('r, 's) zmore_client"
  cl_script :: "('r, 'v) script_client"
  cl_set :: "'r set_client"
  cl_key :: "'r key_client"

text \<open>\<open>Err()\<close> of a command: the answer without its value.\<close>

definition only_err :: "('r, 'a) answer \<Rightarrow> go_error option \<times> 'r" where
  "only_err a = (case a of (Inl err, db) \<Rightarrow> (Some err, db) | (Inr _, db) \<Rightarrow> (None, db))"

subsection \<open>Construction\<close>

text \<open>A nil client is replaced by the process-wide one, which may be nil as well.\<close>

definition NewRedisDaoWithClient :: "'c option \<Rightarrow> 'c option \<Rightarrow> 'c option" where
  "NewRedisDaoWithClient rdb client = (case client of None \<Rightarrow> rdb | Some c \<Rightarrow> Some c)"

definition NewRedisDao :: "'c option \<Rightarrow> 'c option" where
  "NewRedisDao rdb = NewRedisDaoWithClient rdb rdb"

subsection \<open>Player base and ranks\<close>

definition LoadPlayerBase :: "('r, 's, 'v) redis_client \<Rightarrow> int64 \<Rightarrow> 'r \<Rightarrow> ('r, string \<rightharpoonup> string) answer" where
  "LoadPlayerBase c playerID db = cmd_HGetAll (cl_hash c) (KeyPlayerBase playerID) db"

definition SavePlayerBase ::
    "('r, 's, 'v) redis_client \<Rightarrow> int64 \<Rightarrow> (string \<times> redis_value) list \<Rightarrow> 'r \<Rightarrow> go_error option \<times> 'r" where
  "SavePlayerBase c playerID kvs db = only_err (cmd_HSet (cl_hash c) (KeyPlayerBase playerID) [AMap kvs] db)"

definition UpdateRankScore ::
    "('r, 's, 'v) redis_client \<Rightarrow> string \<Rightarrow> int64 \<Rightarrow> 's \<Rightarrow> 'r \<Rightarrow> go_error option \<times> 'r" where
  "UpdateRankScore c rank playerID score db =
     only_err (cmd_ZAdd (cl_zset c) (KeyRank rank) [\<lparr>Score = score, Member = VInt playerID\<rparr>] db)"

definition GetTopN :: "('r, 's, 'v) redis_client \<Rightarrow> string \<Rightarrow> int64 \<Rightarrow> 'r \<Rightarrow> ('r, 's Z list) answer" where
  "GetTopN c rank n db = cmd_ZRevRangeWithScores (cl_zset c) (KeyRank rank) 0 (n - 1) db"

definition rd_Exists :: "('r, 's, 'v) redis_client \<Rightarrow> string \<Rightarrow> 'r \<Rightarrow> ('r, bool) answer" where
  "rd_Exists c key db = (case cmd_Exists (cl_key c) [key] db of (Inl err, db) \<Rightarrow> (Inl err, db) | (Inr n, db) \<Rightarrow> (Inr (n = 1), db))"

subsection \<open>Hashes\<close>

text \<open>The variadic methods hand their whole slice to the client as one argument.\<close>

definition HSet ::
    "('r, 's, 'v) redis_client \<Rightarrow> string \<Rightarrow> redis_value list \<Rightarrow> 'r \<Rightarrow> ('r, int64) answer" where
  "HSet c key vals db = cmd_HSet (cl_hash c) key [ASlice vals] db"

definition HMSet ::
    "('r, 's, 'v) redis_client \<Rightarrow> string \<Rightarrow> redis_value list \<Rightarrow> 'r \<Rightarrow> ('r, bool) answer" where
  "HMSet c key vals db = cmd_HMSet (cl_hash c) key [ASlice vals] db"

definition HGet ::
    "('r, 's, 'v) redis_client \<Rightarrow> string \<Rightarrow> string \<Rightarrow> 'r \<Rightarrow> ('r, string) answer" where
  "HGet c key field db = cmd_HGet (cl_hash c) key field db"

definition HMGet ::
    "('r, 's, 'v) redis_client \<Rightarrow> string \<Rightarrow> string list \<Rightarrow> 'r \<Rightarrow> ('r, string option list) answer" where
  "HMGet c key flds db = cmd_HMGet (cl_hash c) key flds db"

definition HGetAll ::
    "('r, 's, 'v) redis_client \<Rightarrow> string \<Rightarrow> 'r \<Rightarrow> ('r, string \<rightharpoonup> string) answer" where
  "HGetAll c key db = cmd_HGetAll (cl_hash c) key db"

definition HLen ::
    "('r, 's, 'v) redis_client \<Rightarrow> string \<Rightarrow> 'r \<Rightarrow> ('r, int64) answer" where
  "HLen c key db = cmd_HLen (cl_hash c) key db"

definition HExists ::
    "('r, 's, 'v) redis_client \<Rightarrow> string \<Rightarrow> string \<Rightarrow> 'r \<Rightarrow> ('r, bool) answer" where
  "HExists c key field db = cmd_HExists (cl_hash c) key field db"

definition HKeys ::
    "('r, 's, 'v) redis_client \<Rightarrow> string \<Rightarrow> 'r \<Rightarrow> ('r, string list) answer" where
  "HKeys c key db = cmd_HKeys (cl_hash c) key db"

definition HIncrByInt ::
    "('r, 's, 'v) redis_client \<Rightarrow> string \<Rightarrow> string \<Rightarrow> int64 \<Rightarrow> 'r \<Rightarrow> ('r, int64) answer" where
  "HIncrByInt c key field increment db = cmd_HIncrBy (cl_hash c) key field increment db"

definition HIncrByFloat ::
    "('r, 's, 'v) redis_client \<Rightarrow> string \<Rightarrow> string \<Rightarrow> 's \<Rightarrow> 'r \<Rightarrow> ('r, 's) answer" where
  "HIncrByFloat c key field increment db = cmd_HIncrByFloat (cl_hash c) key field increment db"

definition HVals ::
    "('r, 's, 'v) redis_client \<Rightarrow> string \<Rightarrow> 'r \<Rightarrow> ('r, string list) answer" where
  "HVals c key db = cmd_HVals (cl_hash c) key db"

definition HDel ::
    "('r, 's, 'v) redis_client \<Rightarrow> string \<Rightarrow> string list \<Rightarrow> 'r \<Rightarrow> ('r, int64) answer" where
  "HDel c key flds db = cmd_HDel (cl_hash c) key flds db"

subsection \<open>Lists\<close>

definition LPush ::
    "('r, 's, 'v) redis_client \<Rightarrow> string \<Rightarrow> redis_value list \<Rightarrow> 'r \<Rightarrow> ('r, int64) answer" where
  "LPush c key vals db = cmd_LPush (cl_list c) key [ASlice vals] db"

definition RPush ::
    "('r, 's, 'v) redis_client \<Rightarrow> string \<Rightarrow> redis_value list \<Rightarrow> 'r \<Rightarrow> ('r, int64) answer" where
  "RPush c key vals db = cmd_RPush (cl_list c) key [ASlice vals] db"

definition LPop ::
    "('r, 's, 'v) redis_client \<Rightarrow> string \<Rightarrow> 'r \<Rightarrow> ('r, string) answer" where
  "LPop c key db = cmd_LPop (cl_list c) key db"

definition RPop ::
    "('r, 's, 'v) redis_client \<Rightarrow> string \<Rightarrow> 'r \<Rightarrow> ('r, string) answer" where
  "RPop c key db = cmd_RPop (cl_list c) key db"

definition LRange ::
    "('r, 's, 'v) redis_client \<Rightarrow> string \<Rightarrow> int64 \<Rightarrow> int64 \<Rightarrow> 'r \<Rightarrow> ('r, string list) answer" where
  "LRange c key a b db = cmd_LRange (cl_list c) key a b db"

definition LRem ::
    "('r, 's, 'v) redis_client \<Rightarrow> string \<Rightarrow> int64 \<Rightarrow> redis_value \<Rightarrow> 'r \<Rightarrow> go_error option \<times> 'r" where
  "LRem c key count val db = only_err (cmd_LRem (cl_list c) key count (AVal val) db)"

text \<open>\<open>Val()\<close> of a failed command is zero.\<close>

definition LLen ::
    "('r, 's, 'v) redis_client \<Rightarrow> string \<Rightarrow> 'r \<Rightarrow> int64 \<times> 'r" where
  "LLen c key db = (case cmd_LLen (cl_list c) key db of (Inl _, db) \<Rightarrow> (0, db) | (Inr n, db) \<Rightarrow> (n, db))"

subsection \<open>Sorted sets\<close>

definition ZAdd ::
    "('r, 's, 'v) redis_client \<Rightarrow> string \<Rightarrow> 's Z list \<Rightarrow> 'r \<Rightarrow> ('r, int64) answer" where
  "ZAdd c key zs db = cmd_ZAdd (cl_zset c) key zs db"

definition ZIncrBy ::
    "('r, 's, 'v) redis_client \<Rightarrow> string \<Rightarrow> string \<Rightarrow> 's \<Rightarrow> 'r \<Rightarrow> ('r, 's) answer" where
  "ZIncrBy c key mem increment db = cmd_ZIncrBy (cl_zmore c) key increment mem db"

definition ZRem ::
    "('r, 's, 'v) redis_client \<Rightarrow> string \<Rightarrow> redis_value list \<Rightarrow> 'r \<Rightarrow> ('r, int64) answer" where
  "ZRem c key vals db = cmd_ZRem (cl_zmore c) key [ASlice vals] db"

definition ZRange ::
    "('r, 's, 'v) redis_client \<Rightarrow> string \<Rightarrow> int64 \<Rightarrow> int64 \<Rightarrow> 'r \<Rightarrow> ('r, string list) answer" where
  "ZRange c key a b db = cmd_ZRange (cl_zset c) key a b db"

definition ZRangeByScore ::
    "('r, 's, 'v) redis_client \<Rightarrow> string \<Rightarrow> ZRangeBy \<Rightarrow> 'r \<Rightarrow> ('r, string list) answer" where
  "ZRangeByScore c key opt db = cmd_ZRangeByScore (cl_zmore c) key opt db"

definition ZRangeByScoreWithScores ::
    "('r, 's, 'v) redis_client \<Rightarrow> string \<Rightarrow> ZRangeBy \<Rightarrow> 'r \<Rightarrow> ('r, 's Z list) answer" where
  "ZRangeByScoreWithScores c key opt db = cmd_ZRangeByScoreWithScores (cl_zmore c) key opt db"

definition ZRangeWithScores ::
    "('r, 's, 'v) redis_client \<Rightarrow> string \<Rightarrow> int64 \<Rightarrow> int64 \<Rightarrow> 'r \<Rightarrow> ('r, 's Z list) answer" where
  "ZRangeWithScores c key a b db = cmd_ZRangeWithScores (cl_zmore c) key a b db"

definition ZRevRange ::
    "('r, 's, 'v) redis_client \<Rightarrow> string \<Rightarrow> int64 \<Rightarrow> int64 \<Rightarrow> 'r \<Rightarrow> ('r, string list) answer" where
  "ZRevRange c key a b db = cmd_ZRevRange (cl_zset c) key a b db"

definition ZRevRangeWithScores ::
    "('r, 's, 'v) redis_client \<Rightarrow> string \<Rightarrow> int64 \<Rightarrow> int64 \<Rightarrow> 'r \<Rightarrow> ('r, 's Z list) answer" where
  "ZRevRangeWithScores c key a b db = cmd_ZRevRangeWithScores (cl_zset c) key a b db"

definition ZRevRank ::
    "('r, 's, 'v) redis_client \<Rightarrow> string \<Rightarrow> string \<Rightarrow> 'r \<Rightarrow> ('r, int64) answer" where
  "ZRevRank c key mem db = cmd_ZRevRank (cl_zmore c) key mem db"

definition ZTopNMin ::
    "('r, 's, 'v) redis_client \<Rightarrow> string \<Rightarrow> int64 \<Rightarrow> 'r \<Rightarrow> ('r, string list) answer" where
  "ZTopNMin c key count db = ZRange c key 0 (if 0 <s count then count - 1 else count) db"

definition ZTopNMax ::
    "('r, 's, 'v) redis_client \<Rightarrow> string \<Rightarrow> int64 \<Rightarrow> 'r \<Rightarrow> ('r, string list) answer" where
  "ZTopNMax c key count db = ZRevRange c key 0 (if 0 <s count then count - 1 else count) db"

definition ZMaxScore ::
    "('r, 's, 'v) redis_client \<Rightarrow> string \<Rightarrow> 'r \<Rightarrow> ('r, 's) answer" where
  "ZMaxScore c key db = 
     (case cmd_ZRevRangeWithScores (cl_zset c) key 0 0 db of
        (Inl err, db) \<Rightarrow> (Inl err, db)
      | (Inr zs, db) \<Rightarrow> (case zs of [] \<Rightarrow> (Inl RedisNil, db) | z # _ \<Rightarrow> (Inr (Score z), db)))"

definition ZCard ::
    "('r, 's, 'v) redis_client \<Rightarrow> string \<Rightarrow> 'r \<Rightarrow> ('r, int64) answer" where
  "ZCard c key db = cmd_ZCard (cl_zmore c) key db"

text \<open>\<open>fmt_f\<close> is \<open>fmt.Sprintf\<close> with the verb \<open>%f\<close>.\<close>

definition ZCount ::
    "('s \<Rightarrow> string) \<Rightarrow> ('r, 's, 'v) redis_client \<Rightarrow> string \<Rightarrow> 's \<Rightarrow> 's \<Rightarrow> 'r \<Rightarrow> ('r, int64) answer" where
  "ZCount fmt_f c key a b db = cmd_ZCount (cl_zmore c) key (fmt_f a) (fmt_f b) db"

definition ZScore ::
    "('r, 's, 'v) redis_client \<Rightarrow> string \<Rightarrow> string \<Rightarrow> 'r \<Rightarrow> ('r, 's) answer" where
  "ZScore c key mem db = cmd_ZScore (cl_zmore c) key mem db"

definition ZMScore ::
    "('r, 's, 'v) redis_client \<Rightarrow> string \<Rightarrow> string list \<Rightarrow> 'r \<Rightarrow> ('r, 's list) answer" where
  "ZMScore c key mems db = cmd_ZMScore (cl_zmore c) key mems db"

subsection \<open>Scripts\<close>

definition rd_Eval ::
    "('r, 's, 'v) redis_client \<Rightarrow> string \<Rightarrow> string list \<Rightarrow> redis_value list \<Rightarrow> 'r \<Rightarrow> ('r, 'v) answer" where
  "rd_Eval c script ks args db = cmd_Eval (cl_script c) script ks (map AVal args) db"

definition rd_EvalSha ::
    "('r, 's, 'v) redis_client \<Rightarrow> string \<Rightarrow> string list \<Rightarrow> redis_value list \<Rightarrow> 'r \<Rightarrow> ('r, 'v) answer" where
  "rd_EvalSha c sha ks args db = cmd_EvalSha (cl_script c) sha ks (map AVal args) db"

definition ScriptLoad ::
    "('r, 's, 'v) redis_client \<Rightarrow> string \<Rightarrow> 'r \<Rightarrow> ('r, string) answer" where
  "ScriptLoad c script db = cmd_ScriptLoad (cl_script c) script db"

definition ScriptFlush ::
    "('r, 's, 'v) redis_client \<Rightarrow> 'r \<Rightarrow> ('r, string) answer" where
  "ScriptFlush c db = cmd_ScriptFlush (cl_script c) db"

subsection \<open>Sets\<close>

definition SAdd ::
    "('r, 's, 'v) redis_client \<Rightarrow> string \<Rightarrow> redis_value list \<Rightarrow> 'r \<Rightarrow> ('r, int64) answer" where
  "SAdd c key vals db = cmd_SAdd (cl_set c) key [ASlice vals] db"

definition SRem ::
    "('r, 's, 'v) redis_client \<Rightarrow> string \<Rightarrow> redis_value list \<Rightarrow> 'r \<Rightarrow> ('r, int64) answer" where
  "SRem c key vals db = cmd_SRem (cl_set c) key [ASlice vals] db"

definition SMembers ::
    "('r, 's, 'v) redis_client \<Rightarrow> string \<Rightarrow> 'r \<Rightarrow> ('r, string list) answer" where
  "SMembers c key db = cmd_SMembers (cl_set c) key db"

definition SMIsMember ::
    "('r, 's, 'v) redis_client \<Rightarrow> string \<Rightarrow> redis_value list \<Rightarrow> 'r \<Rightarrow> ('r, bool list) answer" where
  "SMIsMember c key vals db = cmd_SMIsMember (cl_set c) key [ASlice vals] db"

definition SCard ::
    "('r, 's, 'v) redis_client \<Rightarrow> string \<Rightarrow> 'r \<Rightarrow> ('r, int64) answer" where
  "SCard c key db = cmd_SCard (cl_set c) key db"

definition SRandMemberN ::
    "('r, 's, 'v) redis_client \<Rightarrow> string \<Rightarrow> int64 \<Rightarrow> 'r \<Rightarrow> ('r, string list) answer" where
  "SRandMemberN c key count db = cmd_SRandMemberN (cl_set c) key count db"

definition SRandPopN ::
    "('r, 's, 'v) redis_client \<Rightarrow> string \<Rightarrow> int64 \<Rightarrow> 'r \<Rightarrow> ('r, string list) answer" where
  "SRandPopN c key count db = cmd_SPopN (cl_set c) key count db"

subsection \<open>Keys and strings\<close>

definition rd_Del ::
    "('r, 's, 'v) redis_client \<Rightarrow> string list \<Rightarrow> 'r \<Rightarrow> ('r, int64) answer" where
  "rd_Del c ks db = cmd_Del (cl_key c) ks db"

definition rd_Set ::
    "('r, 's, 'v) redis_client \<Rightarrow> string \<Rightarrow> redis_value \<Rightarrow> duration \<Rightarrow> 'r \<Rightarrow> go_error option \<times> 'r" where
  "rd_Set c key val expiration db = r_Set (cl_basic c) key val expiration db"

definition rd_Get ::
    "('r, 's, 'v) redis_client \<Rightarrow> string \<Rightarrow> 'r \<Rightarrow> ('r, string) answer" where
  "rd_Get c key db = r_Get (cl_basic c) key db"

definition rd_MGet ::
    "('r, 's, 'v) redis_client \<Rightarrow> string list \<Rightarrow> 'r \<Rightarrow> ('r, string option list) answer" where
  "rd_MGet c ks db = cmd_MGet (cl_key c) ks db"

text \<open>\<open>Int()\<close> and \<open>Uint64()\<close> of a string command parse the text in base ten.\<close>

definition parse_uint64 :: "string \<Rightarrow> uint64 option" where
  "parse_uint64 s =
     (case parse_digits s of
        None \<Rightarrow> None | Some n \<Rightarrow> (if n < 2 ^ 64 then Some (word_of_int (int n)) else None))"

definition parsed :: "(string \<Rightarrow> 'a option) \<Rightarrow> ('r, string) answer \<Rightarrow> ('r, 'a) answer" where
  "parsed p a =
     (case a of
        (Inl err, db) \<Rightarrow> (Inl err, db)
      | (Inr s, db) \<Rightarrow>
          (case p s of None \<Rightarrow> (Inl (LibError (''strconv: parsing '' @ s)), db) | Some n \<Rightarrow> (Inr n, db)))"

definition rd_GetInt ::
    "('r, 's, 'v) redis_client \<Rightarrow> string \<Rightarrow> 'r \<Rightarrow> ('r, int64) answer" where
  "rd_GetInt c key db = parsed parse_int64 (r_Get (cl_basic c) key db)"

definition rd_GetUInt64 ::
    "('r, 's, 'v) redis_client \<Rightarrow> string \<Rightarrow> 'r \<Rightarrow> ('r, uint64) answer" where
  "rd_GetUInt64 c key db = parsed parse_uint64 (r_Get (cl_basic c) key db)"

definition SetWhenNotExist ::
    "('r, 's, 'v) redis_client \<Rightarrow> string \<Rightarrow> redis_value \<Rightarrow> duration \<Rightarrow> 'r \<Rightarrow> ('r, bool) answer" where
  "SetWhenNotExist c key val expiration db = cmd_SetNX (cl_key c) key val expiration db"

definition SetWhenExist ::
    "('r, 's, 'v) redis_client \<Rightarrow> string \<Rightarrow> redis_value \<Rightarrow> duration \<Rightarrow> 'r \<Rightarrow> go_error option \<times> 'r" where
  "SetWhenExist c key val expiration db = only_err (cmd_SetXX (cl_key c) key val expiration db)"

definition rd_SetEx ::
    "('r, 's, 'v) redis_client \<Rightarrow> string \<Rightarrow> redis_value \<Rightarrow> duration \<Rightarrow> 'r \<Rightarrow> go_error option \<times> 'r" where
  "rd_SetEx c key val expiration db = only_err (cmd_SetEx (cl_key c) key val expiration db)"

definition rd_Expire ::
    "('r, 's, 'v) redis_client \<Rightarrow> string \<Rightarrow> duration \<Rightarrow> 'r \<Rightarrow> go_error option \<times> 'r" where
  "rd_Expire c key expiration db = only_err (cmd_Expire (cl_key c) key expiration db)"

definition rd_TTL ::
    "('r, 's, 'v) redis_client \<Rightarrow> string \<Rightarrow> 'r \<Rightarrow> ('r, duration) answer" where
  "rd_TTL c key db = cmd_TTL (cl_key c) key db"

definition rd_Incr ::
    "('r, 's, 'v) redis_client \<Rightarrow> string \<Rightarrow> 'r \<Rightarrow> ('r, int64) answer" where
  "rd_Incr c key db = r_Incr (cl_basic c) key db"

definition BitCount ::
    "('r, 's, 'v) redis_client \<Rightarrow> string \<Rightarrow> 'r \<Rightarrow> ('r, int64) answer" where
  "BitCount c key db = cmd_BitCount (cl_key c) key db"

definition SetBit ::
    "('r, 's, 'v) redis_client \<Rightarrow> string \<Rightarrow> int64 \<Rightarrow> int \<Rightarrow> 'r \<Rightarrow> ('r, int64) answer" where
  "SetBit c key offset b db = cmd_SetBit (cl_key c) key offset b db"

end
