(* ===== verification/RedisClient.thy ===== *)
theory RedisClient
  imports RedisDao
begin

text \<open>
  The process-wide Redis client (\<open>redis_tools/redis_client.go\<close>): its initialisation, the access to
  it and the health check. Making a client from its options and pinging it belong to go-redis and
  are parameters; log output is the list of messages.
\<close>

record RedisSettings =
  rs_Addr :: string
  rs_Password :: string
  rs_DB :: int
  rs_PoolSize :: int
  rs_MinIdleConns :: int

record RedisOptions =
  ro_Addr :: string
  ro_Password :: string
  ro_DB :: int
  ro_PoolSize :: int
  ro_MinIdleConns :: int
  ro_DialTimeout :: duration
  ro_ReadTimeout :: duration
  ro_WriteTimeout :: duration

text \<open>The package's variables.\<close>

record 'c redis_globals =
  redisClient :: "'c option"
  redisCfg :: RedisSettings

definition redis_init :: "'c redis_globals" where
  "redis_init = \<lparr>redisClient = None,
     redisCfg = \<lparr>rs_Addr = '''', rs_Password = '''', rs_DB = 0, rs_PoolSize = 0, rs_MinIdleConns = 0\<rparr>\<rparr>"

definition with_defaults :: "RedisSettings \<Rightarrow> RedisSettings" where
  "with_defaults cfg =
     (let cfg = (if rs_PoolSize cfg \<le> 0 then cfg\<lparr>rs_PoolSize := 200\<rparr> else cfg)
      in if rs_MinIdleConns cfg \<le> 0 then cfg\<lparr>rs_MinIdleConns := 20\<rparr> else cfg)"

definition client_options :: "RedisSettings \<Rightarrow> RedisOptions" where
  "client_options cfg =
     \<lparr>ro_Addr = rs_Addr cfg, ro_Password = rs_Password cfg, ro_DB = rs_DB cfg,
      ro_PoolSize = rs_PoolSize cfg, ro_MinIdleConns = rs_MinIdleConns cfg,
      ro_DialTimeout = 3 * second, ro_ReadTimeout = 3 * second, ro_WriteTimeout = 3 * second\<rparr>"

text \<open>\<open>ping\<close> is the answer of the server within the timeout it is given.\<close>

definition InitRedis ::
    "(RedisOptions \<Rightarrow> 'c) \<Rightarrow> ('c \<Rightarrow> duration \<Rightarrow> go_error option) \<Rightarrow> RedisSettings \<Rightarrow> 'c redis_globals
       \<Rightarrow> 'c redis_globals \<times> go_error option" where
  "InitRedis NewClient ping cfg gl =
     (let cfg = with_defaults cfg; client = NewClient (client_options cfg)
      in case ping client (3 * second) of
           Some err \<Rightarrow> (gl, Some err)
         | None \<Rightarrow> (gl\<lparr>redisCfg := cfg, redisClient := Some client\<rparr>, None))"

definition RDB :: "'c redis_globals \<Rightarrow> 'c option" where
  "RDB gl = redisClient gl"

datatype health_log = NotInitialized | PingFailed string string

definition health_interval :: "duration \<Rightarrow> duration" where
  "health_interval interval = (if interval \<le> 0 then 10 * second else interval)"

text \<open>One tick of the health check.\<close>

definition health_tick :: "('c \<Rightarrow> duration \<Rightarrow> go_error option) \<Rightarrow> 'c redis_globals \<Rightarrow> health_log list" where
  "health_tick ping gl =
     (case RDB gl of
        None \<Rightarrow> [NotInitialized]
      | Some client \<Rightarrow>
          (case ping client (2 * second) of
             None \<Rightarrow> [] | Some err \<Rightarrow> [PingFailed (rs_Addr (redisCfg gl)) (error_text err)]))"

text \<open>A pool always has connections; explicit sizes are kept.\<close>

lemma defaults_positive: "0 < rs_PoolSize (with_defaults cfg) \<and> 0 < rs_MinIdleConns (with_defaults cfg)"
  by (simp add: with_defaults_def Let_def)

lemma defaults_idempotent: "with_defaults (with_defaults cfg) = with_defaults cfg"
  by (simp add: with_defaults_def Let_def)

text \<open>A failed initialisation leaves the old client in place; every successful one replaces it.\<close>

lemma init_failure_keeps: "snd (InitRedis nc ping cfg gl) \<noteq> None \<Longrightarrow> fst (InitRedis nc ping cfg gl) = gl"
  by (auto simp: InitRedis_def Let_def split: option.splits)

lemma init_replaces:
  "snd (InitRedis nc ping cfg gl) = None \<Longrightarrow>
     RDB (fst (InitRedis nc ping cfg gl)) = Some (nc (client_options (with_defaults cfg)))"
  by (auto simp: InitRedis_def RDB_def Let_def split: option.splits)

text \<open>Before a successful initialisation the common client is nil, and so is an object made from it.\<close>

lemma no_client_before_init: "RDB redis_init = None \<and> NewRedisDao (RDB redis_init) = None"
  by (simp add: RDB_def redis_init_def NewRedisDao_def NewRedisDaoWithClient_def)

text \<open>A health check is silent exactly when there is a client and the server answers.\<close>

lemma health_silent_iff:
  "health_tick ping gl = [] \<longleftrightarrow> (\<exists>c. RDB gl = Some c \<and> ping c (2 * second) = None)"
  by (auto simp: health_tick_def split: option.splits)

end
