(* ===== verification/Startup.thy ===== *)
theory Startup
  imports Config ServiceFacts GameServer RedisClient
begin

text \<open>
  The three \<open>main\<close> functions: from the configuration file to the running server, with every way
  to exit before. Reading and decoding the file, listening on an address and the Redis client are
  parameters; the signal that ends a server and its log output are left out.
\<close>

subsection \<open>Configuration\<close>

definition Load ::
    "(string \<Rightarrow> go_error + bytes) \<Rightarrow> (bytes \<Rightarrow> go_error + 'cfg) \<Rightarrow> string \<Rightarrow> go_error + 'cfg" where
  "Load readFile unmarshal path =
     (case readFile path of
        Inl err \<Rightarrow> Inl (LibError (''read config '' @ path @ '': '' @ error_text err))
      | Inr data \<Rightarrow>
          (case unmarshal data of
             Inl err \<Rightarrow> Inl (LibError (''parse config '' @ path @ '': '' @ error_text err))
           | Inr cfg \<Rightarrow> Inr cfg))"

definition envelope_limit :: "uint32 \<Rightarrow> uint32" where
  "envelope_limit sz = (if sz > 0 then SetMaxEnvelopeSize sz else defaultMaxEnvelopeSize)"

definition redis_settings :: "RedisConfig \<Rightarrow> RedisSettings" where
  "redis_settings cfg =
     \<lparr>rs_Addr = rcfgAddr cfg, rs_Password = rcfgPassword cfg, rs_DB = rcfgDB cfg,
      rs_PoolSize = rcfgPoolSize cfg, rs_MinIdleConns = rcfgMinIdleConns cfg\<rparr>"

datatype 'p start = Exits go_error | Runs 'p

subsection \<open>The gate\<close>

record gate_process =
  gp_gate :: gate
  gp_envelopeLimit :: uint32
  gp_tcp :: "string option"
  gp_ws :: "(string \<times> string \<times> bool) option"

definition gate_main ::
    "(string \<Rightarrow> go_error + GateConfig) \<Rightarrow> (string \<Rightarrow> go_error option) \<Rightarrow> string \<Rightarrow> gate_process start" where
  "gate_main load listen configPath =
     (case load configPath of
        Inl err \<Rightarrow> Exits err
      | Inr cfg \<Rightarrow>
          (let g = boot_gate cfg; (enableTCP, enableWS) = enabled_listeners cfg
           in case (if enableTCP then listen (ListenAddr cfg) else None) of
                Some err \<Rightarrow> Exits err
              | None \<Rightarrow>
                  (if enableWS \<and> WebSocketListenAddr cfg = '''' then Exits (LibError ''missing websocket_listen_addr'')
                   else Runs
                     \<lparr>gp_gate = g, gp_envelopeLimit = envelope_limit (MaxEnvelopeSize cfg),
                      gp_tcp = (if enableTCP then Some (ListenAddr cfg) else None),
                      gp_ws = (if enableWS
                        then Some (WebSocketListenAddr cfg,
                               if WebSocketPath cfg = '''' then ''/ws'' else WebSocketPath cfg,
                               WebSocketUseJSON cfg)
                        else None)\<rparr>)))"

subsection \<open>The service\<close>

text \<open>The database behind the client is \<open>db\<close>; the client is what \<open>NewClient\<close> makes.\<close>

definition service_main ::
    "(string \<Rightarrow> go_error + ServiceConfig) \<Rightarrow> (RedisOptions \<Rightarrow> 'r redis) \<Rightarrow> ('r redis \<Rightarrow> duration \<Rightarrow> go_error option)
       \<Rightarrow> json_codec \<Rightarrow> (string \<Rightarrow> go_error option) \<Rightarrow> string \<Rightarrow> 'r \<Rightarrow> ('r NetServer \<times> uint32) start" where
  "service_main load NewClient pingf jc listen configPath db =
     (case load configPath of
        Inl err \<Rightarrow> Exits err
      | Inr cfg \<Rightarrow>
          (let opts = conn_options (svcConnReadTimeoutSec cfg) (svcConnWriteTimeoutSec cfg) (svcConnKeepAliveSec cfg);
               (gl, err) = InitRedis NewClient pingf (redis_settings (svcRedis cfg)) redis_init
           in case err of
                Some err \<Rightarrow> Exits err
              | None \<Rightarrow>
                  (case NewRedisDao (RDB gl) of
                     None \<Rightarrow> Exits (LibError ''nil redis client'')
                   | Some rd \<Rightarrow>
                       (let loginSvc = redis_login_service rd jc;
                            (srv, err) = RegisterModule (LoginModule (Some loginSvc)) NewServer
                        in case err of
                             Some err \<Rightarrow> Exits err
                           | None \<Rightarrow>
                               (case RegisterModule ChatModule srv of
                                  (srv, Some err) \<Rightarrow> Exits err
                                | (srv, None) \<Rightarrow>
                                    (case listen (svcListenAddr cfg) of
                                       Some err \<Rightarrow> Exits err
                                     | None \<Rightarrow>
                                         Runs (NewNetServer (srvRegistry srv) db
                                           (Some (gr_Start (NewGameRouter (svcGameAddr cfg) 2 5000000))) opts,
                                           envelope_limit (svcMaxEnvelopeSize cfg))))))))"

subsection \<open>The game server\<close>

definition game_main ::
    "(string \<Rightarrow> go_error + GameConfig) \<Rightarrow> (RedisOptions \<Rightarrow> 'r redis) \<Rightarrow> ('r redis \<Rightarrow> duration \<Rightarrow> go_error option)
       \<Rightarrow> json_codec \<Rightarrow> (string \<Rightarrow> go_error option) \<Rightarrow> string \<Rightarrow> 'r \<Rightarrow> ('r game \<times> uint32) start" where
  "game_main load NewClient pingf jc listen configPath db =
     (case load configPath of
        Inl err \<Rightarrow> Exits err
      | Inr cfg \<Rightarrow>
          (let opts = conn_options (gmConnReadTimeoutSec cfg) (gmConnWriteTimeoutSec cfg) (gmConnKeepAliveSec cfg);
               (gl, err) = InitRedis NewClient pingf (redis_settings (gmRedis cfg)) redis_init
           in case err of
                Some err \<Rightarrow> Exits err
              | None \<Rightarrow>
                  (case NewRedisDao (RDB gl) of
                     None \<Rightarrow> Exits (LibError ''nil redis client'')
                   | Some rd \<Rightarrow>
                       (case listen (gmListenAddr cfg) of
                          Some err \<Rightarrow> Exits err
                        | None \<Rightarrow> Runs (boot_game rd jc opts db, envelope_limit (gmMaxEnvelopeSize cfg))))))"

subsection \<open>What runs is what the other theories start from\<close>

lemma gate_main_runs:
  "gate_main load listen path = Runs p \<Longrightarrow>
     (\<exists>cfg. load path = Inr cfg \<and> gp_gate p = boot_gate cfg) \<and> (gp_tcp p \<noteq> None \<or> gp_ws p \<noteq> None)"
  by (auto simp: gate_main_def Let_def enabled_listeners_def split: sum.splits option.splits if_splits)

lemma service_main_runs:
  assumes "service_main load nc pingf jc listen path db = Runs (n, limit)"
  shows "\<exists>cfg rd. load path = Inr cfg \<and>
    n = boot_service (svcGameAddr cfg)
      (conn_options (svcConnReadTimeoutSec cfg) (svcConnWriteTimeoutSec cfg) (svcConnKeepAliveSec cfg))
      (redis_login_service rd jc) db"
  using assms boot_registers_ok
  by (auto simp: service_main_def Let_def boot_service_def boot_registry_def RegisterModule_def NewServer_def prod_eq_iff
      split: sum.splits option.splits prod.splits)

lemma game_main_runs:
  assumes "game_main load nc pingf jc listen path db = Runs (gm, limit)"
  shows "\<exists>cfg rd. load path = Inr cfg \<and>
    gm = boot_game rd jc
      (conn_options (gmConnReadTimeoutSec cfg) (gmConnWriteTimeoutSec cfg) (gmConnKeepAliveSec cfg)) db"
  using assms by (auto simp: game_main_def Let_def split: sum.splits option.splits prod.splits)

text \<open>A server whose Redis does not answer does not start, and none has a limit of zero.\<close>

lemma redis_down_exits:
  "load path = Inr cfg \<Longrightarrow> (\<And>c. pingf c (3 * second) = Some err) \<Longrightarrow>
     service_main load nc pingf jc listen path db = Exits err"
  by (simp add: service_main_def InitRedis_def Let_def)

lemma envelope_limit_positive: "0 < envelope_limit sz"
  by (simp add: envelope_limit_def SetMaxEnvelopeSize_def defaultMaxEnvelopeSize_def word_gt_0)

end
