(* ===== verification/GateProcess.thy ===== *)
theory GateProcess
  imports Scenario Startup
begin

text \<open>
  The gate as a process (\<open>cmd/gate/main.go\<close>): the goroutines that \<open>main\<close> starts, the TCP accept
  loop, the WebSocket server, the wait for a signal or a failed start, and the shutdown. The gate
  inside is the state machine of \<open>GateStep\<close>.
\<close>

subsection \<open>Goroutines\<close>

datatype gate_loop =
    HeartbeatLoop | GcLoop | StatsLoop | ConnectLoop nat | WriteLoop nat | PingLoop nat

text \<open>\<open>Gate.Start\<close>, and \<open>remoteClientPool.Start\<close> with three goroutines for each client.\<close>

fun gate_Start :: "gate_loop \<Rightarrow> bool" where
  "gate_Start HeartbeatLoop = True"
| "gate_Start GcLoop = True"
| "gate_Start StatsLoop = True"
| "gate_Start _ = False"

fun rc_Start :: "nat \<Rightarrow> gate_loop \<Rightarrow> bool" where
  "rc_Start i (ConnectLoop j) = (j = i)"
| "rc_Start i (WriteLoop j) = (j = i)"
| "rc_Start i (PingLoop j) = (j = i)"
| "rc_Start i _ = False"

definition pool_Start :: "remoteClientPool \<Rightarrow> gate_loop \<Rightarrow> bool" where
  "pool_Start p l = list_ex (\<lambda>i. rc_Start i l) [0..<length (clients p)]"

definition gate_loops :: "gate \<Rightarrow> gate_loop \<Rightarrow> bool" where
  "gate_loops g l = (gate_Start l \<or> (case servicePool g of None \<Rightarrow> False | Some p \<Rightarrow> pool_Start p l))"

text \<open>The goroutine that takes an event of the gate, when it is one of these.\<close>

fun loop_of :: "gate_event \<Rightarrow> gate_loop option" where
  "loop_of (HeartbeatTick _) = Some HeartbeatLoop"
| "loop_of (GcTick _ _) = Some GcLoop"
| "loop_of StatsTick = Some StatsLoop"
| "loop_of (PoolWriter i) = Some (WriteLoop i)"
| "loop_of (PoolDial i _) = Some (ConnectLoop i)"
| "loop_of _ = None"

subsection \<open>The process\<close>

text \<open>
  The stages of \<open>main\<close> after everything is started: it waits; it has left the wait; the context is
  cancelled; the TCP listener is closed; the WebSocket server is shut down and \<open>main\<close> sleeps half
  a second; the process has ended.
\<close>

datatype gate_stage = GWaiting | GStopping | GCancelled | GTcpClosed | GSleeping | GExited

record gate_live = gate_process +
  gl_done :: bool
  gl_tcpOpen :: bool
  gl_tcpLoop :: bool
  gl_wsOpen :: bool
  gl_wsServing :: bool
  gl_errCh :: "go_error chan"
  gl_stage :: gate_stage
  gl_loops :: "gate_loop \<Rightarrow> bool"

definition go_live :: "gate_process \<Rightarrow> gate_live" where
  "go_live p =
     \<lparr>gp_gate = gp_gate p, gp_envelopeLimit = gp_envelopeLimit p, gp_tcp = gp_tcp p, gp_ws = gp_ws p,
      gl_done = False, gl_tcpOpen = (gp_tcp p \<noteq> None), gl_tcpLoop = (gp_tcp p \<noteq> None),
      gl_wsOpen = (gp_ws p \<noteq> None), gl_wsServing = (gp_ws p \<noteq> None), gl_errCh = make_chan 1,
      gl_stage = GWaiting, gl_loops = gate_loops (gp_gate p)\<rparr>"

definition http_ErrServerClosed :: go_error where
  "http_ErrServerClosed = LibError ''http: Server closed''"

text \<open>
  \<open>WsServeEnds\<close> is the return of the WebSocket server's \<open>ListenAndServe\<close>, which always has an error:
  that it was closed, or one that \<open>main\<close> is told through the error channel.
\<close>

datatype live_event =
    TcpAccepts genv
  | TcpAcceptFails
  | WsUpgrades genv
  | WsUpgradeFails
  | WsServeEnds go_error
  | OsSignal
  | StartupFails
  | CancelsContext
  | ClosesTcp
  | ShutsWs
  | GateExits
  | LoopEnds gate_loop
  | GateInner genv gate_event

fun live_step :: "live_event \<Rightarrow> gate_live \<Rightarrow> gate_live" where
  "live_step (TcpAccepts e) p = p\<lparr>gp_gate := gate_step e AcceptTCP (gp_gate p)\<rparr>"
| "live_step TcpAcceptFails p = (if gl_done p then p\<lparr>gl_tcpLoop := False\<rparr> else p)"
| "live_step (WsUpgrades e) p = p\<lparr>gp_gate := gate_step e AcceptWS (gp_gate p)\<rparr>"
| "live_step WsUpgradeFails p = p"
| "live_step (WsServeEnds err) p =
     (let p = p\<lparr>gl_wsOpen := False, gl_wsServing := False\<rparr>
      in if err = http_ErrServerClosed then p
         else (case try_send err (gl_errCh p) of None \<Rightarrow> p | Some ch \<Rightarrow> p\<lparr>gl_errCh := ch\<rparr>))"
| "live_step OsSignal p = p\<lparr>gl_stage := GStopping\<rparr>"
| "live_step StartupFails p =
     (case try_recv (gl_errCh p) of
        None \<Rightarrow> p
      | Some (err, ch) \<Rightarrow> p\<lparr>gl_errCh := ch, gl_stage := GStopping\<rparr>)"
| "live_step CancelsContext p = p\<lparr>gl_done := True, gl_stage := GCancelled\<rparr>"
| "live_step ClosesTcp p = p\<lparr>gl_tcpOpen := False, gl_stage := GTcpClosed\<rparr>"
| "live_step ShutsWs p = p\<lparr>gl_wsOpen := False, gl_stage := GSleeping\<rparr>"
| "live_step GateExits p = p\<lparr>gl_stage := GExited\<rparr>"
| "live_step (LoopEnds l) p = p\<lparr>gl_loops := (gl_loops p)(l := False)\<rparr>"
| "live_step (GateInner e ev) p = p\<lparr>gp_gate := gate_step e ev (gp_gate p)\<rparr>"

fun live_enabled :: "live_event \<Rightarrow> gate_live \<Rightarrow> bool" where
  "live_enabled (TcpAccepts e) p \<longleftrightarrow> gl_stage p \<noteq> GExited \<and> gl_tcpLoop p \<and> gl_tcpOpen p"
| "live_enabled TcpAcceptFails p \<longleftrightarrow> gl_stage p \<noteq> GExited \<and> gl_tcpLoop p"
| "live_enabled (WsUpgrades e) p \<longleftrightarrow> gl_stage p \<noteq> GExited \<and> gl_wsOpen p"
| "live_enabled WsUpgradeFails p \<longleftrightarrow> gl_stage p \<noteq> GExited \<and> gl_wsOpen p"
| "live_enabled (WsServeEnds err) p \<longleftrightarrow> gl_stage p \<noteq> GExited \<and> gl_wsServing p \<and>
     (err = http_ErrServerClosed \<longrightarrow> gl_stage p = GSleeping)"
| "live_enabled OsSignal p \<longleftrightarrow> gl_stage p = GWaiting"
| "live_enabled StartupFails p \<longleftrightarrow> gl_stage p = GWaiting \<and> try_recv (gl_errCh p) \<noteq> None"
| "live_enabled CancelsContext p \<longleftrightarrow> gl_stage p = GStopping"
| "live_enabled ClosesTcp p \<longleftrightarrow> gl_stage p = GCancelled"
| "live_enabled ShutsWs p \<longleftrightarrow> gl_stage p = GTcpClosed"
| "live_enabled GateExits p \<longleftrightarrow> gl_stage p = GSleeping"
| "live_enabled (LoopEnds l) p \<longleftrightarrow> gl_stage p \<noteq> GExited \<and> gl_done p \<and> gl_loops p l"
| "live_enabled (GateInner e ev) p \<longleftrightarrow> gl_stage p \<noteq> GExited \<and> gate_enabled ev (gp_gate p) \<and>
     ev \<noteq> AcceptTCP \<and> ev \<noteq> AcceptWS \<and>
     (case loop_of ev of None \<Rightarrow> True | Some l \<Rightarrow> gl_loops p l)"

fun live_run :: "live_event list \<Rightarrow> gate_live \<Rightarrow> gate_live" where
  "live_run [] p = p"
| "live_run (ev # tr) p = live_run tr (live_step ev p)"

fun live_run_ok :: "live_event list \<Rightarrow> gate_live \<Rightarrow> bool" where
  "live_run_ok [] p \<longleftrightarrow> True"
| "live_run_ok (ev # tr) p \<longleftrightarrow> live_enabled ev p \<and> live_run_ok tr (live_step ev p)"

subsection \<open>The invariant of the process\<close>

definition live_inv :: "gate_live \<Rightarrow> bool" where
  "live_inv p \<longleftrightarrow>
     (gl_done p \<longleftrightarrow> gl_stage p \<noteq> GWaiting \<and> gl_stage p \<noteq> GStopping) \<and>
     (gp_tcp p \<noteq> None \<and> \<not> gl_done p \<longrightarrow> gl_tcpLoop p \<and> gl_tcpOpen p) \<and>
     (gl_tcpOpen p \<longrightarrow> gp_tcp p \<noteq> None) \<and> (gl_wsOpen p \<longrightarrow> gl_wsServing p) \<and>
     (gl_wsServing p \<longrightarrow> gp_ws p \<noteq> None \<and> ch_buf (gl_errCh p) = []) \<and>
     ch_cap (gl_errCh p) = 1 \<and> length (ch_buf (gl_errCh p)) \<le> 1 \<and>
     (gl_stage p \<in> {GTcpClosed, GSleeping, GExited} \<longrightarrow> \<not> gl_tcpOpen p) \<and>
     (gl_stage p \<in> {GSleeping, GExited} \<longrightarrow> \<not> gl_wsOpen p)"

lemma live_inv_start: "live_inv (go_live p)"
  by (auto simp: live_inv_def go_live_def make_chan_def)

lemma live_inv_step:
  assumes "live_inv p" and "live_enabled ev p"
  shows "live_inv (live_step ev p)"
  using assms by (cases ev) (auto simp: live_inv_def Let_def try_send_def try_recv_def split: option.splits list.splits)

lemma live_inv_run: "live_inv p \<Longrightarrow> live_run_ok tr p \<Longrightarrow> live_inv (live_run tr p)"
  by (induction tr arbitrary: p) (simp_all add: live_inv_step)

lemma live_static [simp]: "gp_tcp (live_run tr p) = gp_tcp p" "gp_ws (live_run tr p) = gp_ws p"
proof -
  have "gp_tcp (live_step ev p) = gp_tcp p \<and> gp_ws (live_step ev p) = gp_ws p" for ev p
    by (cases ev) (simp_all add: Let_def split: option.split)
  then show "gp_tcp (live_run tr p) = gp_tcp p" "gp_ws (live_run tr p) = gp_ws p"
    by (induction tr arbitrary: p) simp_all
qed

text \<open>The error channel never blocks the goroutine of the WebSocket server.\<close>

lemma errCh_has_room:
  "live_inv p \<Longrightarrow> live_enabled (WsServeEnds err) p \<Longrightarrow> try_send err (gl_errCh p) \<noteq> None"
  by (auto simp: live_inv_def try_send_def)

text \<open>The gate inside goes through states of its state machine only.\<close>

lemma live_run_reach:
  "gate_reach cfg (gp_gate p) \<Longrightarrow> live_run_ok tr p \<Longrightarrow> gate_reach cfg (gp_gate (live_run tr p))"
proof (induction tr arbitrary: p)
  case (Cons ev tr)
  have "gate_reach cfg (gate_step e AcceptTCP (gp_gate p))" "gate_reach cfg (gate_step e AcceptWS (gp_gate p))" for e
    using Cons.prems(1) by (auto intro: gate_reach.step simp del: gate_step.simps)
  moreover have "gate_reach cfg (gate_step e ev' (gp_gate p))" if "gate_enabled ev' (gp_gate p)" for e ev'
    using Cons.prems(1) that by (rule gate_reach.step)
  ultimately have "gate_reach cfg (gp_gate (live_step ev p))"
    using Cons.prems by (cases ev) (simp_all add: Let_def del: gate_step.simps split: option.split)
  with Cons show ?case by simp
qed simp

text \<open>Why \<open>main\<close> leaves its wait.\<close>

definition told :: "live_event list \<Rightarrow> bool" where
  "told tr \<longleftrightarrow> OsSignal \<in> set tr \<or> (\<exists>err. WsServeEnds err \<in> set tr \<and> err \<noteq> http_ErrServerClosed)"

lemma live_run_told:
  "live_run_ok tr p \<Longrightarrow> gl_stage (live_run tr p) \<noteq> GWaiting \<or> ch_buf (gl_errCh (live_run tr p)) \<noteq> [] \<Longrightarrow>
     gl_stage p \<noteq> GWaiting \<or> ch_buf (gl_errCh p) \<noteq> [] \<or> told tr"
proof (induction tr arbitrary: p)
  case (Cons ev tr)
  have "gl_stage (live_step ev p) \<noteq> GWaiting \<or> ch_buf (gl_errCh (live_step ev p)) \<noteq> [] \<or> told tr"
    using Cons.prems by (intro Cons.IH) simp_all
  moreover have "told (ev # tr)" if "told tr" using that by (auto simp: told_def)
  moreover have "gl_stage p \<noteq> GWaiting \<or> ch_buf (gl_errCh p) \<noteq> [] \<or> told [ev]"
    if "gl_stage (live_step ev p) \<noteq> GWaiting \<or> ch_buf (gl_errCh (live_step ev p)) \<noteq> []"
    using that Cons.prems(1)
    by (cases ev) (auto simp: told_def Let_def try_recv_def try_send_def split: if_splits option.splits list.splits)
  ultimately show ?case by (auto simp: told_def)
qed auto

lemma live_ws_needed:
  "live_run_ok tr p \<Longrightarrow> live_inv p \<Longrightarrow> WsServeEnds err \<in> set tr \<Longrightarrow> gp_ws p \<noteq> None"
proof (induction tr arbitrary: p)
  case (Cons ev tr)
  show ?case
  proof (cases "ev = WsServeEnds err")
    case True
    with Cons.prems show ?thesis by (auto simp: live_inv_def)
  next
    case False
    then have "gp_ws (live_step ev p) \<noteq> None"
      using Cons live_inv_step [of p ev] by auto
    then show ?thesis using live_static(2) [of "[ev]" p] by simp
  qed
qed simp

text \<open>The loops of \<open>Start\<close> run until the context is cancelled.\<close>

lemma live_loops:
  "live_inv p \<Longrightarrow> live_run_ok tr p \<Longrightarrow> \<not> gl_done (live_run tr p) \<Longrightarrow> gl_loops (live_run tr p) = gl_loops p \<and> \<not> gl_done p"
proof (induction tr arbitrary: p)
  case (Cons ev tr)
  then have "gl_loops (live_run tr (live_step ev p)) = gl_loops (live_step ev p) \<and> \<not> gl_done (live_step ev p)"
    using live_inv_step [of p ev] by simp
  moreover have "gl_loops (live_step ev p) = gl_loops p \<and> \<not> gl_done p" if "\<not> gl_done (live_step ev p)"
    using that Cons.prems(2) by (cases ev) (auto simp: Let_def split: option.splits if_splits)
  ultimately show ?case by simp
qed simp

subsection \<open>What the process does\<close>

text \<open>
  C37: The gate runs until it is told to stop. In every run of the process the gate inside only goes
  through states of its state machine; \<open>main\<close> leaves its wait only after a signal or after the
  WebSocket server, when there is one, failed, whatever errors \<open>Accept\<close> reports; until then the
  TCP listener, when there is one, is open and its accept loop and every goroutine of \<open>Start\<close>
  run; the error channel never holds more than its one place; and once the listeners are closed
  no event accepts a connection any more.
\<close>

theorem gate_runs_until_told:
  assumes "gate_main load listen path = Runs p" and "live_run_ok tr (go_live p)"
    and "q = live_run tr (go_live p)"
  shows "(\<exists>cfg. load path = Inr cfg \<and> gate_reach cfg (gp_gate q)) \<and>
    (gl_stage q \<noteq> GWaiting \<longrightarrow> OsSignal \<in> set tr \<or>
       (gp_ws p \<noteq> None \<and> (\<exists>err. WsServeEnds err \<in> set tr \<and> err \<noteq> http_ErrServerClosed))) \<and>
    (gl_stage q = GWaiting \<longrightarrow> gl_loops q = gate_loops (gp_gate p) \<and>
       (gp_tcp p \<noteq> None \<longrightarrow> gl_tcpLoop q \<and> gl_tcpOpen q)) \<and>
    length (ch_buf (gl_errCh q)) \<le> 1 \<and>
    (gl_stage q \<in> {GSleeping, GExited} \<longrightarrow>
       (\<forall>e. \<not> live_enabled (TcpAccepts e) q \<and> \<not> live_enabled (WsUpgrades e) q))"
proof -
  have inv: "live_inv q" using live_inv_run [OF live_inv_start assms(2)] assms(3) by simp
  obtain cfg where cfg: "load path = Inr cfg" "gp_gate p = boot_gate cfg"
    using gate_main_runs [OF assms(1)] by blast
  have "gate_reach cfg (gp_gate (go_live p))" using cfg gate_reach.boot by (simp add: go_live_def)
  then have reach: "gate_reach cfg (gp_gate q)" using live_run_reach assms(2,3) by blast
  have start: "gl_stage (go_live p) = GWaiting" "ch_buf (gl_errCh (go_live p)) = []" "gp_ws (go_live p) = gp_ws p"
    "gp_tcp (go_live p) = gp_tcp p" "gl_loops (go_live p) = gate_loops (gp_gate p)"
    by (simp_all add: go_live_def make_chan_def)
  have told: "told tr" if "gl_stage q \<noteq> GWaiting"
    using live_run_told [OF assms(2)] that start assms(3) by auto
  have ws: "gp_ws p \<noteq> None" if "WsServeEnds err \<in> set tr" for err
    using live_ws_needed [OF assms(2) _ that] live_inv_start start by auto
  have loops: "gl_loops q = gate_loops (gp_gate p)" if "gl_stage q = GWaiting"
    using live_loops [OF live_inv_start assms(2)] that inv start assms(3) by (simp add: live_inv_def)
  have tcp: "gl_tcpLoop q \<and> gl_tcpOpen q" if "gl_stage q = GWaiting" "gp_tcp p \<noteq> None"
    using that inv start assms(3) by (simp add: live_inv_def)
  have closed: "\<not> live_enabled (TcpAccepts e) q \<and> \<not> live_enabled (WsUpgrades e) q"
    if "gl_stage q \<in> {GSleeping, GExited}" for e
    using that inv by (auto simp: live_inv_def)
  have one: "length (ch_buf (gl_errCh q)) \<le> 1" using inv by (simp add: live_inv_def)
  have why: "OsSignal \<in> set tr \<or> (gp_ws p \<noteq> None \<and> (\<exists>err. WsServeEnds err \<in> set tr \<and> err \<noteq> http_ErrServerClosed))"
    if "gl_stage q \<noteq> GWaiting"
    using told [OF that] ws unfolding told_def by blast
  show ?thesis using cfg(1) reach why loops tcp one closed by blast
qed

text \<open>
  A gate with both listeners whose WebSocket address is in use: it accepts a TCP connection after an
  error of \<open>Accept\<close>, and then stops as a whole.
\<close>

definition both_cfg :: GateConfig where
  "both_cfg = demo_cfg\<lparr>EnableTCP := True, EnableWebSocket := True, WebSocketListenAddr := '':9001''\<rparr>"

definition both_process :: gate_process where
  "both_process =
     \<lparr>gp_gate = boot_gate both_cfg, gp_envelopeLimit = envelope_limit (MaxEnvelopeSize both_cfg),
      gp_tcp = Some (ListenAddr both_cfg), gp_ws = Some ('':9001'', ''/ws'', WebSocketUseJSON both_cfg)\<rparr>"

definition ws_fails :: "live_event list" where
  "ws_fails = [TcpAcceptFails, TcpAccepts (demo_env 1), WsServeEnds (LibError ''address in use''), StartupFails,
     CancelsContext, ClosesTcp, ShutsWs]"

lemma both_main: "gate_main (\<lambda>_. Inr both_cfg) (\<lambda>_. None) ''gate.yaml'' = Runs both_process"
  by (simp add: gate_main_def both_process_def both_cfg_def demo_cfg_def enabled_listeners_def Let_def)

lemma ws_fails_runs:
  "live_run_ok ws_fails (go_live both_process)" "gl_stage (live_run ws_fails (go_live both_process)) = GSleeping"
  by (simp_all add: ws_fails_def go_live_def both_process_def http_ErrServerClosed_def make_chan_def
      try_send_def try_recv_def)

theorem gate_runs_until_told_witness:
  "gl_stage (live_run ws_fails (go_live both_process)) = GSleeping \<and>
   gate_reach both_cfg (gp_gate (live_run ws_fails (go_live both_process))) \<and>
   \<not> live_enabled (TcpAccepts (demo_env 2)) (live_run ws_fails (go_live both_process))"
  using gate_runs_until_told [OF both_main ws_fails_runs(1) refl] ws_fails_runs(2) by simp

end
