(* ===== verification/Serving.thy ===== *)
theory Serving
  imports ServiceFacts GameInv Startup
begin

text \<open>
  The service and the game server as processes: \<open>ListenAndServe\<close> with its accept loop, the goroutine
  that closes the listener when the context is cancelled, the periodic goroutine of the game
  server, and the end of the process when the loop returns. The loop is the same code in both
  servers; the locale states what follows from it once.
\<close>

subsection \<open>The accept loop\<close>

text \<open>
  \<open>AcceptFails\<close> is any error of \<open>Accept\<close>, \<open>Cancelled\<close> the signal that ends the context, \<open>Closes\<close> the
  step of the closing goroutine, \<open>TickerEnds\<close> the end of the periodic goroutine and \<open>Inner\<close> a step of
  the server's other goroutines.
\<close>

datatype ('i, 'e) serve_event =
    Accepts 'i | AcceptFails | Cancelled | Closes | TickerEnds | Inner 'e

record 's serving =
  sv_state :: 's
  sv_done :: bool
  sv_closed :: bool
  sv_ticker :: bool
  sv_returned :: bool

definition start_serving :: "bool \<Rightarrow> 's \<Rightarrow> 's serving" where
  "start_serving ticker s =
     \<lparr>sv_state = s, sv_done = False, sv_closed = False, sv_ticker = ticker, sv_returned = False\<rparr>"

fun serve_step :: "('i \<Rightarrow> 's \<Rightarrow> 's) \<Rightarrow> ('s \<Rightarrow> 's) \<Rightarrow> ('e \<Rightarrow> 's \<Rightarrow> 's) \<Rightarrow>
    ('i, 'e) serve_event \<Rightarrow> 's serving \<Rightarrow> 's serving" where
  "serve_step acc cls inner (Accepts i) p = p\<lparr>sv_state := acc i (sv_state p)\<rparr>"
| "serve_step acc cls inner AcceptFails p = (if sv_done p then p\<lparr>sv_returned := True\<rparr> else p)"
| "serve_step acc cls inner Cancelled p = p\<lparr>sv_done := True\<rparr>"
| "serve_step acc cls inner Closes p = p\<lparr>sv_state := cls (sv_state p), sv_closed := True\<rparr>"
| "serve_step acc cls inner TickerEnds p = p\<lparr>sv_ticker := False\<rparr>"
| "serve_step acc cls inner (Inner e) p = p\<lparr>sv_state := inner e (sv_state p)\<rparr>"

text \<open>
  When each can happen. Nothing is accepted from a closed listener, the listener is closed after
  the signal, a tick needs the periodic goroutine, which may take one more tick after the signal,
  and nothing happens once the loop has returned, for then the process ends.
\<close>

fun serve_enabled :: "('e \<Rightarrow> 's \<Rightarrow> bool) \<Rightarrow> ('e \<Rightarrow> bool) \<Rightarrow> ('i, 'e) serve_event \<Rightarrow> 's serving \<Rightarrow> bool" where
  "serve_enabled en tick (Accepts i) p \<longleftrightarrow> \<not> sv_returned p \<and> \<not> sv_closed p"
| "serve_enabled en tick AcceptFails p \<longleftrightarrow> \<not> sv_returned p"
| "serve_enabled en tick Cancelled p \<longleftrightarrow> \<not> sv_returned p"
| "serve_enabled en tick Closes p \<longleftrightarrow> \<not> sv_returned p \<and> sv_done p \<and> \<not> sv_closed p"
| "serve_enabled en tick TickerEnds p \<longleftrightarrow> \<not> sv_returned p \<and> sv_done p \<and> sv_ticker p"
| "serve_enabled en tick (Inner e) p \<longleftrightarrow>
     \<not> sv_returned p \<and> en e (sv_state p) \<and> (tick e \<longrightarrow> sv_ticker p)"

text \<open>
  What such a server promises, in terms of its runs: whatever happens, it keeps its invariant, goes
  on serving with its listener open as long as there is no signal, and after the signal needs
  nothing but its own closing goroutine and the failing \<open>Accept\<close> to return.
\<close>

definition serves_until_told :: "(('i, 'e) serve_event list \<Rightarrow> 's serving \<Rightarrow> 's serving) \<Rightarrow>
    (('i, 'e) serve_event list \<Rightarrow> 's serving \<Rightarrow> bool) \<Rightarrow> ('s \<Rightarrow> bool) \<Rightarrow> 's serving \<Rightarrow> bool" where
  "serves_until_told run ok good p \<longleftrightarrow> (\<forall>tr. ok tr p \<longrightarrow>
     good (sv_state (run tr p)) \<and>
     (Cancelled \<notin> set tr \<longrightarrow> \<not> sv_returned (run tr p) \<and> \<not> sv_closed (run tr p)) \<and>
     (Cancelled \<in> set tr \<and> \<not> sv_returned (run tr p) \<longrightarrow>
        (\<exists>tr'. ok tr' (run tr p) \<and> sv_returned (run tr' (run tr p)) \<and> set tr' \<subseteq> {Closes, AcceptFails})))"

locale accept_loop =
  fixes acc :: "'i \<Rightarrow> 's \<Rightarrow> 's"
    and cls :: "'s \<Rightarrow> 's"
    and inner :: "'e \<Rightarrow> 's \<Rightarrow> 's"
    and en :: "'e \<Rightarrow> 's \<Rightarrow> bool"
    and tick :: "'e \<Rightarrow> bool"
    and inv :: "'s \<Rightarrow> bool"
  assumes inv_acc: "inv s \<Longrightarrow> inv (acc i s)"
    and inv_cls: "inv s \<Longrightarrow> inv (cls s)"
    and inv_inner: "inv s \<Longrightarrow> en e s \<Longrightarrow> inv (inner e s)"
begin

fun serve_run :: "('i, 'e) serve_event list \<Rightarrow> 's serving \<Rightarrow> 's serving" where
  "serve_run [] p = p"
| "serve_run (ev # tr) p = serve_run tr (serve_step acc cls inner ev p)"

fun serve_run_ok :: "('i, 'e) serve_event list \<Rightarrow> 's serving \<Rightarrow> bool" where
  "serve_run_ok [] p \<longleftrightarrow> True"
| "serve_run_ok (ev # tr) p \<longleftrightarrow>
     serve_enabled en tick ev p \<and> serve_run_ok tr (serve_step acc cls inner ev p)"

lemma run_inv: "inv (sv_state p) \<Longrightarrow> serve_run_ok tr p \<Longrightarrow> inv (sv_state (serve_run tr p))"
proof (induction tr arbitrary: p)
  case (Cons ev tr)
  then have "inv (sv_state (serve_step acc cls inner ev p))"
    by (cases ev) (auto simp: inv_acc inv_cls inv_inner)
  with Cons show ?case by simp
qed simp

text \<open>No error of \<open>Accept\<close> ends a server: it returns and closes its listener only after the signal.\<close>

lemma step_done: "sv_done (serve_step acc cls inner ev p) \<longleftrightarrow> sv_done p \<or> ev = Cancelled"
  by (cases ev) auto

lemma run_done: "sv_done (serve_run tr p) \<longleftrightarrow> sv_done p \<or> Cancelled \<in> set tr"
  by (induction tr arbitrary: p) (auto simp: step_done)

lemma run_ends_after_signal:
  "sv_returned p \<or> sv_closed p \<longrightarrow> sv_done p \<Longrightarrow> serve_run_ok tr p \<Longrightarrow>
     sv_returned (serve_run tr p) \<or> sv_closed (serve_run tr p) \<longrightarrow> sv_done (serve_run tr p)"
proof (induction tr arbitrary: p)
  case (Cons ev tr)
  then have "sv_returned (serve_step acc cls inner ev p) \<or> sv_closed (serve_step acc cls inner ev p) \<longrightarrow>
      sv_done (serve_step acc cls inner ev p)"
    by (cases ev) (auto split: if_splits)
  with Cons show ?case by simp
qed simp

theorem serves_until_signal:
  assumes "serve_run_ok tr (start_serving b s)" and "Cancelled \<notin> set tr"
  shows "\<not> sv_returned (serve_run tr (start_serving b s))" "\<not> sv_closed (serve_run tr (start_serving b s))"
  using run_ends_after_signal [of "start_serving b s" tr] assms run_done [of tr "start_serving b s"]
  by (auto simp: start_serving_def)

text \<open>
  After the signal the listener can be closed, from then on no connection is accepted, and the next
  \<open>Accept\<close>, which fails on a closed listener, ends the process.
\<close>

theorem stops_after_signal:
  assumes "\<not> sv_returned p" and "sv_done p"
  shows "\<exists>tr. serve_run_ok tr p \<and> sv_returned (serve_run tr p) \<and> set tr \<subseteq> {Closes, AcceptFails}"
proof (cases "sv_closed p")
  case True
  with assms show ?thesis by (intro exI [of _ "[AcceptFails]"]) simp
next
  case False
  with assms show ?thesis by (intro exI [of _ "[Closes, AcceptFails]"]) simp
qed

lemma closed_stays: "sv_closed p \<Longrightarrow> serve_run_ok tr p \<Longrightarrow> sv_closed (serve_run tr p) \<and> (\<forall>i. Accepts i \<notin> set tr)"
proof (induction tr arbitrary: p)
  case (Cons ev tr)
  then have "sv_closed (serve_step acc cls inner ev p)" by (cases ev) auto
  with Cons show ?case by fastforce
qed simp

lemma returned_stays: "sv_returned p \<Longrightarrow> serve_run_ok tr p \<Longrightarrow> tr = []"
  by (cases tr; cases "hd tr") auto

lemma started: "inv s \<Longrightarrow> serves_until_told serve_run serve_run_ok inv (start_serving b s)"
  unfolding serves_until_told_def
proof (intro allI impI conjI)
  fix tr assume s: "inv s" and ok: "serve_run_ok tr (start_serving b s)"
  show "inv (sv_state (serve_run tr (start_serving b s)))"
    by (rule run_inv [OF _ ok]) (simp add: start_serving_def s)
  show "\<not> sv_returned (serve_run tr (start_serving b s))" "\<not> sv_closed (serve_run tr (start_serving b s))"
    if "Cancelled \<notin> set tr"
    using serves_until_signal [OF ok that] by simp_all
  show "\<exists>tr'. serve_run_ok tr' (serve_run tr (start_serving b s)) \<and>
      sv_returned (serve_run tr' (serve_run tr (start_serving b s))) \<and> set tr' \<subseteq> {Closes, AcceptFails}"
    if "Cancelled \<in> set tr \<and> \<not> sv_returned (serve_run tr (start_serving b s))"
    using that by (intro stops_after_signal) (simp_all add: run_done)
qed

end

subsection \<open>The service\<close>

definition svc_ListenAndServe ::
    "(string \<Rightarrow> go_error option) \<Rightarrow> string \<Rightarrow> 'd NetServer \<Rightarrow> go_error + 'd NetServer serving" where
  "svc_ListenAndServe listen addr n =
     (case listen addr of Some err \<Rightarrow> Inl err | None \<Rightarrow> Inr (start_serving False n))"

definition svc_accepts :: "instream \<times> outstream \<Rightarrow> 'd NetServer \<Rightarrow> 'd NetServer" where
  "svc_accepts io n = snd (acceptGate (fst io) (snd io) n)"

definition svc_closes :: "'d NetServer \<Rightarrow> 'd NetServer" where
  "svc_closes n = n\<lparr>nsClosing := True\<rparr>"

definition svc_inner :: "senv \<times> svc_event \<Rightarrow> 'd NetServer \<Rightarrow> 'd NetServer" where
  "svc_inner ev n = svc_step (fst ev) (snd ev) n"

definition svc_inner_enabled :: "senv \<times> svc_event \<Rightarrow> 'd NetServer \<Rightarrow> bool" where
  "svc_inner_enabled ev n \<longleftrightarrow>
     svc_enabled (snd ev) n \<and> (case snd ev of GateConnects _ _ \<Rightarrow> False | _ \<Rightarrow> True)"

interpretation svc_loop: accept_loop svc_accepts svc_closes svc_inner svc_inner_enabled "\<lambda>_. False" svc_inv
proof unfold_locales
  show "svc_inv n \<Longrightarrow> svc_inv (svc_accepts io n)" for io and n :: "'d NetServer"
    using svc_inv_step [of n "GateConnects (fst io) (snd io)"] by (simp add: svc_accepts_def)
  show "svc_inv n \<Longrightarrow> svc_inv (svc_closes n)" for n :: "'d NetServer"
    by (simp add: svc_closes_def svc_inv_def)
  show "svc_inv n \<Longrightarrow> svc_inner_enabled ev n \<Longrightarrow> svc_inv (svc_inner ev n)" for ev and n :: "'d NetServer"
    by (simp add: svc_inner_def svc_inner_enabled_def svc_inv_step)
qed

subsection \<open>The game server\<close>

definition game_ListenAndServe ::
    "(string \<Rightarrow> go_error option) \<Rightarrow> string \<Rightarrow> 'd game \<Rightarrow> go_error + 'd game serving" where
  "game_ListenAndServe listen addr gm =
     (case listen addr of
        Some err \<Rightarrow> Inl err
      | None \<Rightarrow> Inr (start_serving (gm_persistInterval gm > 0) gm))"

definition game_accepts_conn :: "instream \<times> outstream \<Rightarrow> 'd game \<Rightarrow> 'd game" where
  "game_accepts_conn io gm = snd (acceptService (fst io) (snd io) gm)"

definition game_inner :: "pb \<Rightarrow> time \<times> game_event \<Rightarrow> 'd game \<Rightarrow> 'd game" where
  "game_inner pb ev gm = game_step pb (fst ev) (snd ev) gm"

definition game_inner_enabled :: "time \<times> game_event \<Rightarrow> 'd game \<Rightarrow> bool" where
  "game_inner_enabled ev gm \<longleftrightarrow>
     game_enabled (snd ev) gm \<and> (case snd ev of SvcConnect _ _ \<Rightarrow> False | _ \<Rightarrow> True)"

definition is_persist_tick :: "time \<times> game_event \<Rightarrow> bool" where
  "is_persist_tick ev \<longleftrightarrow> (case snd ev of PersistTick _ \<Rightarrow> True | _ \<Rightarrow> False)"

interpretation game_loop: accept_loop game_accepts_conn "\<lambda>gm. gm" "game_inner pb" game_inner_enabled
  is_persist_tick "game_reach st opts interval db" for pb st opts interval db
proof unfold_locales
  show "game_reach st opts interval db gm \<Longrightarrow> game_reach st opts interval db (game_accepts_conn io gm)" for gm io
    using game_reach.step [where ev = "SvcConnect (fst io) (snd io)"] by (fastforce simp: game_accepts_conn_def)
  show "game_reach st opts interval db gm \<Longrightarrow> game_inner_enabled ev gm \<Longrightarrow>
      game_reach st opts interval db (game_inner pb ev gm)" for gm ev
    unfolding game_inner_def by (rule game_reach.step) (simp_all add: game_inner_enabled_def)
qed

text \<open>
  A signal does not make the game server save: it can stop with players and database as they are.
\<close>

lemma game_stops_without_saving:
  assumes "\<not> sv_returned p" and "sv_done p" and "\<not> sv_closed p"
  shows "game_loop.serve_run_ok pb [Closes, AcceptFails] p"
    and "sv_returned (game_loop.serve_run pb [Closes, AcceptFails] p)"
    and "sv_state (game_loop.serve_run pb [Closes, AcceptFails] p) = sv_state p"
  using assms by simp_all

subsection \<open>Both servers\<close>

text \<open>
  C18: The service and the game server serve until they are told to stop. When \<open>main\<close> has got as far as
  serving, then in every run, whatever errors \<open>Accept\<close> reports and whatever the goroutines do, the
  service keeps the invariant of its routes and the game server only goes through states of its
  state machine; without a signal the accept loop does not return and the listener stays open;
  and after a signal, at any point, the closing of the listener and the failure of the next \<open>Accept\<close>
  can still happen and make the loop return.
\<close>

theorem servers_serve_until_told:
  assumes "service_main load nc pingf jc listen path db = Runs (n, limit)"
    and "svc_ListenAndServe listen addr n = Inr p"
    and "game_main load' nc pingf jc listen path' db' = Runs (gm, limit')"
    and "game_ListenAndServe listen addr' gm = Inr q"
  shows "serves_until_told svc_loop.serve_run svc_loop.serve_run_ok svc_inv p \<and>
    (\<exists>rd opts. serves_until_told (game_loop.serve_run pb) (game_loop.serve_run_ok pb)
       (game_reach (NewRedisStore rd jc) opts (30 * second) db') q)"
proof
  obtain cfg :: ServiceConfig and rd where n: "n = boot_service (svcGameAddr cfg)
      (conn_options (svcConnReadTimeoutSec cfg) (svcConnWriteTimeoutSec cfg) (svcConnKeepAliveSec cfg))
      (redis_login_service rd jc) db"
    using service_main_runs [OF assms(1)] by blast
  have p: "p = start_serving False n"
    using assms(2) by (simp add: svc_ListenAndServe_def split: option.splits)
  show "serves_until_told svc_loop.serve_run svc_loop.serve_run_ok svc_inv p"
    unfolding p by (rule svc_loop.started) (simp add: n svc_inv_boot)
  obtain rd' opts where gm: "gm = boot_game rd' jc opts db'"
    using game_main_runs [OF assms(3)] by blast
  have q: "q = start_serving (gm_persistInterval gm > 0) gm"
    using assms(4) by (simp add: game_ListenAndServe_def split: option.splits)
  have "game_reach (NewRedisStore rd' jc) opts (30 * second) db' gm"
    unfolding gm boot_game_def by (rule game_reach.boot)
  then have "serves_until_told (game_loop.serve_run pb) (game_loop.serve_run_ok pb)
      (game_reach (NewRedisStore rd' jc) opts (30 * second) db') q"
    unfolding q by (rule game_loop.started)
  then show "\<exists>rd opts. serves_until_told (game_loop.serve_run pb) (game_loop.serve_run_ok pb)
      (game_reach (NewRedisStore rd jc) opts (30 * second) db') q"
    by blast
qed

text \<open>Both servers over a database in memory that answers its first ping.\<close>

definition demo_redis_cfg :: RedisConfig where
  "demo_redis_cfg = \<lparr>rcfgAddr = '''', rcfgPassword = '''', rcfgDB = 0, rcfgUIDKey = '''', rcfgPoolSize = 1,
     rcfgMinIdleConns = 1, rcfgHealthCheckSec = 0\<rparr>"

definition demo_svc_cfg :: ServiceConfig where
  "demo_svc_cfg = \<lparr>svcListenAddr = '':9100'', svcGameAddr = '':9200'', svcConnReadTimeoutSec = 0,
     svcConnWriteTimeoutSec = 0, svcConnKeepAliveSec = 0, svcMaxEnvelopeSize = 0, svcRedis = demo_redis_cfg\<rparr>"

definition demo_game_cfg :: GameConfig where
  "demo_game_cfg = \<lparr>gmListenAddr = '':9200'', gmServerID = '''', gmConnReadTimeoutSec = 0,
     gmConnWriteTimeoutSec = 0, gmConnKeepAliveSec = 0, gmMaxEnvelopeSize = 0, gmRedis = demo_redis_cfg\<rparr>"

lemma demo_mains:
  "\<exists>n l. service_main (\<lambda>_. Inr demo_svc_cfg) (\<lambda>_. mem_redis) (\<lambda>_ _. None) profile_text (\<lambda>_. None) ''s'' Map.empty = Runs (n, l)"
  "\<exists>gm l. game_main (\<lambda>_. Inr demo_game_cfg) (\<lambda>_. mem_redis) (\<lambda>_ _. None) profile_text (\<lambda>_. None) ''g'' Map.empty = Runs (gm, l)"
  by (simp_all add: service_main_def game_main_def InitRedis_def RDB_def NewRedisDao_def Let_def NewRedisDaoWithClient_def
      RegisterModule_def NewServer_def svc_Register_def svc_NewRegistry_def Register_def NewRegistry_def
      route_simps MsgChatSend_def demo_svc_cfg_def demo_game_cfg_def)

theorem servers_serve_until_told_witness:
  "\<exists>n l. service_main (\<lambda>_. Inr demo_svc_cfg) (\<lambda>_. mem_redis) (\<lambda>_ _. None) profile_text (\<lambda>_. None) ''s''
       Map.empty = Runs (n, l) \<and>
     serves_until_told svc_loop.serve_run svc_loop.serve_run_ok svc_inv (start_serving False n)"
proof -
  obtain n l where n: "service_main (\<lambda>_. Inr demo_svc_cfg) (\<lambda>_. mem_redis) (\<lambda>_ _. None) profile_text (\<lambda>_. None)
      ''s'' Map.empty = Runs (n, l)"
    using demo_mains(1) by blast
  obtain gm l' where gm: "game_main (\<lambda>_. Inr demo_game_cfg) (\<lambda>_. mem_redis) (\<lambda>_ _. None) profile_text
      (\<lambda>_. None) ''g'' Map.empty = Runs (gm, l')"
    using demo_mains(2) by blast
  have "svc_ListenAndServe (\<lambda>_. None) '':9100'' n = Inr (start_serving False n)"
    "game_ListenAndServe (\<lambda>_. None) '':9200'' gm = Inr (start_serving (gm_persistInterval gm > 0) gm)"
    by (simp_all add: svc_ListenAndServe_def game_ListenAndServe_def)
  from servers_serve_until_told [OF n this(1) gm this(2)] n show ?thesis by blast
qed

end
