(* ===== verification/Shutdown.thy ===== *)
theory Shutdown
  imports GateProcess Serving
begin

text \<open>
  What the end of one process means to the others. A gate that stops, like a link between gate and
  service that breaks, tells nobody that its sessions are gone.
\<close>

definition gate_shutdown :: "live_event list" where
  "gate_shutdown = [OsSignal, CancelsContext, ClosesTcp, ShutsWs, GateExits]"

lemma gate_shutdown_runs:
  assumes "gl_stage q = GWaiting"
  shows "live_run_ok gate_shutdown q" "gl_stage (live_run gate_shutdown q) = GExited"
    "gp_gate (live_run gate_shutdown q) = gp_gate q"
  using assms by (simp_all add: gate_shutdown_def)

lemma gate_link_ends:
  "nsRouters (handleGateConn_end gid n) = nsRouters n" "nsDb (handleGateConn_end gid n) = nsDb n"
  "nsPlayerRoute (handleGateConn_end gid n) = nsPlayerRoute n"
  "nsSessionGate n sid = Some gid \<Longrightarrow>
     snd (replyToGate e sid m data (handleGateConn_end gid n)) = Some InternalErrNoGateConnection"
  by (simp_all add: handleGateConn_end_def replyToGate_def)

text \<open>
  A gate stops while a session of its is online: main leaves its wait on a signal, cancels, closes
  its listeners and exits without a word about the session. When the service then sees the
  gate's connection end, it forgets the session's route, but what it has queued for the game
  server stays the same: the game server, whose player is active, never hears of it.
\<close>

lemma gate_exit_leaves_players_online:
  assumes "gl_stage q = GWaiting" and "sm_Get sid (sessions (gp_gate q)) = Some s"
    and "s_State (g_sess (gp_gate q) s) = SessionAuthenticated" and "nsSessionGate n sid = Some gid"
  shows "live_run_ok gate_shutdown q \<and>
    s_State (g_sess (gp_gate (live_run gate_shutdown q)) s) = SessionAuthenticated \<and>
    servicePool (gp_gate (live_run gate_shutdown q)) = servicePool (gp_gate q) \<and>
    nsSessionGate (handleGateConn_end gid n) sid = None \<and>
    nsRouters (handleGateConn_end gid n) = nsRouters n"
  using assms gate_shutdown_runs [OF assms(1)] gate_link_ends(1) by (simp add: handleGateConn_end_def)

end
