(* ===== verification/Sha256_Vector.thy ===== *)
theory Sha256_Vector
  imports Sha256
begin

text \<open>The published one-block test vector of SHA-256, evaluated by the kernel.\<close>

lemma sha256_abc:
  "hex_encode (sha256 (bytes_of_string ''abc'')) =
     ''ba7816bf8f01cfea414140de5dae2223b00361a396177a9cb410ff61f20015ad''"
  by code_simp

end
