(* ===== verification/EndToEnd.thy ===== *)
theory EndToEnd
  imports GateProps ServiceProps
begin

text \<open>
  A login across the components: from the client's envelope at the gate, over the pool to the
  service, through the database, and back to the session of the gate.
\<close>

subsection \<open>The gate's half\<close>

text \<open>A fresh session has not tried to log in yet, so its first attempt is allowed.\<close>

lemma first_attempt_allowed:
  "s_LoginWindowStart ss = None \<Longrightarrow> fst (allowLogin_step t limit window ss)"
  by (simp add: allowLogin_step_def Let_def)

lemma allowLogin_step_keeps:
  "s_ID (snd (allowLogin_step t limit window ss)) = s_ID ss"
  "s_PlayerID (snd (allowLogin_step t limit window ss)) = s_PlayerID ss"
  "s_State (snd (allowLogin_step t limit window ss)) = s_State ss"
  "s_Conn (snd (allowLogin_step t limit window ss)) = s_Conn ss"
  by (simp_all add: allowLogin_step_def Let_def split: option.split)

text \<open>What a first login puts on the pool to the service.\<close>

definition login_forward :: "gate \<Rightarrow> Envelope \<Rightarrow> Envelope" where
  "login_forward g env = \<lparr>eMsgId = eMsgId env, eSessionId = nextID g + 1, ePlayerId = 0, ePayload = ePayload env\<rparr>"

lemma firstLogin_forwards:
  assumes "servicePool g = Some pool"
  shows "servicePool (firstLogin e c env g) =
    Some (fst (pool_Send (drain e) (nextID g + 1) (login_forward g env) pool))"
proof -
  let ?g1 = "snd (createSessionForConn e c g)"
  have same: "g_sess ?g1 = g_sess (created e c g)" "sessions ?g1 = sessions (created e c g)"
    "servicePool ?g1 = servicePool (created e c g)"
    using conn_Send_same by (auto simp: createSessionForConn_alt same_but_conns_def)
  have pool: "servicePool ?g1 = Some pool" using assms by (simp add: same created_def Let_def)
  have ok: "fst (allowLogin e (g_sessNext g) ?g1)"
    by (simp add: allowLogin_alt same first_attempt_allowed) (simp add: created_def Let_def first_attempt_allowed)
  have "firstLogin e c env g = sendToService e ''login'' (login_forward g env) (snd (allowLogin e (g_sessNext g) ?g1))"
    using ok by (simp add: firstLogin_def Let_def split_def login_forward_def allowLogin_alt same
        allowLogin_step_keeps)
  then show ?thesis
    using pool by (simp add: sendToService_def allowLogin_alt Let_def sm_Get_def same split_def
        allowLogin_step_keeps login_forward_def)
qed

lemma OnEnvelope_firstLogin:
  "c_sessionID (g_conns g c) = 0 \<Longrightarrow> msg_id env = MsgLoginReq \<Longrightarrow> OnEnvelope e c env g = firstLogin e c env g"
  by (simp add: OnEnvelope_def route_simps)

text \<open>A login reply for a session of the gate.\<close>

lemma loginRsp_binds:
  assumes "gate_inv g" and "sm_Get sid (sessions g) = Some s"
    and "unmarshalLoginRsp (codec e) data = Some \<lparr>lrPlayerId = p\<rparr>"
  shows "byPlayer (sessions (OnServiceEnvelope e
        \<lparr>eMsgId = to_int32 MsgLoginRsp, eSessionId = sid, ePlayerId = 0, ePayload = data\<rparr> g)) p = Some s"
    and "s_PlayerID (g_sess (OnServiceEnvelope e
        \<lparr>eMsgId = to_int32 MsgLoginRsp, eSessionId = sid, ePlayerId = 0, ePayload = data\<rparr> g) s) = p"
    and "s_State (g_sess (OnServiceEnvelope e
        \<lparr>eMsgId = to_int32 MsgLoginRsp, eSessionId = sid, ePlayerId = 0, ePayload = data\<rparr> g) s) = SessionAuthenticated"
proof -
  let ?env = "\<lparr>eMsgId = to_int32 MsgLoginRsp, eSessionId = sid, ePlayerId = 0, ePayload = data\<rparr>"
  have "same_but_conns (onLoginRsp e sid data g) (OnServiceEnvelope e ?env g)"
    unfolding OnServiceEnvelope_def Let_def
    by (auto simp: route_simps Reply_def conn_Send_same split: option.split)
  then show "byPlayer (sessions (OnServiceEnvelope e ?env g)) p = Some s"
    "s_PlayerID (g_sess (OnServiceEnvelope e ?env g) s) = p"
    "s_State (g_sess (OnServiceEnvelope e ?env g) s) = SessionAuthenticated"
    by (simp_all add: same_but_conns_def onLoginRsp_alt [OF assms(2,3)])
qed

subsection \<open>The service's half\<close>

definition login_ctx :: "Envelope \<Rightarrow> Context" where
  "login_ctx env = \<lparr>cxSessionID = eSessionId env, cxPlayerID = ePlayerId env, cxMsgID = msg_id env,
     cxPayload = ePayload env, cxTraceID = ''session-'' @ dec_int (sint (eSessionId env))\<rparr>"

lemma handleGateConn_login:
  assumes "nsRegistry n = boot_registry svc" and "msg_id env = MsgLoginReq" and "eSessionId env \<noteq> 0"
  shows "handleGateConn_env e gid env n =
    fst (onLogin e svc (login_ctx env) (n\<lparr>nsSessionGate := (nsSessionGate n)(eSessionId env \<mapsto> gid)\<rparr>))"
proof -
  have "\<not> (case GetRoute (msg_id env) of None \<Rightarrow> False | Some rule \<Rightarrow> Target rule = TargetGame)"
    using assms(2) to_game_iff [of "msg_id env"] by (simp add: route_simps)
  with assms show ?thesis
    by (simp add: handleGateConn_env_def Let_def dispatchEnvelope_def login_ctx_def Dispatch_def boot_handlers
        route_simps)
qed

subsection \<open>Together\<close>

text \<open>The service's answer to the login of a session.\<close>

definition login_answer :: "pb \<Rightarrow> int64 \<Rightarrow> int64 \<Rightarrow> Envelope" where
  "login_answer cd sid p = \<lparr>eMsgId = to_int32 MsgLoginRsp, eSessionId = sid, ePlayerId = 0,
     ePayload = or_nil (marshalLoginRsp cd \<lparr>lrPlayerId = p\<rparr>)\<rparr>"

text \<open>
  C1: A login across gate, service and database. A client without a session sends a login
  request to a running gate: the gate puts one envelope with the new session's id on the pool to
  the service. When the service handles that envelope for an account whose role resolves to
  player p, it writes one answer to the gate's connection and the account has role p in the
  database. When the gate receives that answer, the client's session is authenticated as p and p
  is bound to it, whichever session p was bound to before.
\<close>

theorem login_end_to_end:
  assumes "gate_reach cfg g" and "c < g_connNext g" and "c_sessionID (g_conns g c) = 0"
    and "nextID g \<noteq> - 1" and "msg_id env = MsgLoginReq" and "servicePool g = Some pool"
    and "redis_laws rd view jc" and "role_table_ok (redis_roles view (nsDb n)) (redis_counter view (nsDb n))"
    and "nsRegistry n = boot_registry (redis_login_service rd jc)" and "nsGateConns n gid = Some bc"
    and "nsGameRouter n = Some gr" and "nsPlayerRoute n p = None \<or> nsPlayerRoute n p = Some gr"
    and "gr_sendCh (nsRouters n gr) = Some ch" and "length (ch_buf ch) < ch_cap ch"
    and "0 \<le> gr_sendRetryMax (nsRouters n gr)"
    and "unmarshalLoginReq (se_codec se) (ePayload env) = Some req" and "lqPlatform req = PlatformTest"
    and "login_account req \<noteq> ''''"
    and "ResolveRoleID (redis_login_service rd jc) (login_account req) (nsDb n) = (Inr (p, x), d')"
    and "unmarshalLoginRsp (codec ge) (or_nil (marshalLoginRsp (se_codec se) \<lparr>lrPlayerId = p\<rparr>)) = Some \<lparr>lrPlayerId = p\<rparr>"
    and "n' = handleGateConn_env se gid (login_forward g env) n"
    and "g' = OnServiceEnvelope ge (login_answer (se_codec se) (nextID g + 1) p) (OnEnvelope e c env g)"
  shows "servicePool (OnEnvelope e c env g) =
      Some (fst (pool_Send (drain e) (nextID g + 1) (login_forward g env) pool)) \<and>
    nsGateConns n' gid =
      Some (fst (bc_WriteEnvelope (se_codec se) (se_now se) (login_answer (se_codec se) (nextID g + 1) p) bc)) \<and>
    redis_roles view (nsDb n') (login_account req) = Some p \<and>
    s_PlayerID (g_sess g' (g_sessNext g)) = p \<and>
    s_State (g_sess g' (g_sessNext g)) = SessionAuthenticated \<and>
    byPlayer (sessions g') p = Some (g_sessNext g)"
proof -
  let ?F = "login_forward g env" and ?sid = "nextID g + 1" and ?g1 = "OnEnvelope e c env g"
  let ?n = "n\<lparr>nsSessionGate := (nsSessionGate n)(?sid \<mapsto> gid)\<rparr>"
  have sid: "?sid \<noteq> 0" using assms(4) by (metis add.commute add_eq_0_iff)
  have F [simp]: "eSessionId ?F = ?sid" "ePayload ?F = ePayload env" "msg_id ?F = MsgLoginReq"
    using assms(5) by (simp_all add: login_forward_def)
  note fl = OnEnvelope_firstLogin [OF assms(3,5)]
  have inv: "gate_inv ?g1"
    unfolding fl by (rule gate_inv_firstLogin [OF gate_reach_inv [OF assms(1)] assms(2-4)])
  have get: "sm_Get ?sid (sessions ?g1) = Some (g_sessNext g)"
    unfolding fl by (simp add: firstLogin_state sm_Get_def)
  have n': "n' = fst (onLogin se (redis_login_service rd jc) (login_ctx ?F) ?n)"
    using handleGateConn_login [OF assms(9), of ?F] sid assms(21) by simp
  note on = onLogin_resolves [where n = ?n and e = se and ctx = "login_ctx ?F" and g = gid and c = bc,
      simplified, OF assms(7,8) _ assms(17-19) assms(11-15) _ assms(10), folded n']
  have "redis_roles view (nsDb n') (login_account req) = Some p \<and> nsGateConns n' gid =
      Some (fst (bc_WriteEnvelope (se_codec se) (se_now se) (login_answer (se_codec se) ?sid p) bc))"
    using on assms(16) by (simp add: login_ctx_def login_answer_def)
  with firstLogin_forwards [OF assms(6), of e c env] loginRsp_binds [OF inv get assms(20)] assms(22)
  show ?thesis by (simp add: fl login_answer_def)
qed


text \<open>The demo gate's first client and a service with that gate and an empty database.\<close>

theorem login_end_to_end_witness:
  "s_PlayerID (g_sess (OnServiceEnvelope (demo_env 200) (login_answer test_pb 1 1)
      (OnEnvelope (demo_env 100) 0 login_req demo1)) 0) = 1 \<and>
   s_State (g_sess (OnServiceEnvelope (demo_env 200) (login_answer test_pb 1 1)
      (OnEnvelope (demo_env 100) 0 login_req demo1)) 0) = SessionAuthenticated"
proof -
  let ?s = "redis_login_service mem_redis profile_text" and ?se = "demo_senv\<lparr>se_codec := test_pb\<rparr>"
  let ?req = "\<lparr>lqToken = ''t'', lqPlatform = 0, lqAccountId = ''ann''\<rparr>"
  have pool: "servicePool demo1 = Some (newRemoteClientPool ''service'' '':9001'' 1 2 5000000)"
    by (simp add: demo1_def demo0_def boot_gate_def demo_cfg_def NewConn_def NewConnWithTransport_def
        newTraceID_def Let_def ConnectService_def)
  have ok: "role_table_ok (redis_roles (\<lambda>d. d) (nsDb one_gate)) (redis_counter (\<lambda>d. d) (nsDb one_gate))"
    by (simp add: role_table_ok_def redis_roles_def redis_counter_def)
  have reg: "nsRegistry one_gate = boot_registry ?s"
    by (simp add: one_gate_def acceptGate_def Let_def boot_service_def NewNetServer_def)
  have r: "ResolveRoleID ?s (login_account ?req) (nsDb one_gate) = (Inr (1, False),
      snd (ResolveRoleID ?s ''ann'' Map.empty))"
    using mem_login by (simp add: login_account_def)
  have reach: "gate_reach demo_cfg demo1"
    unfolding demo1_def demo0_def by (rule gate_reach.step [OF gate_reach.boot]) simp
  show ?thesis
    using login_end_to_end [OF reach _ _ _ _ pool mem.redis_laws_axioms ok reg, where c = 0 and gid = 1 and
        gr = 0 and p = 1 and se = ?se and req = ?req and env = login_req and e = "demo_env 100" and
        ge = "demo_env 200" and ch = "make_chan 2048" and
        bc = "NewBufferedConnWithOptions idle_in idle_out demo_opts" and
        n' = "handleGateConn_env ?se 1 (login_forward demo1 login_req) one_gate" and
        g' = "OnServiceEnvelope (demo_env 200) (login_answer test_pb 1 1) (OnEnvelope (demo_env 100) 0 login_req demo1)",
        OF _ _ _ _ _ _ _ _ _ _ _ _ _ r]
    by (simp add: demo1_state gr_Start_def NewGameRouter_def test_pb_def PlatformTest_def login_account_def)
qed

end
