(* ===== verification/RoundTrip.thy ===== *)
theory RoundTrip
  imports EndToEnd GameRequests
begin

text \<open>
  A game request across the components: from the client's envelope at the gate, through the
  service to the player's goroutine, and the response all the way back to the client.
\<close>

text \<open>What an authenticated client's game message becomes on the way to the service.\<close>

definition game_forward :: "int64 \<Rightarrow> Envelope \<Rightarrow> Envelope" where
  "game_forward p env = env\<lparr>ePlayerId := p\<rparr>"

lemma OnEnvelope_game:
  assumes "sm_Get (c_sessionID (g_conns g c)) (sessions g) = Some s" and "c_sessionID (g_conns g c) \<noteq> 0"
    and "s_State (g_sess g s) = SessionAuthenticated" and "MsgGameBegin \<le> msg_id env" "msg_id env < MsgGameEnd"
  shows "OnEnvelope e c env g = sendToGame e env (upd_sess s (\<lambda>x. x\<lparr>s_LastSeen := now e\<rparr>) g)"
proof -
  have "GetRoute (msg_id env) = Some \<lparr>Target = TargetGame, Module = ''''\<rparr>"
    using assms(4,5) by (simp add: GetRoute_def route_simps)
  with assms show ?thesis by (auto simp: OnEnvelope_def routeEnvelope_def Let_def route_simps)
qed

lemma sendToGame_own_session:
  assumes "sm_Get (eSessionId env) (sessions g) = Some s" and "servicePool g = Some pool"
  shows "sendToGame e env g = g\<lparr>servicePool := Some (fst (pool_Send (drain e) (eSessionId env)
      (game_forward (s_PlayerID (g_sess g s)) env) pool))\<rparr>"
  using assms by (simp add: sendToGame_def sendToService_def Let_def split_def game_forward_def)

text \<open>The service passes a game message on and remembers which gate it came from.\<close>

lemma handleGateConn_game:
  assumes "3000 \<le> msg_id env" "msg_id env < 4000" and "eSessionId env \<noteq> 0" and "nsGateConns n gid = Some bc"
    and "nsGameRouter n = Some gr" and "nsPlayerRoute n (ePlayerId env) = None \<or> nsPlayerRoute n (ePlayerId env) = Some gr"
    and "gr_sendCh (nsRouters n gr) = Some ch" and "length (ch_buf ch) < ch_cap ch"
    and "0 \<le> gr_sendRetryMax (nsRouters n gr)" and "n' = handleGateConn_env e gid env n"
  shows "gr_pending (nsRouters n' gr) = gr_pending (nsRouters n gr) @ [env]"
    "nsSessionGate n' (eSessionId env) = Some gid" "nsGateConns n' gid = Some bc"
proof -
  let ?n = "n\<lparr>nsSessionGate := (nsSessionGate n)(eSessionId env \<mapsto> gid)\<rparr>"
  have "n' = fst (routeToGame e env ?n)"
    using assms(1-3) to_game_iff [of "msg_id env"] assms(10) by (simp add: handleGateConn_env_def Let_def dispatchEnvelope_def)
  moreover note routeToGame_room [where n = ?n and env = env and gr = gr and ch = ch and e = e and
      p = "ePlayerId env", simplified, OF assms(5-9)]
  moreover have "nsSessionGate (fst (routeToGame e env ?n)) = nsSessionGate ?n"
    using same_routes_route [of ?n e env] by (simp add: same_routes_def)
  ultimately show "gr_pending (nsRouters n' gr) = gr_pending (nsRouters n gr) @ [env]"
    "nsSessionGate n' (eSessionId env) = Some gid" "nsGateConns n' gid = Some bc"
    using assms(4) by simp_all
qed

lemma ForwardToGate_known:
  "nsSessionGate n (eSessionId env) = Some gid \<Longrightarrow> nsGateConns n gid = Some bc \<Longrightarrow>
     nsGateConns (fst (ForwardToGate e env n)) gid = Some (fst (bc_WriteEnvelope (se_codec e) (se_now e)
       \<lparr>eMsgId = to_int32 (msg_id env), eSessionId = eSessionId env, ePlayerId = 0, ePayload = ePayload env\<rparr> bc))"
  by (simp add: ForwardToGate_def replyToGate_def case_prod_beta)

text \<open>A response of the game reaches the queue of the session's connection.\<close>

lemma OnServiceEnvelope_game:
  assumes "msg_id env \<noteq> MsgServicePong" "msg_id env \<noteq> MsgLoginRsp"
    and "sm_Get (eSessionId env) (sessions g) = Some s" and "s_Conn (g_sess g s) = Some c"
    and "length (ch_buf (c_sendCh (g_conns g c))) < ch_cap (c_sendCh (g_conns g c))"
  shows "ch_buf (c_sendCh (g_conns (OnServiceEnvelope e env g) c)) = ch_buf (c_sendCh (g_conns g c)) @
    [\<lparr>eMsgId = to_int32 (msg_id env), eSessionId = eSessionId env, ePlayerId = s_PlayerID (g_sess g s), ePayload = ePayload env\<rparr>]"
  using assms conn_Send_room [OF assms(5)] by (simp add: OnServiceEnvelope_def Reply_def)

subsection \<open>Together\<close>

text \<open>
  C2: A game request travels to the player and its response back to the client. A client whose
  session is authenticated as player p sends a game message: the gate puts it on the pool to the
  service with p as its player; the service queues what it got for the game server, unchanged;
  there the player's goroutine handles it and the game server writes the response, if there is
  one, to the service; the service writes it to the gate the request came from; and the gate
  queues it, behind everything already queued, on the connection of the session, for player p.
\<close>

theorem game_request_round_trip:
  assumes "eSessionId env \<noteq> 0" and "sm_Get (c_sessionID (g_conns g c)) (sessions g) = Some s"
    and "eSessionId env = c_sessionID (g_conns g c)" and "s_Conn (g_sess g s) = Some c"
    and "s_State (g_sess g s) = SessionAuthenticated" and "s_PlayerID (g_sess g s) = p" and "p \<noteq> 0"
    and "msg_id env = MsgPlayerEnterGameReq \<or> msg_id env = MsgLoadPlayerDataReq"
    and "servicePool g = Some pool"
    and "length (ch_buf (c_sendCh (g_conns g c))) < ch_cap (c_sendCh (g_conns g c))"
    and "nsGateConns n gid = Some bc" and "nsGameRouter n = Some gr"
    and "nsPlayerRoute n p = None \<or> nsPlayerRoute n p = Some gr"
    and "gr_sendCh (nsRouters n gr) = Some ch" and "length (ch_buf ch) < ch_cap ch"
    and "0 \<le> gr_sendRetryMax (nsRouters n gr)"
    and "game_reach st opts interval db gm" and "k < gm_connNext gm" and "gc_loc (gm_conns gm k) = ConnReading"
    and "GetOrCreate (eSessionId env) p gm = (Inr r, gm')"
    and "ch_buf (p_inbox (gm_heap gm' r)) = []" and "p_loop (gm_heap gm' r) \<noteq> LoopExited"
    and "n' = handleGateConn_env se gid (game_forward p env) n"
    and "response_to pb (game_forward p env) (gm_heap gm' r) = Some rsp"
    and "answer = \<lparr>eMsgId = eMsgId rsp, eSessionId = eSessionId env, ePlayerId = 0, ePayload = ePayload rsp\<rparr>"
  shows "servicePool (OnEnvelope e c env g) =
      Some (fst (pool_Send (drain e) (eSessionId env) (game_forward p env) pool)) \<and>
    gr_pending (nsRouters n' gr) = gr_pending (nsRouters n gr) @ [game_forward p env] \<and>
    gc_conn (gm_conns (exchange pb t k r (game_forward p env) gm) k) =
      fst (bc_WriteEnvelope pb t rsp (gc_conn (gm_conns gm k))) \<and>
    nsGateConns (fst (ForwardToGate se rsp n')) gid =
      Some (fst (bc_WriteEnvelope (se_codec se) (se_now se) answer bc)) \<and>
    ch_buf (c_sendCh (g_conns (OnServiceEnvelope ge answer (OnEnvelope e c env g)) c)) =
      ch_buf (c_sendCh (g_conns g c)) @ [answer\<lparr>ePlayerId := p\<rparr>]"
proof -
  let ?F = "game_forward p env"
  note sid = assms(1)
  have F [simp]: "eSessionId ?F = eSessionId env" "ePlayerId ?F = p" "eMsgId ?F = eMsgId env"
    by (simp_all add: game_forward_def)
  have mid: "3000 \<le> msg_id env" "msg_id env < 4000" "msg_id env \<noteq> MsgPlayerOfflineNotify" "msg_id env \<noteq> MsgPlayerResumeReq"
    using assms(8) by (auto simp: route_simps)
  let ?g = "upd_sess s (\<lambda>x. x\<lparr>s_LastSeen := now e\<rparr>) g"
  have g1: "OnEnvelope e c env g = ?g\<lparr>servicePool := Some (fst (pool_Send (drain e) (eSessionId env) ?F pool))\<rparr>"
    using OnEnvelope_game [OF assms(2) _ assms(5)] sendToGame_own_session [of env ?g s pool e] assms(2,3,6,9) sid mid
    by (simp add: route_simps)
  note svc = handleGateConn_game [where env = ?F and e = se, simplified, OF mid(1,2) sid assms(11-16,23)]
  have res: "resolvePlayer ?F gm = p" using assms(7) by (simp add: resolvePlayer_def)
  note ex = exchange_answers [OF assms(17-19), of ?F r gm' pb t, simplified, OF mid(3,4) _ assms(21,22), unfolded res, OF assms(20)]
  have rsp: "eSessionId rsp = eSessionId env" "msg_id rsp \<noteq> MsgServicePong" "msg_id rsp \<noteq> MsgLoginRsp"
    using assms(24) by (auto simp: response_to_def route_simps split: if_splits)
  have fwd: "nsGateConns (fst (ForwardToGate se rsp n')) gid =
      Some (fst (bc_WriteEnvelope (se_codec se) (se_now se) answer bc))"
    using ForwardToGate_known [of n' rsp gid bc se] svc(2,3) rsp(1) assms(25) by simp
  have "ch_buf (c_sendCh (g_conns (OnServiceEnvelope ge answer (OnEnvelope e c env g)) c)) =
      ch_buf (c_sendCh (g_conns g c)) @ [answer\<lparr>ePlayerId := p\<rparr>]"
    using OnServiceEnvelope_game [of answer "OnEnvelope e c env g" s c ge] rsp assms(2-4,6,10,25)
    by (simp add: g1)
  with g1 svc(1) fwd ex(1) assms(24) show ?thesis by simp
qed

text \<open>
  Player 7, logged in on session 1 of the demo gate, enters the game over a service with that
  gate and a game server that has just accepted the service.
\<close>

definition trip_gate :: gate where
  "trip_gate = demo3\<lparr>servicePool := Some (newRemoteClientPool ''service'' '':9001'' 1 2 5000000),
     g_conns := (g_conns demo3)(0 := (g_conns demo3 0)\<lparr>c_sendCh := make_chan 4\<rparr>)\<rparr>"

lemma trip_gate_simps [simp]:
  "sm_Get 1 (sessions trip_gate) = Some 0" "c_sessionID (g_conns trip_gate 0) = 1"
  "s_Conn (g_sess trip_gate 0) = Some 0" "s_State (g_sess trip_gate 0) = SessionAuthenticated"
  "s_PlayerID (g_sess trip_gate 0) = 7" "c_sendCh (g_conns trip_gate 0) = make_chan 4"
  "servicePool trip_gate = Some (newRemoteClientPool ''service'' '':9001'' 1 2 5000000)"
  by (simp_all add: trip_gate_def sm_Get_def demo3_state demo2_state)

theorem game_request_round_trip_witness:
  "\<exists>payload. ch_buf (c_sendCh (g_conns (OnServiceEnvelope (demo_env 460)
       \<lparr>eMsgId = 3002, eSessionId = 1, ePlayerId = 0, ePayload = payload\<rparr>
       (OnEnvelope (demo_env 450) 0 (game_msg MsgPlayerEnterGameReq 1 7) trip_gate)) 0)) =
     [\<lparr>eMsgId = 3002, eSessionId = 1, ePlayerId = 7, ePayload = payload\<rparr>]"
proof -
  let ?env = "game_msg MsgPlayerEnterGameReq 1 7"
  have env: "game_forward 7 ?env = ?env" "eSessionId ?env = 1" by (simp_all add: game_forward_def game_msg_def)
  have rsp_id: "MsgPlayerEnterGameRsp = 3002" by (simp add: route_simps)
  obtain gm' where get: "GetOrCreate (eSessionId ?env) 7 game1 = (Inr 0, gm')"
    and gm': "ch_buf (p_inbox (gm_heap gm' 0)) = []" "p_loop (gm_heap gm' 0) \<noteq> LoopExited"
    using game1_get env(2) by (simp add: game1_state)
  define rsp where "rsp = \<lparr>eMsgId = to_int32 MsgPlayerEnterGameRsp, eSessionId = 1, ePlayerId = 7,
      ePayload = or_nil (marshalPlayerInitRsp game_pb (ToPlayerData (gm_heap gm' 0)))\<rparr>"
  have r: "response_to game_pb (game_forward 7 ?env) (gm_heap gm' 0) = Some rsp"
    unfolding env(1) by (simp add: response_to_def rsp_def)
  show ?thesis
    using game_request_round_trip [where env = ?env and g = trip_gate and c = 0 and s = 0 and p = 7 and
        n = one_gate and gid = 1 and gr = 0 and ch = "make_chan 2048" and gm = game1 and k = 0 and e = "demo_env 450" and
        ge = "demo_env 460" and se = demo_senv and t = 0 and bc = "NewBufferedConnWithOptions idle_in idle_out demo_opts" and
        pool = "newRemoteClientPool ''service'' '':9001'' 1 2 5000000", OF _ _ _ _ _ _ _ _ _ _ _ _ _ _ _ _ game1_reach _ _ get gm' refl r refl]
    by (auto simp: env game1_state rsp_def rsp_id gr_Start_def NewGameRouter_def make_chan_def)
qed

end
