(* ===== verification/Notices.thy ===== *)
theory Notices
  imports RoundTrip GateResume GamePersist
begin

text \<open>
  What the gate tells the game about a player, across the components: a lost connection saves the
  player's profile, a resume brings the player back, and a second login takes it offline.
\<close>

subsection \<open>At the service\<close>

lemma handleGateConn_notice:
  assumes "msg_id env = MsgPlayerOfflineNotify \<or> msg_id env = MsgPlayerResumeReq"
    and "ePlayerId env = p" and "p \<noteq> 0" and "nsGameRouter n = Some gr"
    and "nsPlayerRoute n p = None \<or> nsPlayerRoute n p = Some gr"
    and "gr_sendCh (nsRouters n gr) = Some ch" and "length (ch_buf ch) < ch_cap ch"
    and "0 \<le> gr_sendRetryMax (nsRouters n gr)" and "n' = handleGateConn_env e gid env n"
  shows "gr_pending (nsRouters n' gr) = gr_pending (nsRouters n gr) @ [env]"
    "nsPlayerRoute n' p = (if msg_id env = MsgPlayerOfflineNotify then None else Some gr)"
proof -
  have m: "3000 \<le> msg_id env" "msg_id env < 4000" using assms(1) by (auto simp: route_simps)
  let ?n = "if eSessionId env \<noteq> 0 then n\<lparr>nsSessionGate := (nsSessionGate n)(eSessionId env \<mapsto> gid)\<rparr> else n"
  have n': "n' = fst (routeToGame e env ?n)"
    using m to_game_iff [of "msg_id env"] assms(9)
    by (simp add: handleGateConn_env_def Let_def dispatchEnvelope_def)
  have r: "nsGameRouter ?n = Some gr" "nsPlayerRoute ?n p = None \<or> nsPlayerRoute ?n p = Some gr"
    "gr_sendCh (nsRouters ?n gr) = Some ch" "0 \<le> gr_sendRetryMax (nsRouters ?n gr)"
    "nsRouters ?n = nsRouters n"
    using assms(4-8) by auto
  show "gr_pending (nsRouters n' gr) = gr_pending (nsRouters n gr) @ [env]"
    using routeToGame_room(1) [OF r(1-3) assms(7) r(4) assms(2), of e] n' r(5) by simp
  show "nsPlayerRoute n' p = (if msg_id env = MsgPlayerOfflineNotify then None else Some gr)"
    unfolding n' using r assms(2,3)
    by (auto simp: routeToGame_def case_prod_beta Let_def split: option.split)
qed

subsection \<open>At the game server\<close>

lemma offline_notice_handled:
  assumes inv: "game_inv gm" and "pm_store (gm_players gm) = st" and "msg_id env = MsgPlayerOfflineNotify"
    and "ePlayerId env = p" and "p \<noteq> 0" and "players_of gm p = Some r"
    and "st_SaveProfile st (p_Profile (gm_heap gm r)) (gm_db gm) = (x, d')"
    and "gm' = game_step pb t (SvcEnvelope k env) gm"
  shows "gm_db gm' = d'" "players_of gm' = players_of gm" "p_state (gm_heap gm' r) = PlayerStateOffline"
    "sessions_of gm' = (sessions_of gm)(p_SessionID (gm_heap gm r) := None)"
proof -
  have "p_state (gm_heap gm r) \<noteq> PlayerStateDestroyed" "p_state (gm_heap gm r) \<noteq> PlayerStateInit"
    using game_invD(3) [OF inv assms(6)] game_invD(1,4) [OF inv] assms(6) by (auto simp: player_wf_def)
  then have "p_state (p_OnOffline (gm_heap gm r)) = PlayerStateOffline"
    by (cases "p_state (gm_heap gm r)") (simp_all add: p_OnOffline_def)
  with assms show "gm_db gm' = d'" "players_of gm' = players_of gm" "p_state (gm_heap gm' r) = PlayerStateOffline"
    "sessions_of gm' = (sessions_of gm)(p_SessionID (gm_heap gm r) := None)"
    by (simp_all add: handleConn_env_def resolvePlayer_def MarkOffline_def Let_def frame_simps)
qed

lemma dispatch_to_players: "gm_players (dispatch_to k a env r gm) = gm_players gm"
  by (simp add: dispatch_to_cases Let_def split: prod.split)

lemma resume_notice_handled:
  assumes inv: "game_inv gm" and "msg_id env = MsgPlayerResumeReq"
    and "ePlayerId env = p" and "p \<noteq> 0" and "players_of gm p = Some r" and "eSessionId env = sid"
    and "gm' = game_step pb t (SvcEnvelope k env) gm"
  shows "p_state (gm_heap gm' r) = PlayerStateActive" "p_SessionID (gm_heap gm' r) = sid"
    "players_of gm' = players_of gm" "sessions_of gm' = (sessions_of gm)(sid \<mapsto> p)"
proof -
  have g: "GetOrCreate sid p gm = (Inr r, snd (GetOrCreate sid p gm))"
    using assms(5) by (simp add: GetOrCreate_def Let_def)
  let ?g = "snd (GetOrCreate sid p gm)"
  have "p_SessionID (gm_heap ?g r) = sid" "players_of ?g = players_of gm"
    "sessions_of ?g = (sessions_of gm)(sid \<mapsto> p)"
    using assms(5) game_invD(2) [OF inv assms(5)]
    by (simp_all add: GetOrCreate_def Let_def p_OnResume_def frame_simps)
  moreover have "gm' = dispatch_to k False env r ?g"
    using assms(2-4,6,7) arg_cong [OF g, of fst]
    by (simp add: handleConn_env_def resolvePlayer_def case_prod_beta Let_def)
  moreover note GetOrCreate_active(1) [OF inv g]
  ultimately show "p_state (gm_heap gm' r) = PlayerStateActive" "p_SessionID (gm_heap gm' r) = sid"
    "players_of gm' = players_of gm" "sessions_of gm' = (sessions_of gm)(sid \<mapsto> p)"
    by (simp_all add: dispatch_to_heap dispatch_to_players frame_simps)
qed

subsection \<open>A lost connection\<close>

context redis_laws
begin

lemma saved_profile:
  assumes "st_SaveProfile (NewRedisStore rd jc) pr d = (None, d')" and "RoleID pr = p" and "p \<noteq> 0"
  shows "redis_profiles view jc d' p = Some pr"
  using rs.save_profile [OF assms(1)] assms(2,3) by simp

end

text \<open>
  C3: Losing the connection saves the player. When the connection of a session with player p ends,
  the session goes offline and the gate puts one offline notice for p on the pool; when the
  service handles that notice it queues it for the game server, behind everything already
  queued, and forgets which game server p is on; and when the game server handles it and the
  database accepts the write, the database holds the profile that p had in memory, p is offline
  and still in memory, and its session is forgotten.
\<close>

theorem lost_connection_saves_player:
  assumes "gate_reach cfg g" and "c_sessionID (g_conns g c) = sid" and "sm_Get sid (sessions g) = Some s"
    and "s_PlayerID (g_sess g s) = p" and "p \<noteq> 0"
    and "nsGameRouter n = Some gr" and "nsPlayerRoute n p = None \<or> nsPlayerRoute n p = Some gr"
    and "gr_sendCh (nsRouters n gr) = Some ch" and "length (ch_buf ch) < ch_cap ch"
    and "0 \<le> gr_sendRetryMax (nsRouters n gr)"
    and "redis_laws rd view jc" and "game_reach (NewRedisStore rd jc) opts interval db gm"
    and "players_of gm p = Some r" and "RoleID (p_Profile (gm_heap gm r)) = p"
    and "fst (SaveProfile rd jc (p_Profile (gm_heap gm r)) (gm_db gm)) = None"
    and "g' = gate_step e (ReadEnds c) g" and "n' = handleGateConn_env se gid (offline_notice sid p) n"
    and "gm' = game_step pb t (SvcEnvelope k (offline_notice sid p)) gm"
  shows "s_State (g_sess g' s) = SessionOffline \<and> s_Conn (g_sess g' s) = None \<and>
    servicePool g' = map_option (\<lambda>pool. fst (pool_Send (drain e) sid (offline_notice sid p) pool)) (servicePool g) \<and>
    gr_pending (nsRouters n' gr) = gr_pending (nsRouters n gr) @ [offline_notice sid p] \<and>
    nsPlayerRoute n' p = None \<and>
    redis_profiles view jc (gm_db gm') p = Some (p_Profile (gm_heap gm r)) \<and>
    players_of gm' p = Some r \<and> p_state (gm_heap gm' r) = PlayerStateOffline \<and>
    sessions_of gm' (p_SessionID (gm_heap gm r)) = None"
proof -
  have id: "s_ID (g_sess g s) = sid" using gate_inv_getD(2) [OF gate_reach_inv [OF assms(1)] assms(3)] .
  have g': "g' = (upd_sess s (gone (now e)) g)\<lparr>servicePool :=
      map_option (\<lambda>pool. fst (pool_Send (drain e) sid (offline_notice sid p) pool)) (servicePool g)\<rparr>"
    using onConnClose_sends [of g c s p e] assms(2-5,16) id by simp
  note svc = handleGateConn_notice [of "offline_notice sid p" p n gr ch n' se gid]
  obtain d' where d: "st_SaveProfile (NewRedisStore rd jc) (p_Profile (gm_heap gm r)) (gm_db gm) = (None, d')"
    using assms(15) by (cases "SaveProfile rd jc (p_Profile (gm_heap gm r)) (gm_db gm)") (simp add: NewRedisStore_def)
  note gm' = offline_notice_handled [OF game_reach_inv [OF assms(12)] reach_store [OF assms(12)] _ _ assms(5,13) d assms(18)]
  have "redis_profiles view jc d' p = Some (p_Profile (gm_heap gm r))"
    using redis_laws.saved_profile [OF assms(11) d assms(14,5)] .
  with g' svc gm' assms(5-10,13,17) show ?thesis by simp
qed

theorem lost_connection_saves_player_witness:
  "s_State (g_sess (gate_step (demo_env 300) (ReadEnds 0) demo3) 0) = SessionOffline \<and>
   redis_profiles (\<lambda>d. d) profile_text
     (gm_db (game_step game_pb 0 (SvcEnvelope 0 (offline_notice 1 7)) redis1)) 7 = Some (NewProfile 7 '''')"
proof -
  have s: "fst (SaveProfile mem_redis profile_text (p_Profile (gm_heap redis1 0)) (gm_db redis1)) = None"
    by (simp add: redis1_state SaveProfile_def SetWithTTL_def mem_redis_def profile_text_def)
  show ?thesis
    using lost_connection_saves_player [OF demo3_reach _ _ _ _ _ _ _ _ _ mem.redis_laws_axioms redis1_reach _ _ s
        refl refl refl, where c = 0 and s = 0 and sid = 1 and p = 7 and n = one_gate and gr = 0 and
        ch = "make_chan 2048" and e = "demo_env 300" and se = demo_senv and gid = 1 and pb = game_pb and t = 0 and k = 0]
    by (simp add: sm_Get_def demo3_state demo2_state redis1_state gr_Start_def NewGameRouter_def make_chan_def)
qed

subsection \<open>A resume\<close>

text \<open>
  C4: A resume brings the player back. A client reconnects and resumes a detached session of
  player p with its token: the session is attached to the new connection and authenticated, the
  acceptance is queued for the client, and one resume notice for p is put on the pool; the
  service queues it for the game server and remembers which one p is on; and when the game server
  handles it, p is active, as the same player object in memory, and bound to this session both
  ways.
\<close>

theorem resume_brings_player_back:
  assumes "gate_reach cfg g" and "c_sessionID (g_conns g c) = 0" and "msg_id env = MsgResumeReq"
    and "unmarshalResumeReq (codec e) (ePayload env) = Some req" and "resumable g req"
    and "rqSessionId req = sid" and "sm_Get sid (sessions g) = Some s" and "s_Conn (g_sess g s) = None"
    and "s_PlayerID (g_sess g s) = p" and "p \<noteq> 0"
    and "length (ch_buf (c_sendCh (g_conns g c))) < ch_cap (c_sendCh (g_conns g c))"
    and "nsGameRouter n = Some gr" and "nsPlayerRoute n p = None \<or> nsPlayerRoute n p = Some gr"
    and "gr_sendCh (nsRouters n gr) = Some ch" and "length (ch_buf ch) < ch_cap ch"
    and "0 \<le> gr_sendRetryMax (nsRouters n gr)"
    and "game_reach st opts interval db gm" and "players_of gm p = Some r"
    and "g' = gate_step e (Receive c env) g" and "n' = handleGateConn_env se gid (resume_notice sid p) n"
    and "gm' = game_step pb t (SvcEnvelope k (resume_notice sid p)) gm"
  shows "s_Conn (g_sess g' s) = Some c \<and> s_State (g_sess g' s) = SessionAuthenticated \<and>
    c_sessionID (g_conns g' c) = sid \<and>
    ch_buf (c_sendCh (g_conns g' c)) = ch_buf (c_sendCh (g_conns g c)) @
      [\<lparr>eMsgId = to_int32 MsgResumeRsp, eSessionId = sid, ePlayerId = 0,
        ePayload = or_nil (marshalResumeRsp (codec e) \<lparr>rsOk = True, rsReason = ''''\<rparr>)\<rparr>] \<and>
    servicePool g' = map_option (\<lambda>pool. fst (pool_Send (drain e) sid (resume_notice sid p) pool)) (servicePool g) \<and>
    gr_pending (nsRouters n' gr) = gr_pending (nsRouters n gr) @ [resume_notice sid p] \<and>
    nsPlayerRoute n' p = Some gr \<and>
    p_state (gm_heap gm' r) = PlayerStateActive \<and> players_of gm' p = Some r \<and>
    p_SessionID (gm_heap gm' r) = sid \<and> sessions_of gm' sid = Some p"
proof -
  let ?g = "markAlive c (now e) g"
  have id: "s_ID (g_sess g s) = sid" using gate_inv_getD(2) [OF gate_reach_inv [OF assms(1)] assms(7)] .
  have "handleResume e c env ?g = bindResumed e s c ?g"
    by (rule handleResume_accepts [where req = req])
      (use assms(2,4-7) in \<open>auto simp: resumable_def\<close>)
  then have g': "g' = bindResumed e s c ?g" using Receive_resume [OF assms(1,3)] assms(19) by simp
  let ?h = "upd_conn c (\<lambda>k. k\<lparr>c_sessionID := sid\<rparr>) (upd_sess s (\<lambda>x. x\<lparr>s_Conn := Some c,
      s_LastSeen := now e, s_State := SessionAuthenticated\<rparr>) ?g)"
  have b: "bindResumed e s c ?g = (notifyPlayerResume e s (sendResumeRsp e c True '''' ?h))\<lparr>unknownMsgKickCount := 0\<rparr>"
    using assms(8-10) id by (simp add: bindResumed_def Let_def)
  note notice = notify_sends(2) [of "sendResumeRsp e c True '''' ?h" s e]
  have pool: "servicePool g' = map_option (\<lambda>pool. fst (pool_Send (drain e) sid (resume_notice sid p) pool)) (servicePool g)"
    using notice assms(7,9,10) id by (simp add: g' b)
  have "ch_buf (c_sendCh (g_conns (sendResumeRsp e c True '''' ?h) c)) = ch_buf (c_sendCh (g_conns g c)) @
      [\<lparr>eMsgId = to_int32 MsgResumeRsp, eSessionId = sid, ePlayerId = 0,
        ePayload = or_nil (marshalResumeRsp (codec e) \<lparr>rsOk = True, rsReason = ''''\<rparr>)\<rparr>]"
    using conn_Send_room [of ?h c] assms(11) by (simp add: sendResumeRsp_def markAlive_def)
  then have sent: "ch_buf (c_sendCh (g_conns g' c)) = ch_buf (c_sendCh (g_conns g c)) @
      [\<lparr>eMsgId = to_int32 MsgResumeRsp, eSessionId = sid, ePlayerId = 0,
        ePayload = or_nil (marshalResumeRsp (codec e) \<lparr>rsOk = True, rsReason = ''''\<rparr>)\<rparr>]"
    by (simp add: g' b)
  note svc = handleGateConn_notice [of "resume_notice sid p" p n gr ch n' se gid]
  note gm' = resume_notice_handled [OF game_reach_inv [OF assms(17)] _ _ assms(10,18) _ assms(21)]
  have "s_Conn (g_sess g' s) = Some c" "s_State (g_sess g' s) = SessionAuthenticated" "c_sessionID (g_conns g' c) = sid"
    using assms(9,10) id by (simp_all add: g' bindResumed_sess resumed_state_def bindResumed_sessionID)
  with pool sent svc gm' assms(10,12-16,18,20) show ?thesis by simp
qed

text \<open>The demo gate after its first client has lost its connection and come back on another one.\<close>

definition demoD :: gate where "demoD = gate_step (demo_env 350) (ReadEnds 0) demo4"

lemma demoD_state:
  "g_sess demoD = (g_sess demo4)(0 := gone 350 (g_sess demo4 0))" "sessions demoD = sessions demo4"
  "g_conns demoD = g_conns demo4"
proof -
  have *: "sm_Get (c_sessionID (g_conns demo4 0)) (sessions demo4) = Some 0" "s_ID (g_sess demo4 0) = c_sessionID (g_conns demo4 0)"
    "s_PlayerID (g_sess demo4 0) = 7"
    by (simp_all add: sm_Get_def demo4_state demo3_state demo2_state)
  from onConnClose_sends [OF *, of "demo_env 350"]
  show "g_sess demoD = (g_sess demo4)(0 := gone 350 (g_sess demo4 0))" "sessions demoD = sessions demo4"
    "g_conns demoD = g_conns demo4"
    by (simp_all add: demoD_def)
qed

lemma verifyToken_gone: "verifyToken (gone t x) token = verifyToken x token"
  unfolding verifyToken_def gone_simps ..

lemma demoD_reach: "gate_reach demo_cfg demoD"
  unfolding demoD_def by (rule gate_reach.step [OF demo4_reach]) (simp add: demo4_state)

theorem resume_brings_player_back_witness:
  "s_Conn (g_sess (gate_step (demo_env 400) (Receive 1 (resume_req 1)) demoD) 0) = Some 1 \<and>
   s_State (g_sess (gate_step (demo_env 400) (Receive 1 (resume_req 1)) demoD) 0) = SessionAuthenticated \<and>
   p_state (gm_heap game5 0) = PlayerStateOffline \<and>
   p_state (gm_heap (game_step game_pb 0 (SvcEnvelope 0 (resume_notice 1 7)) game5) 0) = PlayerStateActive"
proof -
  let ?req = "\<lparr>rqSessionId = 1, rqToken = signResumeToken (Some [23, 42]) 1\<rparr>"
  have r: "resumable demoD ?req"
    using demo4_token by (simp add: resumable_def sm_Get_def demoD_state demo4_state demo3_state demo2_state verifyToken_gone)
  have "c_sendCh (g_conns demoD 1) = make_chan (8 * 1024)"
    by (simp add: demoD_state demo4_def NewConn_def NewConnWithTransport_def newTraceID_def Let_def demo3_state)
  then show ?thesis
    using resume_brings_player_back [OF demoD_reach _ _ _ r _ _ _ _ _ _ _ _ _ _ _ game5_reach _ refl refl refl,
        where c = 1 and env = "resume_req 1" and e = "demo_env 400" and s = 0 and sid = 1 and p = 7 and n = one_gate and
        gr = 0 and ch = "make_chan 2048" and se = demo_senv and gid = 1 and pb = game_pb and t = 0 and k = 0 and r = 0]
    by (simp add: sm_Get_def demoD_state demo4_state demo3_state demo2_state game5_state gr_Start_def
        NewGameRouter_def make_chan_def)
qed

subsection \<open>A second login\<close>

lemma loginRsp_notice:
  assumes inv: "gate_inv g" and "sm_Get sid (sessions g) = Some s"
    and "unmarshalLoginRsp (codec e) data = Some \<lparr>lrPlayerId = p\<rparr>" and "p \<noteq> 0"
    and "byPlayer (sessions g) p = Some old" and "old \<noteq> s" and "s_Conn (g_sess g old) = Some c"
    and "s_PlayerID (g_sess g old) = p" and "s_ID (g_sess g old) = sid0"
  shows "servicePool (onLoginRsp e sid data g) =
    map_option (\<lambda>pool. fst (pool_Send (drain e) sid0 (offline_notice sid0 p) pool)) (servicePool g)"
proof -
  let ?g1 = "(upd_sess s (\<lambda>x. x\<lparr>s_PlayerID := p\<rparr>) g)\<lparr>sessions := (sessions g)\<lparr>byPlayer := (byPlayer (sessions g))(p \<mapsto> s)\<rparr>\<rparr>"
  have old: "old < g_sessNext g" by (rule gate_inv_player_less [OF inv assms(5)])
  have drop: "s_State (g_sess g old) \<noteq> SessionClosed" "s_State (g_sess g old) \<noteq> SessionOffline"
    using gate_inv_sess_ok [OF inv old] assms(7) by (auto simp: sess_ok_def)
  have "s < g_sessNext g" using gate_inv_getD(1) [OF inv assms(2)] .
  then have "s_ID (g_sess g s) \<noteq> sid0" using inv old assms(6,9) unfolding gate_inv_def by blast
  then have k: "kickOld e s p g = fst (Kick e sid0 ?g1)"
    using assms(5,6,9) by (auto simp: kickOld_def Let_def)
  have get: "sm_Get sid0 (sessions ?g1) = Some old"
    using gate_inv_live_get [OF inv old drop(1)] assms(9) by (simp add: sm_Get_def)
  let ?g2 = "upd_sess old (\<lambda>x. x\<lparr>s_State := SessionOffline\<rparr>)
      (upd_sess old (\<lambda>x. x\<lparr>s_Conn := None, s_LastSeen := now e\<rparr>) (conn_Close c ?g1))"
  have cl: "g_sess (conn_Close c ?g1) = g_sess ?g1" "sessions (conn_Close c ?g1) = sessions ?g1"
    "servicePool (conn_Close c ?g1) = servicePool g"
    using conn_Close_same [of ?g1 c] by (simp_all add: same_but_conns_def)
  have "fst (Kick e sid0 ?g1) = notifyPlayerOffline e old ?g2"
    using get drop assms(6,7) by (simp add: Kick_def onSessionOffline_def Let_def)
  moreover have "notifyPlayerOffline e old ?g2 = ?g2\<lparr>servicePool :=
      map_option (\<lambda>pool. fst (pool_Send (drain e) sid0 (offline_notice sid0 p) pool)) (servicePool g)\<rparr>"
    using notify_sends(1) [of ?g2 old e] get assms(4,6,8,9) cl by simp
  ultimately show ?thesis by (simp add: onLoginRsp_alt [OF assms(2,3)] k)
qed

text \<open>
  C34: A second login takes the player offline in the game. Player p, whose session is connected,
  logs in again on another session, which the game server has seen: p is active there on the new
  session. The service's answer authenticates the new session at the gate and binds p to it, and
  the gate kicks the old session and sends an offline notice for p. The service queues that
  notice for the game server like any other and forgets where p is; and the game server applies
  it to p whatever session it is about: p, just logged in, is offline, and the game server no
  longer knows the new session.
\<close>

theorem second_login_takes_player_offline:
  assumes "gate_reach cfg g" and "sm_Get sid (sessions g) = Some s"
    and "unmarshalLoginRsp (codec e) (or_nil (marshalLoginRsp cd \<lparr>lrPlayerId = p\<rparr>)) = Some \<lparr>lrPlayerId = p\<rparr>"
    and "p \<noteq> 0" and "byPlayer (sessions g) p = Some old" and "old \<noteq> s" and "s_Conn (g_sess g old) = Some c"
    and "s_PlayerID (g_sess g old) = p" and "s_ID (g_sess g old) = sid0"
    and "nsGameRouter n = Some gr" and "nsPlayerRoute n p = None \<or> nsPlayerRoute n p = Some gr"
    and "gr_sendCh (nsRouters n gr) = Some ch" and "length (ch_buf ch) < ch_cap ch"
    and "0 \<le> gr_sendRetryMax (nsRouters n gr)"
    and "game_reach st opts interval db gm" and "players_of gm p = Some r"
    and "p_SessionID (gm_heap gm r) = sid"
    and "g' = gate_step e (FromService (login_answer cd sid p)) g"
    and "n' = handleGateConn_env se gid (offline_notice sid0 p) n"
    and "gm' = game_step pb t (SvcEnvelope k (offline_notice sid0 p)) gm"
  shows "byPlayer (sessions g') p = Some s \<and> s_State (g_sess g' s) = SessionAuthenticated \<and>
    servicePool g' = map_option (\<lambda>pool. fst (pool_Send (drain e) sid0 (offline_notice sid0 p) pool)) (servicePool g) \<and>
    gr_pending (nsRouters n' gr) = gr_pending (nsRouters n gr) @ [offline_notice sid0 p] \<and>
    nsPlayerRoute n' p = None \<and>
    p_state (gm_heap gm' r) = PlayerStateOffline \<and> sessions_of gm' sid = None"
proof -
  note inv = gate_reach_inv [OF assms(1)]
  have g': "g' = OnServiceEnvelope e (login_answer cd sid p) g" by (simp add: assms(18))
  have "servicePool g' = servicePool (onLoginRsp e sid (or_nil (marshalLoginRsp cd \<lparr>lrPlayerId = p\<rparr>)) g)"
    by (simp add: g' OnServiceEnvelope_def login_answer_def route_simps)
  with loginRsp_notice [OF inv assms(2-9)] have pool: "servicePool g' =
      map_option (\<lambda>pool. fst (pool_Send (drain e) sid0 (offline_notice sid0 p) pool)) (servicePool g)" by simp
  obtain x d' where d: "st_SaveProfile st (p_Profile (gm_heap gm r)) (gm_db gm) = (x, d')" by force
  note gm' = offline_notice_handled [OF game_reach_inv [OF assms(15)] reach_store [OF assms(15)] _ _ assms(4,16) d assms(20)]
  note svc = handleGateConn_notice [of "offline_notice sid0 p" p n gr ch n' se gid]
  show ?thesis
    using pool svc gm' loginRsp_binds [OF inv assms(2,3)] assms(4,10-14,17,19)
    by (simp add: g' login_answer_def)
qed

text \<open>Player 7 of the demonstration game server, entering again from session 2.\<close>

definition relogged :: "mem_db game" where
  "relogged = game_step game_pb 0 (SvcEnvelope 0 (game_msg MsgPlayerEnterGameReq 2 7)) game4"

lemma relogged_state:
  "reaches relogged" "players_of relogged = [7 \<mapsto> 0]" "p_SessionID (gm_heap relogged 0) = 2"
proof -
  show "reaches relogged"
    unfolding relogged_def by (rule game_reach.step [OF game4_reach]) (simp add: game4_state)
  have r: "relogged = dispatch_to 0 True (game_msg MsgPlayerEnterGameReq 2 7) 0 (snd (GetOrCreate 2 7 game4))"
    by (simp add: relogged_def handleConn_env_def resolvePlayer_def GetOrCreate_def Let_def game4_state game2_state)
  show "players_of relogged = [7 \<mapsto> 0]" "p_SessionID (gm_heap relogged 0) = 2"
    by (simp_all add: r dispatch_to_heap dispatch_to_players frame_simps GetOrCreate_def Let_def game4_state
        game2_state p_OnResume_def)
qed

theorem second_login_takes_player_offline_witness:
  "s_State (g_sess (gate_step (demo_env 500) (FromService (login_answer test_pb 2 7)) demo5) 1) = SessionAuthenticated \<and>
   p_state (gm_heap (game_step game_pb 0 (SvcEnvelope 0 (offline_notice 1 7)) relogged) 0) = PlayerStateOffline \<and>
   sessions_of (game_step game_pb 0 (SvcEnvelope 0 (offline_notice 1 7)) relogged) 2 = None"
proof -
  have cd: "unmarshalLoginRsp (codec (demo_env 500)) (or_nil (marshalLoginRsp test_pb \<lparr>lrPlayerId = 7\<rparr>)) =
      Some \<lparr>lrPlayerId = 7\<rparr>"
    by (simp add: test_pb_def)
  have a: "sm_Get 2 (sessions demo5) = Some 1" by (simp add: sm_Get_def demo5_state)
  have b: "byPlayer (sessions demo5) 7 = Some 0" by (simp add: demo5_state)
  have c: "s_Conn (g_sess demo5 0) = Some 0" "s_PlayerID (g_sess demo5 0) = 7" "s_ID (g_sess demo5 0) = 1"
    by (simp_all add: demo5_state demo3_state demo2_state)
  have d: "players_of relogged 7 = Some 0" by (simp add: relogged_state)
  have e: "gr_sendCh (nsRouters one_gate 0) = Some (make_chan 2048)" "0 \<le> gr_sendRetryMax (nsRouters one_gate 0)"
    by (simp_all add: gr_Start_def NewGameRouter_def)
  show ?thesis
    using second_login_takes_player_offline [OF demo5_reach a cd _ b _ c _ _ e(1) _ e(2) relogged_state(1) d
        relogged_state(3) refl refl refl, of demo_senv 1 game_pb 0 0]
    by (simp add: make_chan_def)
qed

end
