(* ===== verification/ServiceTypes.thy ===== *)
theory ServiceTypes
  imports ServiceProps
begin

text \<open>
  The well-formedness of the service's state in every state it can get to: its tables refer only
  to what exists, gate ids are counted up from one, and the link to the game server keeps its
  queue within its capacity and its backoff among four values.
\<close>

subsection \<open>The link to the game server\<close>

definition router_ok :: "GameRouter \<Rightarrow> bool" where
  "router_ok r \<longleftrightarrow>
     (case gr_sendCh r of None \<Rightarrow> False | Some ch \<Rightarrow> ch_cap ch = 2048 \<and> length (ch_buf ch) \<le> 2048) \<and>
     gr_sendRetryMax r = 2 \<and> gr_backoff r \<in> {second, 2 * second, 4 * second, 8 * second}"

lemma router_ok_start [simp]: "router_ok (gr_Start (NewGameRouter addr 2 d))"
  by (simp add: router_ok_def gr_Start_def NewGameRouter_def make_chan_def)

lemma router_ok_write [intro]: "router_ok r \<Longrightarrow> router_ok (fst (gr_writeStep r))"
  by (auto simp: router_ok_def gr_writeStep_def try_recv_def Let_def split: option.splits list.splits)

lemma router_ok_writes [intro]: "router_ok r \<Longrightarrow> router_ok (gr_writeSteps n r)"
  by (induction n arbitrary: r) auto

lemma router_ok_try: "router_ok r \<Longrightarrow> gr_try env r = Some r' \<Longrightarrow> router_ok r'"
  by (auto simp: router_ok_def gr_try_def try_send_def split: option.splits if_splits)

lemma router_ok_busy [simp]: "router_ok (r\<lparr>gr_busyCount := k\<rparr>) = router_ok r"
  by (simp add: router_ok_def)

lemma router_ok_sendLoop: "router_ok r \<Longrightarrow> router_ok (fst (gr_sendLoop dr a env r))"
proof (induction dr a env r rule: gr_sendLoop.induct)
  case (1 dr a env r)
  then show ?case
    by (subst gr_sendLoop.simps) (auto intro: router_ok_try split: option.split)
qed

lemma router_ok_Send [intro]: "router_ok r \<Longrightarrow> router_ok (fst (gr_Send dr env r))"
  by (simp add: gr_Send_def router_ok_sendLoop)

lemma router_ok_dial [intro]: "router_ok r \<Longrightarrow> router_ok (fst (gr_dial_step d r))"
  by (cases d) (auto simp: router_ok_def second_def)

subsection \<open>The operations of the server\<close>

definition router_wf :: "'d NetServer \<Rightarrow> bool" where
  "router_wf n \<longleftrightarrow> nsGameRouter n = Some 0 \<and> (\<forall>p r. nsPlayerRoute n p = Some r \<longrightarrow> r = 0) \<and>
     router_ok (nsRouters n 0)"

lemma router_wf_reply [simp]: "router_wf (fst (replyToGate e sid m data n)) = router_wf n"
  by (simp add: router_wf_def replyToGate_def Let_def split: option.split prod.split)

lemma router_wf_db [simp]: "router_wf (n\<lparr>nsDb := d\<rparr>) = router_wf n"
  by (simp add: router_wf_def)

lemma router_wf_gate [simp]: "router_wf (n\<lparr>nsSessionGate := s\<rparr>) = router_wf n"
  by (simp add: router_wf_def)

lemma router_wf_route [intro]:
  assumes "router_wf n" shows "router_wf (fst (routeToGame e env n))"
proof -
  have "nsPlayerRoute n (ePlayerId env) = None \<or> nsPlayerRoute n (ePlayerId env) = Some 0"
    using assms by (cases "nsPlayerRoute n (ePlayerId env)") (auto simp: router_wf_def)
  then show ?thesis using assms router_ok_Send [of "nsRouters n 0" "se_drain e" env]
    by (auto simp: router_wf_def routeToGame_def Let_def split: prod.splits if_splits)
qed

lemma router_wf_finish [intro]:
  assumes "router_wf n" shows "router_wf (fst (finishLogin e svc ctx req n))"
proof (cases "ResolveRoleID svc (if lqAccountId req = '''' then lqToken req else lqAccountId req) (nsDb n)")
  case (Pair res db)
  have "router_wf m" if "routeToGame e env (n\<lparr>nsDb := db\<rparr>) = (m, x)" for env m x
    using router_wf_route [of "n\<lparr>nsDb := db\<rparr>" e env] that assms by simp
  with Pair assms show ?thesis
    by (auto simp: finishLogin_def Let_def split: sum.split prod.split)
qed

lemma router_wf_run_handler [intro]: "router_wf n \<Longrightarrow> router_wf (fst (run_handler e h ctx n))"
  by (cases h) (auto simp: onLogin_def replyError_def split: option.split)

lemma router_wf_Dispatch [intro]: "router_wf n \<Longrightarrow> router_wf (Dispatch e ctx n)"
  by (auto simp: Dispatch_def split: option.split)

lemma router_wf_step: "router_wf n \<Longrightarrow> router_wf (svc_step e ev n)"
proof (cases ev)
  case (GateSends g env)
  assume "router_wf n"
  then have "router_wf (dispatchEnvelope e env (n\<lparr>nsSessionGate := s\<rparr>))" "router_wf (dispatchEnvelope e env n)" for s
    by (auto simp: dispatchEnvelope_def)
  then show ?thesis by (simp add: GateSends handleGateConn_env_def)
next
  case (GameSends env)
  assume "router_wf n"
  then show ?thesis by (simp add: GameSends ForwardToGate_def)
qed (auto simp: acceptGate_def handleGateConn_end_def upd_router_def Let_def router_wf_def)

lemma router_wf_run: "router_wf n \<Longrightarrow> router_wf (svc_run tr n)"
  by (induction tr n rule: svc_run.induct) (simp_all add: router_wf_step)

subsection \<open>Gate ids\<close>

fun is_connect :: "svc_event \<Rightarrow> bool" where
  "is_connect (GateConnects i out) = True"
| "is_connect _ = False"

definition gates_accepted :: "(senv \<times> svc_event) list \<Rightarrow> nat" where
  "gates_accepted tr = length (filter (is_connect \<circ> snd) tr)"

definition gate_ids :: "nat \<Rightarrow> int64 set" where
  "gate_ids k = of_nat ` {1..k}"

lemma gate_ids_Suc: "gate_ids (Suc k) = insert (of_nat k + 1) (gate_ids k)"
  by (simp add: gate_ids_def atLeastAtMostSuc_conv add.commute)

definition ids_ok :: "nat \<Rightarrow> 'd NetServer \<Rightarrow> bool" where
  "ids_ok k n \<longleftrightarrow> nsNextGateID n = of_nat k \<and> (\<forall>g. nsGateConns n g \<noteq> None \<longrightarrow> g \<in> gate_ids k)"

lemma ids_ok_same: "same_routes n n' \<Longrightarrow> ids_ok k n \<Longrightarrow> ids_ok k n'"
  unfolding ids_ok_def same_routes_def by metis

lemma ids_ok_step:
  assumes "ids_ok k n"
  shows "ids_ok (if is_connect ev then Suc k else k) (svc_step e ev n)"
proof (cases ev)
  case (GateConnects i out)
  with assms show ?thesis by (auto simp: ids_ok_def acceptGate_def Let_def gate_ids_Suc)
next
  case (GateSends g env)
  have "ids_ok k (n\<lparr>nsSessionGate := s\<rparr>)" for s using assms by (simp add: ids_ok_def)
  then have "ids_ok k (dispatchEnvelope e env (n\<lparr>nsSessionGate := s\<rparr>))" for s
    by (rule ids_ok_same [OF same_routes_dispatchEnvelope])
  moreover have "ids_ok k (dispatchEnvelope e env n)"
    by (rule ids_ok_same [OF same_routes_dispatchEnvelope assms])
  ultimately show ?thesis by (simp add: GateSends handleGateConn_env_def)
next
  case (GateLeaves g)
  with assms show ?thesis by (simp add: ids_ok_def handleGateConn_end_def)
qed (use assms in \<open>simp_all add: ForwardToGate_def ids_ok_same [OF same_routes_reply]
    ids_ok_same [OF same_routes_router]\<close>)

lemma ids_ok_run: "ids_ok k n \<Longrightarrow> ids_ok (k + gates_accepted tr) (svc_run tr n)"
proof (induction tr n arbitrary: k rule: svc_run.induct)
  case (2 e ev tr n)
  from "2.IH" [OF ids_ok_step [OF "2.prems", of ev e]] show ?case
    by (cases "is_connect ev") (simp_all add: gates_accepted_def)
qed (simp add: gates_accepted_def)

text \<open>
  C38: The service's state is well formed whatever happens. After any history: a session is only
  ever routed to a gate that is connected, and session zero to none; players are routed to the
  one link there is; gate ids are exactly the numbers from one on, one per accepted gate, and
  only accepted gates are connected; and the link to the game server is started, holds at most
  2048 envelopes, retries twice and waits 1, 2, 4 or 8 seconds between dials.
\<close>

theorem service_state_well_formed:
  assumes "svc_run_ok tr (boot_service addr opts svc db)"
    and "n = svc_run tr (boot_service addr opts svc db)"
  shows "(\<forall>sid g. nsSessionGate n sid = Some g \<longrightarrow> nsGateConns n g \<noteq> None) \<and> nsSessionGate n 0 = None \<and>
    nsGameRouter n = Some 0 \<and> (\<forall>p r. nsPlayerRoute n p = Some r \<longrightarrow> r = 0) \<and> router_ok (nsRouters n 0) \<and>
    nsNextGateID n = of_nat (gates_accepted tr) \<and>
    (\<forall>g. nsGateConns n g \<noteq> None \<longrightarrow> g \<in> gate_ids (gates_accepted tr))"
proof -
  let ?b = "boot_service addr opts svc db"
  have "svc_inv n" using svc_inv_run [OF svc_inv_boot assms(1)] assms(2) by simp
  moreover have "router_wf ?b" by (simp add: router_wf_def boot_service_def NewNetServer_def)
  then have "router_wf n" using router_wf_run assms(2) by blast
  moreover have "ids_ok 0 ?b" by (simp add: ids_ok_def boot_service_def NewNetServer_def)
  then have "ids_ok (gates_accepted tr) n" using ids_ok_run [of 0 ?b tr] assms(2) by simp
  ultimately show ?thesis by (simp add: svc_inv_def router_wf_def ids_ok_def)
qed

theorem service_state_well_formed_witness:
  "nsNextGateID (svc_run two_gates (boot_service '''' demo_opts no_store ())) = 2 \<and>
   router_ok (nsRouters (svc_run two_gates (boot_service '''' demo_opts no_store ())) 0)"
proof -
  have "gates_accepted two_gates = 2" by (simp add: gates_accepted_def two_gates_def)
  then show ?thesis using service_state_well_formed [OF two_gates_ok refl] by simp
qed

end
