(* ===== verification/Retry.thy ===== *)
theory Retry
  imports Remote GameRouter
begin

text \<open>
  The retry loop that \<open>remoteClient.Send\<close> and \<open>GameRouter.Send\<close> share: try to put the envelope
  into the queue, sleep when it is full, give up at the last attempt. Its outcome is stated once,
  from the equation of one iteration, and holds for both clients.
\<close>

locale retry_loop =
  fixes attempt :: "'env \<Rightarrow> 'l \<Rightarrow> 'l option"
    and pause :: "nat \<Rightarrow> 'l \<Rightarrow> 'l"
    and limit :: "'l \<Rightarrow> int"
    and give_up :: "'l \<Rightarrow> 'l"
    and busy :: go_error
    and loop :: "(int \<Rightarrow> nat) \<Rightarrow> int \<Rightarrow> 'env \<Rightarrow> 'l \<Rightarrow> 'l \<times> go_error option"
  assumes one_turn: "loop dr a e l =
      (if a \<le> limit l then
         (case attempt e l of
            Some l' \<Rightarrow> (l', None)
          | None \<Rightarrow> (if a = limit l then (give_up l, Some busy) else loop dr (a + 1) e (pause (dr a) l)))
       else (l, Some busy))"
    and pause_limit: "limit (pause n l) = limit l"
    and pause_zero: "pause 0 l = l"
    and pause_add: "pause n (pause m l) = pause (m + n) l"
begin

lemma skip_full:
  assumes "\<forall>k < n. attempt e (pause (\<Sum>i<k. dr (int i)) l) = None" and "int n \<le> limit l"
  shows "loop dr 0 e l = loop dr (int n) e (pause (\<Sum>i<n. dr (int i)) l)"
  using assms
proof (induction n)
  case (Suc n)
  then have "loop dr 0 e l = loop dr (int n) e (pause (\<Sum>i<n. dr (int i)) l)" by simp
  also have "\<dots> = loop dr (int n + 1) e (pause (dr (int n)) (pause (\<Sum>i<n. dr (int i)) l))"
    using Suc.prems by (subst one_turn) (simp add: pause_limit)
  finally show ?case by (simp add: pause_add add.commute)
qed (simp add: pause_zero)

text \<open>
  The loop ends at its first attempt that finds room, or at its last one, and there are at most
  \<open>limit l + 1\<close> attempts.
\<close>

lemma ends:
  assumes "0 \<le> limit l"
  shows "\<exists>n. int n \<le> limit l \<and> (\<forall>k < n. attempt e (pause (\<Sum>i<k. dr (int i)) l) = None) \<and>
    (case attempt e (pause (\<Sum>i<n. dr (int i)) l) of
       Some l' \<Rightarrow> loop dr 0 e l = (l', None)
     | None \<Rightarrow> int n = limit l \<and> loop dr 0 e l = (give_up (pause (\<Sum>i<n. dr (int i)) l), Some busy))"
proof -
  define full where "full k \<longleftrightarrow> attempt e (pause (\<Sum>i<k. dr (int i)) l) = None" for k
  show ?thesis
  proof (cases "\<exists>n. int n \<le> limit l \<and> \<not> full n")
    case True
    define n where "n = (LEAST n. int n \<le> limit l \<and> \<not> full n)"
    have n: "int n \<le> limit l" "\<not> full n" using LeastI_ex [OF True] by (simp_all add: n_def)
    have below: "full k" if "k < n" for k
      using not_less_Least [of k "\<lambda>n. int n \<le> limit l \<and> \<not> full n"] that n(1) by (simp add: n_def)
    then have "loop dr 0 e l = loop dr (int n) e (pause (\<Sum>i<n. dr (int i)) l)"
      by (intro skip_full n(1)) (simp add: full_def)
    then show ?thesis using n below
      by (intro exI [of _ n]) (auto simp: full_def pause_limit one_turn [of dr "int n"])
  next
    case False
    then have all: "full k" if "int k \<le> limit l" for k using that by blast
    define n where "n = nat (limit l)"
    have n: "int n = limit l" using assms by (simp add: n_def)
    then have "loop dr 0 e l = loop dr (int n) e (pause (\<Sum>i<n. dr (int i)) l)"
      by (intro skip_full) (use all in \<open>auto simp: full_def\<close>)
    then show ?thesis using n all [of n] all
      by (intro exI [of _ n]) (auto simp: full_def pause_limit one_turn [of dr "limit l"])
  qed
qed

end

subsection \<open>Both clients\<close>

lemma rc_writeSteps_add: "rc_writeSteps n (rc_writeSteps m c) = rc_writeSteps (m + n) c"
  by (induction m arbitrary: c) simp_all

lemma gr_writeSteps_add: "gr_writeSteps n (gr_writeSteps m r) = gr_writeSteps (m + n) r"
  by (induction m arbitrary: r) simp_all

definition rc_try :: "Envelope \<Rightarrow> remoteClient \<Rightarrow> remoteClient option" where
  "rc_try env c = map_option (\<lambda>q. c\<lparr>rc_sendCh := q\<rparr>) (try_send env (rc_sendCh c))"

interpretation rc_retry: retry_loop rc_try rc_writeSteps rc_sendRetryMax
  "\<lambda>c. c\<lparr>rc_busyCount := rc_busyCount c + 1\<rparr>" InternalErrRemoteBusy rc_sendLoop
  by unfold_locales
    (subst rc_sendLoop.simps, simp_all add: rc_try_def rc_writeSteps_add split: option.split)

interpretation gr_retry: retry_loop gr_try gr_writeSteps gr_sendRetryMax
  "\<lambda>r. r\<lparr>gr_busyCount := gr_busyCount r + 1\<rparr>" InternalErrGameRouterBusy gr_sendLoop
  by unfold_locales (subst gr_sendLoop.simps, simp_all add: gr_writeSteps_add split: option.split)

text \<open>
  C39: Sending to the service or to the game server ends. With a retry limit that is not negative,
  Send makes at most one attempt more than that: it puts the envelope into the queue at the first
  attempt that finds room, after what the writer has taken out during the pauses so far, and
  counts and reports busy only when every one of the attempts found the queue full.
\<close>

theorem send_ends_within_retries:
  assumes "0 \<le> rc_sendRetryMax c" and "0 \<le> gr_sendRetryMax r"
  shows "(\<exists>n. int n \<le> rc_sendRetryMax c \<and>
      (\<forall>k < n. rc_try env (rc_writeSteps (\<Sum>i<k. dr (int i)) c) = None) \<and>
      (case rc_try env (rc_writeSteps (\<Sum>i<n. dr (int i)) c) of
         Some c' \<Rightarrow> rc_Send dr env c = (c', None)
       | None \<Rightarrow> int n = rc_sendRetryMax c \<and>
           rc_Send dr env c = ((rc_writeSteps (\<Sum>i<n. dr (int i)) c)
             \<lparr>rc_busyCount := rc_busyCount (rc_writeSteps (\<Sum>i<n. dr (int i)) c) + 1\<rparr>,
             Some InternalErrRemoteBusy))) \<and>
    (\<exists>n. int n \<le> gr_sendRetryMax r \<and>
      (\<forall>k < n. gr_try env (gr_writeSteps (\<Sum>i<k. dr (int i)) r) = None) \<and>
      (case gr_try env (gr_writeSteps (\<Sum>i<n. dr (int i)) r) of
         Some r' \<Rightarrow> gr_Send dr env r = (r', None)
       | None \<Rightarrow> int n = gr_sendRetryMax r \<and>
           gr_Send dr env r = ((gr_writeSteps (\<Sum>i<n. dr (int i)) r)
             \<lparr>gr_busyCount := gr_busyCount (gr_writeSteps (\<Sum>i<n. dr (int i)) r) + 1\<rparr>,
             Some InternalErrGameRouterBusy)))"
  unfolding rc_Send_def gr_Send_def
  using rc_retry.ends [OF assms(1), of env dr] gr_retry.ends [OF assms(2), of env dr] by (rule conjI)

text \<open>A router that was never started refuses after its third attempt.\<close>

theorem send_ends_within_retries_witness:
  "\<exists>n. int n \<le> 2 \<and> int n = 2 \<and>
     snd (gr_Send (\<lambda>_. 0) \<lparr>eMsgId = 3001, eSessionId = 1, ePlayerId = 7, ePayload = []\<rparr> (NewGameRouter ''a'' 2 5)) =
       Some InternalErrGameRouterBusy"
proof -
  define e where "e = \<lparr>eMsgId = 3001, eSessionId = 1, ePlayerId = 7, ePayload = []\<rparr>"
  define r where "r = NewGameRouter ''a'' 2 5"
  have r: "gr_sendRetryMax r = 2" "gr_sendCh r = None" by (simp_all add: r_def NewGameRouter_def)
  have "gr_writeSteps n r = r" for n
    by (induction n) (simp_all add: gr_writeStep_def r)
  then have none: "gr_try e (gr_writeSteps n r) = None" for n
    by (simp add: gr_try_def r)
  have c: "0 \<le> rc_sendRetryMax (newRemoteClient ''s'' ''a'' 2 5)" by (simp add: newRemoteClient_def)
  obtain n where "int n = gr_sendRetryMax r" "snd (gr_Send (\<lambda>_. 0) e r) = Some InternalErrGameRouterBusy"
    using send_ends_within_retries [OF c, of r e "\<lambda>_. 0"] none [of 0] by (auto simp: none r(1))
  then show ?thesis using r(1) unfolding e_def r_def by (intro exI [of _ n]) simp
qed

end
