(* ===== verification/Ranking.thy ===== *)
theory Ranking
  imports RedisDao "HOL-Library.AList"
begin

text \<open>
  What the sorted-set methods of the Redis access object compute: ranks of players and the
  highest and lowest members. The locale states what Redis documents of the three methods
  involved; the reference implementation in memory obeys it.
\<close>

subsection \<open>Ranges by index\<close>

text \<open>
  Redis counts a negative index from the end, cuts a range down to the members there are, and
  returns nothing when it is empty.
\<close>

definition redis_index :: "nat \<Rightarrow> int64 \<Rightarrow> int" where
  "redis_index n i = (if sint i < 0 then int n + sint i else sint i)"

definition redis_slice :: "int64 \<Rightarrow> int64 \<Rightarrow> 'a list \<Rightarrow> 'a list" where
  "redis_slice a b xs =
     (let lo = max 0 (redis_index (length xs) a); hi = min (int (length xs) - 1) (redis_index (length xs) b)
      in if hi < lo then [] else take (nat (hi - lo + 1)) (drop (nat lo) xs))"

lemma sint_pred:
  fixes n :: int64
  assumes "0 \<le> sint n"
  shows "sint (n - 1) = sint n - 1"
proof -
  have "sint n < 2 ^ 63" using sint_less [of n] by simp
  with assms show ?thesis by (simp add: sint_word_ariths signed_take_bit_int_eq_self)
qed

lemma sint_zero_iff: "sint (n :: int64) = 0 \<longleftrightarrow> n = 0"
  using signed_word_eqI [of n 0] by auto

lemma nat_two_plus: "0 \<le> 1 + (x + y) \<Longrightarrow> nat (x + (y + 2)) = Suc (nat (1 + (x + y)))"
  by (simp add: nat_eq_iff)

text \<open>The first elements, as the callers of the ranges write them.\<close>

lemma slice_from_zero:
  "redis_slice 0 b xs = (if sint b < 0 then take (nat (int (length xs) + sint b + 1)) xs else take (nat (sint b) + 1) xs)"
  by (cases xs) (auto simp: redis_slice_def redis_index_def Let_def nat_add_distrib nat_two_plus algebra_simps min_def)

lemma slice_first_n: "0 \<le> sint n \<Longrightarrow> redis_slice 0 (n - 1) xs = (if n = 0 then xs else take (nat (sint n)) xs)"
  using sint_zero_iff [of n]
  by (cases "sint n = 0") (auto simp: slice_from_zero sint_pred Suc_nat_eq_nat_zadd1)

lemma slice_last_score: "redis_slice 0 0 xs = take 1 xs"
  by (simp add: slice_from_zero)

subsection \<open>Sorted sets\<close>

text \<open>The members in Redis's order: by score, equal scores by the bytes of the member.\<close>

definition ranking :: "(string \<rightharpoonup> 's :: linorder) \<Rightarrow> ('s \<times> string) list" where
  "ranking m = sorted_list_of_set {(s, x). m x = Some s}"

lemma finite_ranking: "finite (dom m) \<Longrightarrow> finite {(s, x). m x = Some s}"
proof -
  assume "finite (dom m)"
  moreover have "{(s, x). m x = Some s} = (\<lambda>x. (the (m x), x)) ` dom m" by force
  ultimately show ?thesis by simp
qed

lemma ranking_facts:
  assumes "finite (dom m)"
  shows "set (ranking m) = {(s, x). m x = Some s}" "sorted (ranking m)" "distinct (ranking m)"
    "length (ranking m) = card (dom m)"
proof -
  show "set (ranking m) = {(s, x). m x = Some s}" "sorted (ranking m)" "distinct (ranking m)"
    using finite_ranking [OF assms] by (simp_all add: ranking_def)
  have "{(s, x). m x = Some s} = (\<lambda>x. (the (m x), x)) ` dom m" by force
  then have "card {(s, x). m x = Some s} = card (dom m)" by (simp add: card_image inj_on_def)
  then show "length (ranking m) = card (dom m)" by (simp add: ranking_def)
qed

definition zpairs :: "'s Z list \<Rightarrow> ('s \<times> string) list" where
  "zpairs zs = map (\<lambda>z. (Score z, wire_text (Member z))) zs"

text \<open>
  What Redis documents: \<open>ZADD\<close> sets the score of each member, the ranges return the members by
  index in ascending or descending order and change nothing. \<open>scores\<close> is the sorted set the
  server holds under each key; the commands may fail at any time.
\<close>

locale zset_laws =
  fixes zc :: "('r, 's :: linorder) zset_client"
    and scores :: "'r \<Rightarrow> string \<Rightarrow> string \<rightharpoonup> 's"
  assumes finite_set: "finite (dom (scores d k))"
    and zadd_ok: "cmd_ZAdd zc k zs d = (Inr n, d') \<Longrightarrow>
      scores d' = (scores d)(k := fold (\<lambda>(s, x) m. m(x \<mapsto> s)) (zpairs zs) (scores d k))"
    and zrange_ok: "cmd_ZRange zc k a b d = (Inr xs, d') \<Longrightarrow>
      xs = map snd (redis_slice a b (ranking (scores d k))) \<and> scores d' = scores d"
    and zrevrange_ok: "cmd_ZRevRange zc k a b d = (Inr xs, d') \<Longrightarrow>
      xs = map snd (redis_slice a b (rev (ranking (scores d k)))) \<and> scores d' = scores d"
    and zrevrange_scores_ok: "cmd_ZRevRangeWithScores zc k a b d = (Inr zs, d') \<Longrightarrow>
      zpairs zs = redis_slice a b (rev (ranking (scores d k))) \<and> scores d' = scores d"
begin

lemma update_rank:
  assumes "cl_zset c = zc" and "UpdateRankScore c rank p s d = (None, d')"
  shows "scores d' = (scores d)(KeyRank rank := (scores d (KeyRank rank))(dec_int (sint p) \<mapsto> s))"
proof -
  obtain n where "cmd_ZAdd zc (KeyRank rank) [\<lparr>Score = s, Member = VInt p\<rparr>] d = (Inr n, d')"
    using assms by (auto simp: UpdateRankScore_def only_err_def split: prod.splits sum.splits)
  from zadd_ok [OF this] show ?thesis by (simp add: zpairs_def)
qed

lemma top_n:
  assumes "cl_zset c = zc" and "GetTopN c rank n d = (Inr zs, d')" and "0 \<le> sint n"
  shows "zpairs zs = (if n = 0 then rev (ranking (scores d (KeyRank rank)))
    else take (nat (sint n)) (rev (ranking (scores d (KeyRank rank)))))"
  using zrevrange_scores_ok [of "KeyRank rank" 0 "n - 1" d zs d'] assms
  by (simp add: GetTopN_def slice_first_n)

lemma lowest:
  assumes "cl_zset c = zc" and "ZTopNMin c key n d = (Inr xs, d')"
  shows "xs = map snd (if 0 < sint n then take (nat (sint n)) (ranking (scores d key))
    else if n = 0 then take 1 (ranking (scores d key))
    else take (nat (int (card (dom (scores d key))) + sint n + 1)) (ranking (scores d key)))"
proof (cases "0 < sint n")
  case True
  then have "n \<noteq> 0" by auto
  with True assms zrange_ok [of key 0 "n - 1" d xs d'] show ?thesis
    by (simp add: ZTopNMin_def ZRange_def slice_first_n word_sless_alt)
next
  case False
  with assms zrange_ok [of key 0 n d xs d'] sint_zero_iff [of n] ranking_facts(4) [OF finite_set, of d key]
  show ?thesis by (auto simp: ZTopNMin_def ZRange_def slice_from_zero word_sless_alt)
qed

lemma max_score:
  assumes "cl_zset c = zc" and "ZMaxScore c key d = (res, d')"
    and "\<And>err x. cmd_ZRevRangeWithScores zc key 0 0 d \<noteq> (Inl err, x)"
  shows "res = (if ranking (scores d key) = [] then Inl RedisNil else Inr (fst (last (ranking (scores d key)))))"
proof -
  obtain zs x where z: "cmd_ZRevRangeWithScores zc key 0 0 d = (Inr zs, x)"
    using assms(3) by (metis surj_pair sumE)
  from zrevrange_scores_ok [OF z] have p: "zpairs zs = take 1 (rev (ranking (scores d key)))"
    by (simp add: slice_last_score)
  show ?thesis
  proof (cases "ranking (scores d key)" rule: rev_cases)
    case Nil
    with p z assms show ?thesis by (simp add: ZMaxScore_def zpairs_def)
  next
    case (snoc ys y)
    with p obtain w where "zs = [w]" "Score w = fst y" by (cases zs) (auto simp: zpairs_def)
    with snoc z assms show ?thesis by (simp add: ZMaxScore_def)
  qed
qed

end

subsection \<open>A reference sorted set\<close>

text \<open>Each key holds an association list of members and integer scores.\<close>

type_synonym mem_sets = "string \<Rightarrow> (string \<times> int) list"

definition mem_ranking :: "(string \<times> int) list \<Rightarrow> (int \<times> string) list" where
  "mem_ranking al = sort (map (\<lambda>(x, s). (s, x)) (AList.clearjunk al))"

definition of_pairs :: "(int \<times> string) list \<Rightarrow> int Z list" where
  "of_pairs ps = map (\<lambda>(s, x). \<lparr>Score = s, Member = VBytes x\<rparr>) ps"

definition mem_zset :: "(mem_sets, int) zset_client" where
  "mem_zset =
     \<lparr>cmd_ZAdd = (\<lambda>k zs d.
         (Inr (of_nat (length (remdups (filter (\<lambda>x. map_of (d k) x = None) (map (wire_text \<circ> Member) zs))))),
          d(k := fold (\<lambda>(s, x). AList.update x s) (zpairs zs) (d k)))),
      cmd_ZRange = (\<lambda>k a b d. (Inr (map snd (redis_slice a b (mem_ranking (d k)))), d)),
      cmd_ZRevRange = (\<lambda>k a b d. (Inr (map snd (redis_slice a b (rev (mem_ranking (d k))))), d)),
      cmd_ZRevRangeWithScores =
        (\<lambda>k a b d. (Inr (of_pairs (redis_slice a b (rev (mem_ranking (d k))))), d))\<rparr>"

lemma mem_ranking: "mem_ranking al = ranking (map_of al)"
proof -
  let ?ps = "map (\<lambda>(x, s). (s, x)) (AList.clearjunk al)"
  have d: "distinct ?ps"
    using distinct_clearjunk [of al] by (auto simp: distinct_map inj_on_def)
  have "(x, s) \<in> set (AList.clearjunk al) \<longleftrightarrow> map_of al x = Some s" for x s
    using map_of_eq_Some_iff [OF distinct_clearjunk, of al x s] by (simp add: map_of_clearjunk)
  then have "set ?ps = {(s, x). map_of al x = Some s}" by force
  with d have "set (mem_ranking al) = set (ranking (map_of al))" "distinct (mem_ranking al)"
    by (simp_all add: mem_ranking_def ranking_facts(1) [OF finite_dom_map_of])
  then show ?thesis
    using ranking_facts [OF finite_dom_map_of, of al]
    by (intro sorted_distinct_set_unique) (simp_all add: mem_ranking_def)
qed

lemma zpairs_of_pairs [simp]: "zpairs (of_pairs ps) = ps"
  by (induction ps) (auto simp: zpairs_def of_pairs_def)

lemma map_of_updates: "map_of (fold (\<lambda>(s, x). AList.update x s) ps al) = fold (\<lambda>(s, x) m. m(x \<mapsto> s)) ps (map_of al)"
  by (induction ps arbitrary: al) (auto simp: update_conv')

interpretation mem_zset: zset_laws mem_zset "\<lambda>d k. map_of (d k)"
proof
  show "(\<lambda>k. map_of (d' k)) =
      (\<lambda>k. map_of (d k))(k := fold (\<lambda>(s, x) m. m(x \<mapsto> s)) (zpairs zs) (map_of (d k)))"
    if "cmd_ZAdd mem_zset k zs d = (Inr n, d')" for k zs d n d'
  proof -
    have "d' = d(k := fold (\<lambda>(s, x). AList.update x s) (zpairs zs) (d k))"
      using that by (simp add: mem_zset_def)
    then show ?thesis by (intro ext) (simp add: map_of_updates)
  qed
qed (auto simp: mem_zset_def mem_ranking finite_dom_map_of)

subsection \<open>Ranks\<close>

text \<open>Any number of score updates, and what they make of the rank.\<close>

fun update_scores ::
    "('r, 's, 'v) redis_client \<Rightarrow> string \<Rightarrow> (int64 \<times> 's) list \<Rightarrow> 'r \<Rightarrow> go_error option \<times> 'r" where
  "update_scores c rank [] d = (None, d)"
| "update_scores c rank ((p, s) # us) d =
     (case UpdateRankScore c rank p s d of
        (Some err, d) \<Rightarrow> (Some err, d) | (None, d) \<Rightarrow> update_scores c rank us d)"

definition new_scores :: "(int64 \<times> 's) list \<Rightarrow> (string \<rightharpoonup> 's) \<Rightarrow> string \<rightharpoonup> 's" where
  "new_scores us = fold (\<lambda>(p, s) m. m(dec_int (sint p) \<mapsto> s)) us"

lemma update_scores_effect:
  "zset_laws (cl_zset c) scores \<Longrightarrow> update_scores c rank us d = (None, d') \<Longrightarrow>
    scores d' (KeyRank rank) = new_scores us (scores d (KeyRank rank))"
proof (induction c rank us d rule: update_scores.induct)
  case (2 c rank p s us d)
  obtain x d1 where u: "UpdateRankScore c rank p s d = (x, d1)" by force
  with "2.prems"(2) have "x = None" and rest: "update_scores c rank us d1 = (None, d')"
    by (auto split: option.splits)
  with u have d1: "scores d1 (KeyRank rank) = (scores d (KeyRank rank))(dec_int (sint p) \<mapsto> s)"
    using zset_laws.update_rank [OF "2.prems"(1) refl, of rank p s d d1] by simp
  have "scores d' (KeyRank rank) = new_scores us (scores d1 (KeyRank rank))"
    using "2.IH" [OF u [symmetric] \<open>x = None\<close>] "2.prems"(1) rest by blast
  then show ?case by (simp only: d1 new_scores_def fold.simps comp_apply case_prod_conv)
qed (simp add: new_scores_def)

lemma top_of_ranking:
  assumes "finite (dom m)" and "l = take k (rev (ranking m))"
  shows "set l \<subseteq> {(s, x). m x = Some s}" "sorted_wrt (\<ge>) l" "distinct l" "length l = min k (card (dom m))"
    "m x = Some s \<Longrightarrow> (s, x) \<notin> set l \<Longrightarrow> e \<in> set l \<Longrightarrow> (s, x) \<le> e"
proof -
  note r = ranking_facts [OF assms(1)]
  show "set l \<subseteq> {(s, x). m x = Some s}" using set_take_subset [of k "rev (ranking m)"] r(1) assms(2) by auto
  have desc: "sorted_wrt (\<ge>) (rev (ranking m))" using r(2) by (simp add: sorted_wrt_rev)
  then show "sorted_wrt (\<ge>) l" by (simp add: assms(2) sorted_wrt_take)
  show "distinct l" using r(3) by (simp add: assms(2))
  show "length l = min k (card (dom m))" using r(4) by (simp add: assms(2))
  assume "m x = Some s" "(s, x) \<notin> set l" "e \<in> set l"
  then have "(s, x) \<in> set (rev (ranking m))" using r(1) by simp
  then have "(s, x) \<in> set (take k (rev (ranking m))) \<union> set (drop k (rev (ranking m)))"
    by (metis append_take_drop_id set_append)
  with \<open>(s, x) \<notin> set l\<close> have "(s, x) \<in> set (drop k (rev (ranking m)))" by (auto simp: assms(2))
  moreover have "\<forall>a \<in> set (take k (rev (ranking m))). \<forall>b \<in> set (drop k (rev (ranking m))). b \<le> a"
    using desc sorted_wrt_append [of "(\<ge>)" "take k (rev (ranking m))" "drop k (rev (ranking m))"] by simp
  ultimately show "(s, x) \<le> e" using \<open>e \<in> set l\<close> by (simp add: assms(2))
qed

text \<open>
  C40: The top of a rank. After any number of successful score updates, in any order, a successful
  request for the n best of the rank returns each of them once with its latest score, from best
  to worst, n of them or all when there are fewer, and nobody left out is better than anybody
  returned; equal scores are ordered by the player's id as text. For n zero it returns everybody.
\<close>

theorem rank_top_n:
  assumes "zset_laws (cl_zset c) scores" and "update_scores c rank us d = (None, d')"
    and "GetTopN c rank n d' = (Inr zs, d'')" and "0 \<le> sint n"
    and "b = new_scores us (scores d (KeyRank rank))"
  shows "set (zpairs zs) \<subseteq> {(s, x). b x = Some s} \<and> sorted_wrt (\<ge>) (zpairs zs) \<and> distinct (zpairs zs) \<and>
    length zs = (if n = 0 then card (dom b) else min (nat (sint n)) (card (dom b))) \<and>
    (\<forall>s x e. b x = Some s \<and> (s, x) \<notin> set (zpairs zs) \<and> e \<in> set (zpairs zs) \<longrightarrow> (s, x) \<le> e)"
proof -
  have b: "scores d' (KeyRank rank) = b" using update_scores_effect [OF assms(1,2)] assms(5) by simp
  have fin: "finite (dom b)" using zset_laws.finite_set [OF assms(1)] b by metis
  define k where "k = (if n = 0 then card (dom b) else nat (sint n))"
  have "zpairs zs = take k (rev (ranking b))"
    using zset_laws.top_n [OF assms(1) refl assms(3,4)] ranking_facts(4) [OF fin]
    by (simp add: b k_def)
  note top = top_of_ranking [OF fin this]
  have "length zs = length (zpairs zs)" by (simp add: zpairs_def)
  with top show ?thesis by (auto simp: k_def)
qed

text \<open>Players 7, 9 and 12 play; 9 plays again and improves.\<close>

definition demo_plays :: "(int64 \<times> int) list" where
  "demo_plays = [(7, 10), (9, 20), (12, 15), (9, 30)]"

lemma demo_plays_scored:
  "fst (update_scores (c\<lparr>cl_zset := mem_zset\<rparr>) rank demo_plays d) = None"
  by (simp add: demo_plays_def UpdateRankScore_def only_err_def mem_zset_def)

theorem rank_top_n_witness:
  "\<forall>c :: (mem_sets, int, unit) redis_client.
     \<exists>zs. GetTopN (c\<lparr>cl_zset := mem_zset\<rparr>) ''power'' 2
       (snd (update_scores (c\<lparr>cl_zset := mem_zset\<rparr>) ''power'' demo_plays (\<lambda>_. []))) =
         (Inr zs, snd (update_scores (c\<lparr>cl_zset := mem_zset\<rparr>) ''power'' demo_plays (\<lambda>_. []))) \<and>
       length zs = 2 \<and> sorted_wrt (\<ge>) (zpairs zs)"
proof
  fix c :: "(mem_sets, int, unit) redis_client"
  let ?c = "c\<lparr>cl_zset := mem_zset\<rparr>" and ?b = "new_scores demo_plays (map_of [])"
  define d1 where "d1 = snd (update_scores ?c ''power'' demo_plays (\<lambda>_. []))"
  have u: "update_scores ?c ''power'' demo_plays (\<lambda>_. []) = (None, d1)"
    using demo_plays_scored [of c "''power''"] by (simp add: d1_def prod_eq_iff)
  obtain zs where zs: "GetTopN ?c ''power'' 2 d1 = (Inr zs, d1)"
    by (simp add: GetTopN_def mem_zset_def)
  have "dom ?b = dec_int ` {7, 9, 12}"
    by (auto simp: new_scores_def demo_plays_def)
  moreover have "inj dec_int" by (auto intro: injI dest: dec_int_inj)
  ultimately have "card (dom ?b) = 3" by (simp add: inj_eq)
  then show "\<exists>zs. GetTopN ?c ''power'' 2 (snd (update_scores ?c ''power'' demo_plays (\<lambda>_. []))) =
         (Inr zs, snd (update_scores ?c ''power'' demo_plays (\<lambda>_. []))) \<and>
       length zs = 2 \<and> sorted_wrt (\<ge>) (zpairs zs)"
    using rank_top_n [OF _ u zs _ refl, of "\<lambda>d k. map_of (d k)"] mem_zset.zset_laws_axioms zs
    by (simp add: d1_def)
qed

end
