(* ===== verification/Logging.thy ===== *)
theory Logging
  imports Session GoStrings
begin

text \<open>
  The log output: the structured logger the servers are built with (\<open>third_party/zap\<close>, which
  stands in for the library of that name), the plain loggers of \<open>common/selflog\<close>, the logger
  each server makes (\<open>common/logging\<close>) and the fields the gate logs of a session or connection
  (\<open>gate/log_fields.go\<close>). What is written is a value: the line, or \<open>None\<close> when nothing is printed.
  How a duration or another value prints itself is a parameter.
\<close>

subsection \<open>The structured logger\<close>

datatype field_value =
    IntVal int | Int64Val int64 | Uint64Val uint64 | StringVal string | ErrVal "go_error option"
  | DurationVal duration | AnyVal string

record Field =
  f_Key :: string
  f_Value :: field_value

record Logger =
  lg_name :: string
  lg_enabled :: bool

definition zap_Build :: Logger where
  "zap_Build = \<lparr>lg_name = '''', lg_enabled = True\<rparr>"

definition NewNop :: Logger where
  "NewNop = \<lparr>lg_name = '''', lg_enabled = False\<rparr>"

text \<open>A nil logger is \<open>None\<close>.\<close>

definition Named :: "string \<Rightarrow> Logger option \<Rightarrow> Logger" where
  "Named name l =
     (case l of
        None \<Rightarrow> \<lparr>lg_name = name, lg_enabled = False\<rparr>
      | Some l \<Rightarrow> \<lparr>lg_name = name, lg_enabled = lg_enabled l\<rparr>)"

text \<open>\<open>fmt.Sprint\<close> of a field's value.\<close>

fun value_text :: "(duration \<Rightarrow> string) \<Rightarrow> field_value \<Rightarrow> string" where
  "value_text dur (IntVal n) = dec_int n"
| "value_text dur (Int64Val n) = dec_int (sint n)"
| "value_text dur (Uint64Val n) = dec_nat (unat n)"
| "value_text dur (StringVal s) = s"
| "value_text dur (ErrVal None) = ''<nil>''"
| "value_text dur (ErrVal (Some err)) = error_text err"
| "value_text dur (DurationVal d) = dur d"
| "value_text dur (AnyVal s) = s"

definition log_line ::
    "(duration \<Rightarrow> string) \<Rightarrow> string \<Rightarrow> string \<Rightarrow> Field list \<Rightarrow> Logger option \<Rightarrow> string option" where
  "log_line dur level msg fs l =
     (case l of
        None \<Rightarrow> None
      | Some l \<Rightarrow>
          (if \<not> lg_enabled l then None
           else Some (level @ (if lg_name l \<noteq> '''' then ''['' @ lg_name l @ '']'' else '''') @ '' '' @ msg @
                  concat (map (\<lambda>f. '' '' @ f_Key f @ ''='' @ value_text dur (f_Value f)) fs))))"

definition log_Debug where "log_Debug dur msg fs l = log_line dur ''DEBUG'' msg fs l"
definition log_Info where "log_Info dur msg fs l = log_line dur ''INFO'' msg fs l"
definition log_Warn where "log_Warn dur msg fs l = log_line dur ''WARN'' msg fs l"
definition log_Error where "log_Error dur msg fs l = log_line dur ''ERROR'' msg fs l"

definition zap_Int :: "string \<Rightarrow> int \<Rightarrow> Field" where "zap_Int key v = \<lparr>f_Key = key, f_Value = IntVal v\<rparr>"
definition zap_Int64 :: "string \<Rightarrow> int64 \<Rightarrow> Field" where "zap_Int64 key v = \<lparr>f_Key = key, f_Value = Int64Val v\<rparr>"
definition zap_Uint64 :: "string \<Rightarrow> uint64 \<Rightarrow> Field" where "zap_Uint64 key v = \<lparr>f_Key = key, f_Value = Uint64Val v\<rparr>"
definition zap_String :: "string \<Rightarrow> string \<Rightarrow> Field" where "zap_String key v = \<lparr>f_Key = key, f_Value = StringVal v\<rparr>"
definition zap_Err :: "string \<Rightarrow> go_error option \<Rightarrow> Field" where "zap_Err key v = \<lparr>f_Key = key, f_Value = ErrVal v\<rparr>"
definition zap_Error :: "go_error option \<Rightarrow> Field" where "zap_Error v = \<lparr>f_Key = ''Error'', f_Value = ErrVal v\<rparr>"
definition zap_Duration :: "string \<Rightarrow> duration \<Rightarrow> Field" where
  "zap_Duration key v = \<lparr>f_Key = key, f_Value = DurationVal v\<rparr>"
definition zap_Any :: "string \<Rightarrow> string \<Rightarrow> Field" where "zap_Any key v = \<lparr>f_Key = key, f_Value = AnyVal v\<rparr>"
definition zap_ByteString :: "string \<Rightarrow> string \<Rightarrow> Field" where
  "zap_ByteString key v = \<lparr>f_Key = key, f_Value = StringVal v\<rparr>"

text \<open>\<open>logging.NewLogger\<close>: building never fails.\<close>

definition NewLogger :: "string \<Rightarrow> Logger" where
  "NewLogger name = (if name \<noteq> '''' then Named name (Some zap_Build) else zap_Build)"

subsection \<open>The plain loggers\<close>

text \<open>
  The standard logger hands its text to \<open>Printf\<close> as a format; \<open>printf_text\<close> is that library
  function.
\<close>

datatype SelfLogger = NopLogger | StdLogger string

definition std_printf ::
    "(string \<Rightarrow> string list \<Rightarrow> string) \<Rightarrow> string \<Rightarrow> string \<Rightarrow> string list \<Rightarrow> string \<Rightarrow> string" where
  "std_printf printf_text level msg args prefix =
     printf_text ((''['' @ level @ '']'') @ (if prefix \<noteq> '''' then ''['' @ prefix @ '']'' else '''') @ '' '' @ msg) args"

fun self_log ::
    "(string \<Rightarrow> string list \<Rightarrow> string) \<Rightarrow> string \<Rightarrow> string \<Rightarrow> string list \<Rightarrow> SelfLogger \<Rightarrow> string option" where
  "self_log printf_text level msg args NopLogger = None"
| "self_log printf_text level msg args (StdLogger prefix) = Some (std_printf printf_text level msg args prefix)"

subsection \<open>What the gate logs\<close>

definition sessionFields :: "session option \<Rightarrow> Field list" where
  "sessionFields s =
     (case s of
        None \<Rightarrow> [zap_Int64 ''session'' 0, zap_Int64 ''player'' 0]
      | Some s \<Rightarrow> [zap_Int64 ''session'' (s_ID s), zap_Int64 ''player'' (s_PlayerID s)])"

definition connFields :: "conn option \<Rightarrow> Field list" where
  "connFields c =
     (case c of
        None \<Rightarrow> [zap_Int64 ''conn_id'' 0, zap_String ''trace_id'' '''']
      | Some c \<Rightarrow> [zap_Int64 ''conn_id'' (c_id c), zap_String ''trace_id'' (c_traceID c)])"

subsection \<open>What is printed\<close>

text \<open>A nil logger, a disabled one and every logger named after them print nothing.\<close>

lemma silent_iff: "log_line dur level msg fs l = None \<longleftrightarrow> (case l of None \<Rightarrow> True | Some l \<Rightarrow> \<not> lg_enabled l)"
  by (simp add: log_line_def split: option.split)

lemma named_silent: "log_line dur level msg fs (Some (Named name l)) = None \<longleftrightarrow> log_line dur level msg fs l = None"
  by (simp add: silent_iff Named_def split: option.split)

lemma servers_log: "log_line dur level msg fs (Some (NewLogger name)) \<noteq> None"
  by (simp add: silent_iff NewLogger_def Named_def zap_Build_def)

text \<open>Values are not quoted, so different fields can give the same line.\<close>

lemma log_line_ambiguous:
  "log_line dur level msg [zap_String k (v @ '' '' @ k' @ ''='' @ v')] l =
   log_line dur level msg [zap_String k v, zap_String k' v'] l"
  by (simp add: log_line_def zap_String_def split: option.split)

end
