(* ===== verification/GateContext.thy ===== *)
theory GateContext
  imports Gate Service
begin

text \<open>
  Two leftovers of the gate: the context it would hand to a service module in its own process
  (\<open>gate/router.go\<close>) and its own copy of the error codes (\<open>gate/errors.go\<close>).
\<close>

text \<open>The context's data, and its callbacks as operations of the gate.\<close>

record gate_context =
  gx_ctx :: Context
  gx_Reply :: "int \<Rightarrow> bytes \<Rightarrow> gate \<Rightarrow> gate \<times> go_error option"
  gx_Push :: "int \<Rightarrow> bytes \<Rightarrow> gate \<Rightarrow> gate \<times> go_error option"
  gx_SetPlayerID :: "int64 \<Rightarrow> gate \<Rightarrow> gate"

definition makeServiceContext :: "int64 \<Rightarrow> int \<Rightarrow> bytes \<Rightarrow> gate_context" where
  "makeServiceContext sessionID msgID payload =
     \<lparr>gx_ctx = \<lparr>cxSessionID = sessionID, cxPlayerID = 0, cxMsgID = msgID, cxPayload = payload, cxTraceID = ''''\<rparr>,
      gx_Reply = Reply sessionID, gx_Push = Push sessionID, gx_SetPlayerID = attachPlayer sessionID\<rparr>"

lemma context_reply_is_push: "gx_Reply (makeServiceContext s m p) = gx_Push (makeServiceContext s m p)"
  by (simp add: makeServiceContext_def Push_def fun_eq_iff)

datatype gate_ErrorCode =
    GateOK | GateErrUnknown | GateErrInvalidParam | GateErrUnauthorized | GateErrInvalidToken
  | GateErrSessionExpired | GateErrLoginFailed | GateErrPlayerNotReady

fun gate_code_of :: "gate_ErrorCode \<Rightarrow> int32" where
  "gate_code_of GateOK = 0"
| "gate_code_of GateErrUnknown = 1000"
| "gate_code_of GateErrInvalidParam = 1001"
| "gate_code_of GateErrUnauthorized = 1002"
| "gate_code_of GateErrInvalidToken = 1003"
| "gate_code_of GateErrSessionExpired = 1004"
| "gate_code_of GateErrLoginFailed = 1100"
| "gate_code_of GateErrPlayerNotReady = 2000"

text \<open>The code the protocol gives the error of the same name.\<close>

fun protocol_name :: "gate_ErrorCode \<Rightarrow> ErrorCode" where
  "protocol_name GateOK = OK"
| "protocol_name GateErrUnknown = ErrUnknown"
| "protocol_name GateErrInvalidParam = ErrInvalidParam"
| "protocol_name GateErrUnauthorized = ErrUnauthorized"
| "protocol_name GateErrInvalidToken = ErrInvalidToken"
| "protocol_name GateErrSessionExpired = ErrSessionExpired"
| "protocol_name GateErrLoginFailed = ErrLoginFailed"
| "protocol_name GateErrPlayerNotReady = ErrPlayerNotReady"

lemma gate_codes_agree: "code_of (protocol_name c) = gate_code_of c" by (cases c) simp_all

end
