(* ===== verification/KeepAlive.thy ===== *)
theory KeepAlive
  imports Prelude
begin

text \<open>
  What \<open>NewWSConn\<close> of \<open>gate/conn.go\<close> sets on a WebSocket before the gate uses it: the limit on a
  message, the read deadline that a pong moves, and the goroutine that sends a ping every thirty
  seconds until one fails. Whether a read fails at its deadline is the library's part; a
  connection that ends there ends as any other does in \<open>GateConn\<close>.
\<close>

record ws_timer =
  wt_limit :: int
  wt_deadline :: time
  wt_pinging :: bool
  wt_closed :: bool

definition ws_setup :: "time \<Rightarrow> ws_timer" where
  "ws_setup t =
     \<lparr>wt_limit = 64 * 1024, wt_deadline = t + 60 * second, wt_pinging = True, wt_closed = False\<rparr>"

definition ws_pong :: "time \<Rightarrow> ws_timer \<Rightarrow> ws_timer" where
  "ws_pong t w = w\<lparr>wt_deadline := t + 60 * second\<rparr>"

text \<open>A tick of the goroutine; \<open>failed\<close> is whether \<open>WriteControl\<close> returned an error.\<close>

definition ws_ping :: "bool \<Rightarrow> ws_timer \<Rightarrow> ws_timer" where
  "ws_ping failed w =
     (if wt_pinging w \<and> failed then w\<lparr>wt_closed := True, wt_pinging := False\<rparr> else w)"

datatype ws_event = WsPong | WsPing bool

fun ws_step :: "time \<Rightarrow> ws_event \<Rightarrow> ws_timer \<Rightarrow> ws_timer" where
  "ws_step t WsPong w = ws_pong t w"
| "ws_step t (WsPing failed) w = ws_ping failed w"

fun ws_run :: "(time \<times> ws_event) list \<Rightarrow> ws_timer \<Rightarrow> ws_timer" where
  "ws_run [] w = w"
| "ws_run ((t, ev) # tr) w = ws_run tr (ws_step t ev w)"

lemma ws_run_append: "ws_run (tr @ tr') w = ws_run tr' (ws_run tr w)"
  by (induction tr w rule: ws_run.induct) simp_all

text \<open>The last instant at which the client showed itself, as the deadline counts it: only pongs do.\<close>

fun last_pong :: "time \<Rightarrow> (time \<times> ws_event) list \<Rightarrow> time" where
  "last_pong t0 [] = t0"
| "last_pong t0 ((t, WsPong) # tr) = last_pong t tr"
| "last_pong t0 ((t, WsPing failed) # tr) = last_pong t0 tr"

lemma deadline_follows_last_pong:
  "wt_deadline w = t0 + 60 * second \<Longrightarrow> wt_deadline (ws_run tr w) = last_pong t0 tr + 60 * second"
proof (induction t0 tr arbitrary: w rule: last_pong.induct)
  case (2 t0 t tr)
  then show ?case by (simp add: ws_pong_def)
qed (simp_all add: ws_ping_def)

lemma pinging_until_failure:
  "wt_pinging w \<Longrightarrow> wt_pinging (ws_run tr w) \<longleftrightarrow> (\<forall>t. (t, WsPing True) \<notin> set tr)"
proof (induction tr arbitrary: w)
  case (Cons e tr)
  obtain t ev where e: "e = (t, ev)" by force
  have stays: "\<not> wt_pinging v \<Longrightarrow> \<not> wt_pinging (ws_run tr v)" for tr v
  proof (induction tr v rule: ws_run.induct)
    case (2 s ev' tr v)
    then show ?case by (cases ev') (simp_all add: ws_pong_def ws_ping_def)
  qed simp
  show ?case
  proof (cases ev)
    case WsPong
    with e Cons show ?thesis by (simp add: ws_pong_def)
  next
    case (WsPing failed)
    with e Cons stays show ?thesis by (cases failed) (auto simp: ws_ping_def)
  qed
qed simp

text \<open>
  A client that answers every ping within thirty seconds is never late: when its next pong comes,
  the deadline that its earlier pongs have set has not passed.
\<close>

definition pongs :: "time list \<Rightarrow> (time \<times> ws_event) list" where
  "pongs ts = map (\<lambda>t. (t, WsPong)) ts"

lemma last_pong_pongs: "last_pong t0 (pongs ts) = (if ts = [] then t0 else last ts)"
  by (induction ts arbitrary: t0) (simp_all add: pongs_def)

lemma prompt_client_in_time:
  assumes "\<And>i. i < length ts \<Longrightarrow> t0 + 30 * second * (int i + 1) \<le> ts ! i \<and>
      ts ! i < t0 + 30 * second * (int i + 2)"
    and "n < length ts"
  shows "ts ! n < wt_deadline (ws_run (pongs (take n ts)) (ws_setup t0))"
proof -
  have d: "wt_deadline (ws_run (pongs (take n ts)) (ws_setup t0)) =
      (if n = 0 then t0 else ts ! (n - 1)) + 60 * second"
    using assms(2) deadline_follows_last_pong [of "ws_setup t0" t0 "pongs (take n ts)"]
    by (auto simp: ws_setup_def last_pong_pongs last_conv_nth nth_take)
  show ?thesis
  proof (cases n)
    case 0
    with assms(1) [of 0] assms(2) d show ?thesis by (simp add: second_def)
  next
    case (Suc m)
    with assms(1) [of m] assms(1) [of n] assms(2) d show ?thesis by (simp add: second_def)
  qed
qed

text \<open>A silent client is late sixty seconds after the start, however many pings were written.\<close>

lemma silent_client_late:
  assumes "\<And>t. (t, WsPong) \<notin> set tr"
  shows "wt_deadline (ws_run tr (ws_setup t0)) = t0 + 60 * second"
proof -
  have "last_pong t0 tr = t0"
    using assms
  proof (induction t0 tr rule: last_pong.induct)
    case (2 t0 t tr)
    from "2.prems" [of t] show ?case by simp
  qed simp_all
  with deadline_follows_last_pong [of "ws_setup t0" t0 tr] show ?thesis by (simp add: ws_setup_def)
qed

end
