(* ===== verification/WsMessages.thy ===== *)
theory WsMessages
  imports Conns KeepAlive
begin

text \<open>
  Envelopes sent to a gate over a WebSocket, under what the WebSocket library documents of
  reading and writing messages and of the read limit that \<open>NewWSConn\<close> of \<open>gate/conn.go\<close> sets.
\<close>

subsection \<open>The library\<close>

text \<open>
  A link that stays up. Messages arrive whole and in order; a message above the limit is an
  error, and an error of the reader is permanent.
\<close>

locale ws_link =
  fixes WriteMessage :: "int \<times> bytes \<Rightarrow> 'w \<Rightarrow> 'w \<times> go_error option"
    and ReadMessage :: "'w \<Rightarrow> (go_error + int \<times> bytes) \<times> 'w"
    and limit :: nat
    and pending :: "'w \<Rightarrow> (int \<times> bytes) list"
    and failed :: "'w \<Rightarrow> go_error option"
  assumes write_ok: "failed w = None \<Longrightarrow>
      \<exists>w'. WriteMessage m w = (w', None) \<and> pending w' = pending w @ [m] \<and> failed w' = None"
    and read_ok: "failed w = None \<Longrightarrow> pending w = (ty, d) # ms \<Longrightarrow> length d \<le> limit \<Longrightarrow>
      \<exists>w'. ReadMessage w = (Inr (ty, d), w') \<and> pending w' = ms \<and> failed w' = None"
    and read_limit: "failed w = None \<Longrightarrow> pending w = (ty, d) # ms \<Longrightarrow> limit < length d \<Longrightarrow>
      \<exists>w'. ReadMessage w = (Inl ErrReadLimit, w') \<and> failed w' = Some ErrReadLimit"
    and read_failed: "failed w = Some err \<Longrightarrow> \<exists>w'. ReadMessage w = (Inl err, w') \<and> failed w' = Some err"

text \<open>Such a link with its messages in memory.\<close>

type_synonym wire = "(int \<times> bytes) list \<times> go_error option"

definition wire_write :: "int \<times> bytes \<Rightarrow> wire \<Rightarrow> wire \<times> go_error option" where
  "wire_write m w = ((fst w @ [m], snd w), None)"

definition wire_read :: "nat \<Rightarrow> wire \<Rightarrow> (go_error + int \<times> bytes) \<times> wire" where
  "wire_read limit w =
     (case snd w of
        Some err \<Rightarrow> (Inl err, w)
      | None \<Rightarrow>
          (case fst w of
             [] \<Rightarrow> (Inl EOF, ([], Some EOF))
           | m # ms \<Rightarrow>
               (if limit < length (snd m) then (Inl ErrReadLimit, (ms, Some ErrReadLimit))
                else (Inr m, (ms, None)))))"

interpretation wire: ws_link wire_write "wire_read limit" limit fst snd for limit
proof
  show "\<exists>w'. wire_write m w = (w', None) \<and> fst w' = fst w @ [m] \<and> snd w' = None" if "snd w = None" for m w
    using that by (simp add: wire_write_def)
  show "\<exists>w'. wire_read limit w = (Inr (ty, d), w') \<and> fst w' = ms \<and> snd w' = None"
    if "snd w = None" "fst w = (ty, d) # ms" "length d \<le> limit" for w ty d ms
    using that by (cases w) (auto simp: wire_read_def)
  show "\<exists>w'. wire_read limit w = (Inl ErrReadLimit, w') \<and> snd w' = Some ErrReadLimit"
    if "snd w = None" "fst w = (ty, d) # ms" "limit < length d" for w ty d ms
    using that by (cases w) (auto simp: wire_read_def)
  show "\<exists>w'. wire_read limit w = (Inl err, w') \<and> snd w' = Some err" if "snd w = Some err" for w err
    using that by (cases w) (auto simp: wire_read_def)
qed

subsection \<open>Writing and reading many envelopes\<close>

text \<open>Each envelope as JSON or as protobuf.\<close>

fun ws_write_all ::
    "pb \<Rightarrow> (int \<times> bytes \<Rightarrow> 'w \<Rightarrow> 'w \<times> go_error option) \<Rightarrow> (bool \<times> Envelope) list \<Rightarrow> 'w \<Rightarrow> 'w" where
  "ws_write_all pb W [] w = w"
| "ws_write_all pb W ((useJSON, env) # es) w =
     ws_write_all pb W es (fst (ws_WriteEnvelope pb useJSON W env w))"

fun ws_read_all :: "pb \<Rightarrow> ('w \<Rightarrow> (go_error + int \<times> bytes) \<times> 'w) \<Rightarrow> nat \<Rightarrow> 'w \<Rightarrow> (go_error + Envelope) list" where
  "ws_read_all pb R 0 w = []"
| "ws_read_all pb R (Suc n) w = (let (m, w') = R w in ws_ReadEnvelope pb m # ws_read_all pb R n w')"

text \<open>The envelopes that are sent, and those of them before the first that is too large.\<close>

definition ws_sent :: "pb \<Rightarrow> (bool \<times> Envelope) list \<Rightarrow> (bool \<times> Envelope) list" where
  "ws_sent pb es = filter (\<lambda>(j, env). ws_payload pb j env \<noteq> None) es"

definition ws_small :: "pb \<Rightarrow> nat \<Rightarrow> (bool \<times> Envelope) list \<Rightarrow> (bool \<times> Envelope) list" where
  "ws_small pb limit es = takeWhile (\<lambda>(j, env). length (the (ws_payload pb j env)) \<le> limit) (ws_sent pb es)"

definition ws_messages :: "pb \<Rightarrow> (bool \<times> Envelope) list \<Rightarrow> (int \<times> bytes) list" where
  "ws_messages pb es = map (\<lambda>(j, env). (ws_type j, the (ws_payload pb j env))) (ws_sent pb es)"

lemma ws_sent_simps [simp]:
  "ws_sent pb [] = []"
  "ws_sent pb ((j, env) # es) = (if ws_payload pb j env = None then ws_sent pb es else (j, env) # ws_sent pb es)"
  by (auto simp: ws_sent_def)

context ws_link
begin

lemma write_all:
  "failed w = None \<Longrightarrow>
     pending (ws_write_all pb WriteMessage es w) = pending w @ ws_messages pb es \<and>
     failed (ws_write_all pb WriteMessage es w) = None"
proof (induction es arbitrary: w)
  case (Cons je es)
  obtain j env where je: "je = (j, env)" by force
  show ?case
  proof (cases "ws_payload pb j env")
    case None
    with Cons je show ?thesis by (simp add: ws_WriteEnvelope_payload ws_messages_def)
  next
    case (Some d)
    from write_ok [OF Cons.prems] obtain w' where
      w': "WriteMessage (ws_type j, d) w = (w', None)" "pending w' = pending w @ [(ws_type j, d)]" "failed w' = None"
      by blast
    with Cons.IH [of w'] Some je show ?thesis by (simp add: ws_WriteEnvelope_payload ws_messages_def)
  qed
qed (simp add: ws_messages_def)

lemma read_after_failure:
  "failed w = Some err \<Longrightarrow> ws_read_all pb ReadMessage n w = replicate n (Inl err)"
proof (induction n arbitrary: w)
  case (Suc n)
  from read_failed [OF Suc.prems] obtain w' where "ReadMessage w = (Inl err, w')" "failed w' = Some err" by blast
  with Suc.IH [of w'] show ?case by simp
qed simp

lemma read_all:
  assumes "\<And>j env d. (j, env) \<in> set es \<Longrightarrow> ws_payload pb j env = Some d \<Longrightarrow> ws_parse pb j d = Some env"
    and "failed w = None" and "pending w = ws_messages pb es"
  shows "ws_read_all pb ReadMessage (length (ws_small pb limit es)) w = map (Inr \<circ> snd) (ws_small pb limit es) \<and>
    (ws_small pb limit es \<noteq> ws_sent pb es \<longrightarrow>
       ws_read_all pb ReadMessage (length (ws_small pb limit es) + Suc n) w =
         map (Inr \<circ> snd) (ws_small pb limit es) @ replicate (Suc n) (Inl ErrReadLimit))"
  using assms
proof (induction es arbitrary: w)
  case (Cons je es)
  obtain j env where je: "je = (j, env)" by force
  show ?case
  proof (cases "ws_payload pb j env")
    case None
    with Cons.IH [of w] Cons.prems je show ?thesis by (simp add: ws_small_def ws_messages_def)
  next
    case (Some d)
    have p: "pending w = (ws_type j, d) # ws_messages pb es"
      using Cons.prems(3) Some je by (simp add: ws_messages_def)
    have parse: "ws_parse pb j d = Some env" using Cons.prems(1) Some je by simp
    show ?thesis
    proof (cases "length d \<le> limit")
      case True
      from read_ok [OF Cons.prems(2) p True] obtain w' where
        w': "ReadMessage w = (Inr (ws_type j, d), w')" "pending w' = ws_messages pb es" "failed w' = None" by blast
      have "ws_small pb limit (je # es) = je # ws_small pb limit es"
        "ws_sent pb (je # es) = je # ws_sent pb es"
        using True Some je by (simp_all add: ws_small_def)
      with Cons.IH [OF _ w'(3,2)] Cons.prems(1) w'(1) je parse show ?thesis
        by (simp add: ws_ReadEnvelope_parse)
    next
      case False
      from read_limit [OF Cons.prems(2) p] False obtain w' where
        w': "ReadMessage w = (Inl ErrReadLimit, w')" "failed w' = Some ErrReadLimit" by force
      have "ws_small pb limit (je # es) = []" using False Some je by (simp add: ws_small_def)
      with read_after_failure [OF w'(2)] w'(1) show ?thesis by simp
    qed
  qed
qed (simp add: ws_small_def)

end

text \<open>
  C15: A gate's WebSocket within its read limit. On a link that stays up, of any envelopes written
  to the gate, each as JSON or as protobuf, those the codec cannot encode are not sent; the gate
  reads back those sent, whole and in order, up to the first whose message is above 64 KiB; and
  when there is one, the read that meets it and every later one fails, so neither it nor anything
  after it is read.
\<close>

theorem ws_roundtrip:
  assumes link: "ws_link W R (nat (wt_limit (ws_setup t))) pending failed"
    and start: "pending w = []" "failed w = None"
    and codec: "\<And>j env d. (j, env) \<in> set es \<Longrightarrow> ws_payload pb j env = Some d \<Longrightarrow> ws_parse pb j d = Some env"
    and small: "small = takeWhile (\<lambda>(j, env). length (the (ws_payload pb j env)) \<le> 64 * 1024)
        (filter (\<lambda>(j, env). ws_payload pb j env \<noteq> None) es)"
  shows "ws_read_all pb R (length small) (ws_write_all pb W es w) = map (Inr \<circ> snd) small \<and>
    (small \<noteq> filter (\<lambda>(j, env). ws_payload pb j env \<noteq> None) es \<longrightarrow>
       ws_read_all pb R (length small + Suc n) (ws_write_all pb W es w) =
         map (Inr \<circ> snd) small @ replicate (Suc n) (Inl ErrReadLimit))"
proof -
  note w = ws_link.write_all [OF link start(2), of pb es]
  have l: "nat (wt_limit (ws_setup t)) = 64 * 1024" by (simp add: ws_setup_def)
  have s: "small = ws_small pb (64 * 1024) es" by (simp add: small ws_small_def ws_sent_def)
  from ws_link.read_all [OF link codec, of es "ws_write_all pb W es w" n] w start(1)
  show ?thesis unfolding l s by (simp add: ws_sent_def)
qed

definition zeros :: "nat \<Rightarrow> bytes" where
  "zeros n = replicate n 0"

definition large :: Envelope where
  "large = \<lparr>eMsgId = 1, eSessionId = 0, ePlayerId = 0, ePayload = zeros 65537\<rparr>"

theorem ws_roundtrip_witness:
  "ws_read_all payload_pb (wire_read 65536) 3
     (ws_write_all payload_pb wire_write [(True, ping 1), (False, ping 2), (False, large), (True, ping 3)] ([], None)) =
   [Inr (ping 1), Inr (ping 2), Inl ErrReadLimit]"
proof -
  let ?es = "[(True, ping 1), (False, ping 2), (False, large), (True, ping 3)]"
  have "nat (wt_limit (ws_setup 0)) = 65536" by (simp add: ws_setup_def)
  then have link: "ws_link wire_write (wire_read 65536) (nat (wt_limit (ws_setup 0))) fst snd"
    using wire.ws_link_axioms [of 65536] by simp
  have l: "length (ePayload large) = 65537" by (simp add: large_def zeros_def)
  have codec: "ws_parse payload_pb j d = Some env" if "(j, env) \<in> set ?es" "ws_payload payload_pb j env = Some d" for j env d
    using that by (auto simp: ws_payload_def ws_parse_def payload_pb_def large_def)
  have some: "ws_payload payload_pb j env \<noteq> None" for j env by (simp add: ws_payload_def payload_pb_def)
  have "takeWhile (\<lambda>(j, env). length (the (ws_payload payload_pb j env)) \<le> 64 * 1024)
      (filter (\<lambda>(j, env). ws_payload payload_pb j env \<noteq> None) ?es) = [(True, ping 1), (False, ping 2)]"
    by (simp add: ws_payload_def payload_pb_def l)
  note rt = ws_roundtrip [OF link _ _ codec this [symmetric], where w = "([], None)" and n = 0]
  have ne: "[(True, ping 1), (False, ping 2)] \<noteq> filter (\<lambda>(j, env). ws_payload payload_pb j env \<noteq> None) ?es"
    using some by simp
  have three: "length [(True, ping 1), (False, ping 2)] + Suc 0 = 3" by simp
  show ?thesis
    using mp [OF conjunct2 [OF rt] ne]
    by (simp only: three fst_conv snd_conv list.map comp_def append.simps replicate_Suc replicate_0)
qed

end
