(* ===== verification/Spec2Isabelle.thy ===== *)
theory Spec2Isabelle
  imports GateProps GateEntry GateTimers GateTick GateKick GateRouting GameRequests GameSessions GameRaces GamePersist
    ServiceProps ServiceOrder Heartbeats Shutdown Sha256_Vector RoundTrip Notices ServiceTypes Retry Ranking Startup Logging GateContext
    WsMessages
begin

text \<open>
  A model of the servers under \<open>src/Server\<close> and proofs of what they do. Three processes talk over
  TCP. Clients connect to a gate (\<open>internal/gate\<close>), which keeps their sessions; the gate forwards
  envelopes to the service (\<open>internal/service\<close>) over a pool of connections; the service handles
  logins itself and passes the messages of the game on to the game server (\<open>internal/game\<close>), which
  runs one goroutine per player. Service and game server keep roles and profiles in Redis
  (\<open>internal/player_db\<close>, \<open>internal/db/redis_tools\<close>). Replies travel back the same way, addressed by
  session id. A development theory models each part, one definition per Go function; the
  properties about one part stand in its own theories, those that span all three in \<open>EndToEnd\<close> (a
  login), \<open>RoundTrip\<close> (a game request with its response) and \<open>Notices\<close> (a lost connection, a
  resume, a second login).

  How the code is modelled. A struct is a record with the code's fields; integers that the code
  keeps at a width are words, those it only compares are integers; a map is a partial function; a
  pointer to a shared object (session, connection, player, router) is a number into a store that
  is part of the state, so that aliasing is visible. An operation takes the state and returns the
  new one, with its Go error as an option or a sum. What a goroutine does between two points
  where it can wait is one step: a server is the transition relation over the events that its
  goroutines take part in, and a property of every history is an induction over them. Mutexes are
  the atomicity of the steps; where the code leaves a gap that others can use, the gap is in the
  model (a login's load and save of a role, the critical sections of the player manager, a
  request waiting for its player) except where noted
  below. Time is an argument. What the environment decides is an argument too: how much of its
  queue a writer takes out while a sender sleeps, in which order a map is visited, random bytes,
  every error of a socket or of Redis. Everything is executable, and the demonstration states of
  \<open>Scenario\<close>, \<open>GameScenario\<close> and the witnesses evaluate it.

  Common parts. \<open>Prelude\<close>: types, durations, collections of simplification rules. \<open>GoStrings\<close>:
  decimal and hexadecimal text. \<open>Sha256\<close>: the hash and the message authentication code that sign
  resume tokens, spelled out, with the standard test vector evaluated in \<open>Sha256_Vector\<close>.
  \<open>Protocol\<close>: \<open>protocol/msgid.go\<close>, \<open>protocol/errors.go\<close>, the messages and the codec parameter.
  \<open>Router\<close>: \<open>internal/router\<close>. \<open>Registry\<close>: \<open>internal/handler/registry.go\<close>. \<open>Chan\<close>: Go channels with
  the locale of a bounded queue. \<open>Link\<close> and \<open>Retry\<close>: the contract and the retry loop that the
  gate's client and the service's router share, interpreted on both. \<open>Transport\<close>, \<open>Conns\<close>:
  \<open>internal/transport\<close>, framing, buffered reading and writing over a socket that fails at any
  point, WebSocket messages; the locale \<open>envelope_conn\<close> is the contract of both kinds of
  connection. \<open>WsMessages\<close>: what the WebSocket library documents, as the locale \<open>ws_link\<close>, and
  envelopes under the read limit that a gate sets. \<open>Logging\<close>: \<open>third_party/zap\<close>, \<open>common\<close>, \<open>gate/log_fields.go\<close>.

  The gate. \<open>Session\<close>: \<open>session.go\<close>, \<open>session_manager.go\<close>. \<open>Auth\<close>: \<open>auth.go\<close>. \<open>GateConn\<close>: \<open>conn.go\<close>,
  whose settings of a WebSocket (limit, deadline, pings) are in \<open>KeepAlive\<close>.
  \<open>Remote\<close>: \<open>remote.go\<close>. \<open>Gate\<close>: \<open>gate.go\<close>, \<open>sender.go\<close>, \<open>notify.go\<close>, \<open>login_limit.go\<close> and creation of
  sessions. \<open>GateHandlers\<close>: \<open>handler.go\<close>, \<open>resume.go\<close>, \<open>heartbeat.go\<close>, \<open>auth_timeout.go\<close>, \<open>metrics.go\<close>,
  \<open>service_handler.go\<close>. \<open>GateContext\<close>: \<open>router.go\<close>, \<open>errors.go\<close>. \<open>Config\<close>: configuration records and
  the gate that is built from one. \<open>GateStep\<close> is the state machine. \<open>GateInv\<close>, \<open>GateKeeps\<close>,
  \<open>GateOps\<close>, \<open>GateOps2\<close>, \<open>GateOps3\<close>, \<open>GateSweep\<close> and \<open>GateSettings\<close> prove the invariant and what each
  operation leaves alone; \<open>GateLife\<close> the life cycle of a session. The properties are in
  \<open>GateProps\<close> (consistency, life cycle, login, tokens), \<open>GateEntry\<close> (every outcome of a
  resume, and what nothing else reaches before a login), \<open>GateTimers\<close> (garbage collection,
  heartbeats, login timeout and rate limit), \<open>GateTick\<close> (a whole tick of the collecting
  loop), \<open>GateKick\<close>, \<open>GateRouting\<close> (what is forwarded) and
  \<open>GateResume\<close> (a resume while the old connection is attached).

  The service. \<open>PlayerDb\<close>: \<open>internal/player_db\<close> on the three commands it uses; the locales
  \<open>redis_laws\<close> (what Redis documents of them) and \<open>player_store\<close> (the contract of the Go interface
  \<open>Store\<close>), the second derived from the first. \<open>LoginService\<close>: \<open>modules/login/service.go\<close> with the
  locale of the role table. \<open>GameRouter\<close>: \<open>game_router.go\<close>. \<open>Service\<close>: \<open>netserver.go\<close>, \<open>dispatcher.go\<close>,
  \<open>registry.go\<close>, \<open>server.go\<close> and the modules. \<open>ServiceFacts\<close> is the state machine; properties in
  \<open>ServiceProps\<close>, \<open>ServiceTypes\<close>, \<open>ServiceOrder\<close> (the stream of envelopes to the game server, read
  off the history) and \<open>Heartbeats\<close> (the pings of the gate). \<open>RedisDao\<close>, \<open>RedisClient\<close>: the whole
  access object and the process-wide client; \<open>Ranking\<close>: what its sorted-set methods compute,
  under the locale \<open>zset_laws\<close>.

  The game server. \<open>GameServer\<close>: \<open>internal/game/server.go\<close> and \<open>player_manager.go\<close>. \<open>Player\<close>:
  \<open>player.go\<close> and its modules. \<open>PlayerFacts\<close>: life cycle and queue of a player; \<open>GameInv\<close>: the
  invariant of the server. Properties in \<open>GameProps\<close>, \<open>GameRequests\<close>, \<open>GameSessions\<close>,
  \<open>GameCreation\<close>, \<open>GameRaces\<close> (an offline notice and a resume at the same time) and \<open>GamePersist\<close>.

  Processes. \<open>Startup\<close>: the three \<open>main\<close> functions, and that the servers they run are the ones the
  state machines start from. \<open>Serving\<close>: \<open>ListenAndServe\<close> of the service and of the game server, one
  locale for the accept loop with both as its interpretations: no error of \<open>Accept\<close> ends it, after
  the signal it can end, and the server inside keeps its invariant. \<open>GateProcess\<close>: the gate with
  its accept loop, WebSocket server, goroutines, the wait of \<open>main\<close> and the shutdown as stages.
  \<open>Shutdown\<close>: what the end of a gate means to the others.

  Bounds and termination. The retry loops of \<open>Send\<close> and the loops of the buffered writer and reader
  end by a measure that is proved; there is no fuel. Session and gate ids are 64-bit words that
  count up from one; the gate's state machine assumes of every step that the next session id does
  not wrap around (2^64 sessions). Durations are integers, which agrees with the code as long as
  a configured number of seconds is below 2^63 / 10^9.

  Parameters. Protobuf and JSON encoding, the Redis client and server, sockets and WebSocket
  frames, the clock, randomness, reading files and listening are arguments. Where a property
  needs something of them it is a hypothesis that states what their documentation promises (a
  codec reads what it wrote, the laws of the Redis commands), and a witness satisfies it with a
  concrete instance.

  Not modelled. Log output inside the operations (its format is in \<open>Logging\<close>), except that the
  counters it reports are kept. Parsing of flags. The HTTP side of a WebSocket upgrade, beyond the
  connection or the error it yields. The two writers of one connection to the service, its queue
  and its heartbeat, share a mutex; the heartbeat's envelope is the outcome of \<open>rc_heartbeat\<close>.
  While a \<open>Send\<close> sleeps between two attempts only the writer of its queue runs. The code has no
  lock around the fields of a gate session or of a player, so that a race inside one handler is
  possible. A handler of the gate is one step here. A handler of the game server is one step, two,
  or as many as it has critical sections, in any mixture (\<open>game_step\<close>; \<open>handleConn_finest_steps\<close>
  says that they agree when nothing comes in between); there the change of a player's session and
  state on a resume is one step, and so is \<open>Post\<close>, which tests the state of a player and then
  sends. When a read of a WebSocket fails at its deadline is left to the library. A tick of the
  gate's collecting loop reads the clock once for its two visits, which the code does twice. The
  dispatcher of the service recovers from a handler that panics; neither of its two handlers has an
  operation that does. Closing a client that \<open>InitRedis\<close> could not ping is left to the library. No Go code calls \<open>DestroyPlayer\<close>; the event
  \<open>Destroy\<close> stands for a caller to come. Time-outs of a request happen at any moment. Code that is commented out, the generated protobuf code, the Python clients and the
  empty stubs under \<open>cmd/db\<close>, \<open>internal/db/dbserver.go\<close>, \<open>internal/runtime\<close> and others.
\<close>

end
